(* ===== verification/Mih_Prelude.thy ===== *)
theory Mih_Prelude
  imports Main "HOL-Library.Word" "HOL-Library.List_Lexorder" "HOL-Library.Char_ord"
begin

text \<open>
  Shared vocabulary of the development: the C++ integer types at their width, the
  exceptions the code throws, the effect type used for every operation that can throw,
  the bytes of a machine word, \<open>std::vector\<close> resizing and \<open>std::map\<close> as a sorted
  association list with its interface as a locale.
\<close>

unbundle bit_operations_syntax

section \<open>Types\<close>

type_synonym u8 = "8 word"
type_synonym u16 = "16 word"
type_synonym u32 = "32 word"
type_synonym u64 = "64 word"
type_synonym octet_string = string

text \<open>
  What can leave a C++ function other than by a return. The first group are exceptions of
  the program and of the \<open>boost\<close> casts it calls; \<open>system_error\<close> is the exception of a
  \<open>boost::asio\<close> call, \<open>runtime_error\<close> that of a failed command and \<open>dbus_error\<close> that of a D-Bus call; \<open>bug_assert\<close> is a failed
  assertion (the debug build, in which \<open>ODTONE_ASSERT\<close> and \<open>assert\<close> are active);
  \<open>undefined_behaviour\<close> is an operation for which the C++ standard gives no meaning (an
  out-of-bounds access, a shift by the width of the operand, a read of an empty
  \<open>boost::optional\<close>, a null pointer); \<open>deadlock\<close> is a second lock of a \<open>boost::mutex\<close> by the
  thread that holds it. \<open>out_of_fuel\<close> is not an outcome of the code: it marks a bounded loop of
  the model whose bound was too small.
\<close>

datatype exn =
    iarchive_eof_error
  | bad_tlv
  | bad_truncate_cast
  | percentage_exception
  | unknown_link_sap
  | unknown_mih_user
  | no_address_entry
  | bad_get
  | invalid_argument
  | bad_lexical_cast
  | system_error
  | runtime_error
  | dbus_error
  | bug_assert
  | undefined_behaviour
  | deadlock
  | out_of_fuel

section \<open>Operations that may throw\<close>

text \<open>
  An operation on a state \<open>'s\<close> returns its result or the exception together with the state
  at that moment: a C++ throw keeps the assignments made before it.
\<close>

type_synonym ('s, 'a) eff = "'s \<Rightarrow> (exn + 'a) \<times> 's"

named_theorems eff_simps \<open>evaluation of effectful operations\<close>
named_theorems codec_intros \<open>introduction rules for the serialization law\<close>

definition ret :: "'a \<Rightarrow> ('s, 'a) eff" where
  "ret x s = (Inr x, s)"

definition throw :: "exn \<Rightarrow> ('s, 'a) eff" where
  "throw e s = (Inl e, s)"

definition bnd :: "('s, 'a) eff \<Rightarrow> ('a \<Rightarrow> ('s, 'b) eff) \<Rightarrow> ('s, 'b) eff" where
  "bnd m f s = (case m s of (Inl e, s') \<Rightarrow> (Inl e, s') | (Inr x, s') \<Rightarrow> f x s')"

definition seq :: "('s, 'a) eff \<Rightarrow> ('s, 'b) eff \<Rightarrow> ('s, 'b) eff" where
  "seq m n = bnd m (\<lambda>_. n)"

text \<open>\<open>try { m } catch (...) { h; throw; }\<close>: the handler \<open>h\<close> repairs the state.\<close>

definition on_throw :: "('s, 'a) eff \<Rightarrow> ('s \<Rightarrow> 's) \<Rightarrow> ('s, 'a) eff" where
  "on_throw m h s = (case m s of (Inl e, s') \<Rightarrow> (Inl e, h s') | (Inr x, s') \<Rightarrow> (Inr x, s'))"

text \<open>
  \<open>try { m } catch (T) { h }\<close>, where \<open>c\<close> says which exceptions \<open>T\<close> takes. \<open>catch (...)\<close> takes every
  exception, and nothing that is not one.
\<close>

definition try_catch :: "('s, 'a) eff \<Rightarrow> (exn \<Rightarrow> bool) \<Rightarrow> ('s, 'a) eff \<Rightarrow> ('s, 'a) eff" where
  "try_catch m c h s = (case m s of (Inl e, s') \<Rightarrow> if c e then h s' else (Inl e, s') | (Inr x, s') \<Rightarrow> (Inr x, s'))"

fun catchable :: "exn \<Rightarrow> bool" where
  "catchable bug_assert = False"
| "catchable undefined_behaviour = False"
| "catchable deadlock = False"
| "catchable out_of_fuel = False"
| "catchable _ = True"

text \<open>
  A function body made of labelled blocks: each block returns or jumps to a label. At most \<open>n\<close>
  blocks are run.
\<close>

fun goto :: "nat \<Rightarrow> ('l \<Rightarrow> ('s, 'l option) eff) \<Rightarrow> 'l \<Rightarrow> ('s, unit) eff" where
  "goto 0 block l = throw out_of_fuel"
| "goto (Suc n) block l = bnd (block l) (\<lambda>r. case r of None \<Rightarrow> ret () | Some l' \<Rightarrow> goto n block l')"

fun for_each :: "('x \<Rightarrow> ('s, unit) eff) \<Rightarrow> 'x list \<Rightarrow> ('s, unit) eff" where
  "for_each f [] = ret ()"
| "for_each f (x # xs) = seq (f x) (for_each f xs)"

definition on_cond :: "bool \<Rightarrow> ('s, unit) eff \<Rightarrow> ('s, unit) eff" where
  "on_cond b m = (if b then m else ret ())"

definition upd :: "('s \<Rightarrow> 's) \<Rightarrow> ('s, unit) eff" where
  "upd f s = (Inr (), f s)"

definition gets :: "('s \<Rightarrow> 'a) \<Rightarrow> ('s, 'a) eff" where
  "gets f s = (Inr (f s), s)"

lemma ret_run [simp, eff_simps]: "ret x s = (Inr x, s)"
  by (simp add: ret_def)

lemma throw_run [simp, eff_simps]: "throw e s = (Inl e, s)"
  by (simp add: throw_def)

lemma upd_run [simp, eff_simps]: "upd f s = (Inr (), f s)"
  by (simp add: upd_def)

lemma gets_run [simp, eff_simps]: "gets f s = (Inr (f s), s)"
  by (simp add: gets_def)

lemma bnd_Inr [simp]: "m s = (Inr x, s') \<Longrightarrow> bnd m f s = f x s'"
  by (simp add: bnd_def)

lemma bnd_Inl [simp]: "m s = (Inl e, s') \<Longrightarrow> bnd m f s = (Inl e, s')"
  by (simp add: bnd_def)

lemma seq_Inr [simp]: "m s = (Inr x, s') \<Longrightarrow> seq m n s = n s'"
  by (simp add: seq_def)

lemma seq_Inl [simp]: "m s = (Inl e, s') \<Longrightarrow> seq m n s = (Inl e, s')"
  by (simp add: seq_def)

lemma on_throw_Inr [simp]: "m s = (Inr x, s') \<Longrightarrow> on_throw m h s = (Inr x, s')"
  by (simp add: on_throw_def)

lemma on_throw_Inl [simp]: "m s = (Inl e, s') \<Longrightarrow> on_throw m h s = (Inl e, h s')"
  by (simp add: on_throw_def)

lemma try_catch_Inr [simp]: "m s = (Inr x, s') \<Longrightarrow> try_catch m c h s = (Inr x, s')"
  by (simp add: try_catch_def)

lemma try_catch_Inl [simp]: "m s = (Inl e, s') \<Longrightarrow> try_catch m c h s = (if c e then h s' else (Inl e, s'))"
  by (simp add: try_catch_def)

lemma on_cond_simps [simp]: "on_cond True m = m" "on_cond False m = ret ()"
  by (simp_all add: on_cond_def)

lemma bnd_assoc: "bnd (bnd m f) g s = bnd m (\<lambda>x. bnd (f x) g) s"
  by (simp add: bnd_def split: prod.split sum.split)

lemma bnd_ret [simp]: "bnd (ret x) f = f x"
  by (rule ext) simp

lemma bnd_cases:
  assumes "bnd m f s = r"
  obtains (exn) e s' where "m s = (Inl e, s')" "r = (Inl e, s')"
    | (val) x s' where "m s = (Inr x, s')" "f x s' = r"
  using assms by (auto simp: bnd_def split: prod.splits sum.splits)

lemma bnd_eq_Inr:
  "bnd m f s = (Inr y, s'') \<longleftrightarrow> (\<exists>x s'. m s = (Inr x, s') \<and> f x s' = (Inr y, s''))"
  by (auto simp: bnd_def split: prod.splits sum.splits)

section \<open>Lower case\<close>

text \<open>The \<open>boost\<close> string algorithms \<open>to_lower\<close> and \<open>iequals\<close> in the classic locale.\<close>

definition lower_char :: "char \<Rightarrow> char" where
  "lower_char c = (if c \<in> set ''ABCDEFGHIJKLMNOPQRSTUVWXYZ'' then char_of (of_char c + 32 :: nat) else c)"

definition to_lower :: "string \<Rightarrow> string" where
  "to_lower = map lower_char"

definition iequals :: "string \<Rightarrow> string \<Rightarrow> bool" where
  "iequals a b \<longleftrightarrow> to_lower a = to_lower b"

section \<open>Unsigned 32-bit arithmetic\<close>

text \<open>
  \<open>uint\<close> is a 32-bit unsigned integer. Buffer positions are \<open>uint\<close> values compared with the
  64-bit \<open>size_t\<close> of a vector; they are kept as natural numbers with the wrap-around
  written out.
\<close>

definition uadd :: "nat \<Rightarrow> nat \<Rightarrow> nat" where
  "uadd a b = (a + b) mod 2 ^ 32"

definition usub :: "nat \<Rightarrow> nat \<Rightarrow> nat" where
  "usub a b = (a + (2 ^ 32 - b mod 2 ^ 32)) mod 2 ^ 32"

lemma uadd_small [simp]: "a + b < 4294967296 \<Longrightarrow> uadd a b = a + b"
  by (simp add: uadd_def)

lemma uadd_lt: "uadd a b < 4294967296"
  by (simp add: uadd_def)

lemma uadd_usub:
  assumes "b \<le> a" "a < 4294967296"
  shows "uadd b (usub a b) = a"
proof -
  have "(b + (a + (4294967296 - b)) mod 4294967296) mod 4294967296
      = (b + (a + (4294967296 - b))) mod 4294967296"
    by (simp only: mod_add_right_eq)
  also have "\<dots> = a" using assms by simp
  finally show ?thesis using assms by (simp add: uadd_def usub_def)
qed

lemma usub_small [simp]: "b \<le> a \<Longrightarrow> a < 4294967296 \<Longrightarrow> usub a b = a - b"
proof -
  assume a: "b \<le> a" "a < 4294967296"
  then have eq: "a + (4294967296 - b) = (a - b) + 4294967296" by simp
  have "(a + (4294967296 - b)) mod 4294967296 = (a - b) mod 4294967296"
    by (simp only: eq mod_add_self2)
  then show ?thesis using a by (simp add: usub_def)
qed

section \<open>Bytes of a word\<close>

definition byte_at :: "nat \<Rightarrow> 'a::len word \<Rightarrow> u8" where
  "byte_at k v = ucast (drop_bit k v)"

lemma bit_byte_at [simp]:
  "bit (push_bit k (ucast (byte_at k v)) :: 'a::len word) n
     \<longleftrightarrow> k \<le> n \<and> n < k + 8 \<and> bit (v :: 'a word) n"
  by (auto simp: byte_at_def bit_simps dest: bit_imp_le_length)

lemma bit_byte_at0 [simp]:
  "bit (ucast (byte_at 0 v) :: 'a::len word) n \<longleftrightarrow> n < 8 \<and> bit (v :: 'a word) n"
  using bit_byte_at[of 0 v n] by simp

lemma join_bytes_16: "push_bit 8 (ucast (byte_at 8 v)) OR ucast (byte_at 0 v) = (v :: u16)"
  by (rule bit_word_eqI) (simp add: bit_or_iff, arith)

lemma join_bytes_32:
  "push_bit 24 (ucast (byte_at 24 v)) OR push_bit 16 (ucast (byte_at 16 v))
     OR push_bit 8 (ucast (byte_at 8 v)) OR ucast (byte_at 0 v) = (v :: u32)"
  by (rule bit_word_eqI) (simp add: bit_or_iff, arith)

lemma join_bytes_64:
  "push_bit 56 (ucast (byte_at 56 v)) OR push_bit 48 (ucast (byte_at 48 v))
     OR push_bit 40 (ucast (byte_at 40 v)) OR push_bit 32 (ucast (byte_at 32 v))
     OR push_bit 24 (ucast (byte_at 24 v)) OR push_bit 16 (ucast (byte_at 16 v))
     OR push_bit 8 (ucast (byte_at 8 v)) OR ucast (byte_at 0 v) = (v :: u64)"
  by (rule bit_word_eqI) (simp add: bit_or_iff, arith)

lemmas join_bytes = join_bytes_16 join_bytes_32 join_bytes_64

text \<open>Characters of a \<open>std::string\<close> are bytes.\<close>

definition byte_of_char :: "char \<Rightarrow> u8" where
  "byte_of_char c = of_nat (of_char c)"

definition char_of_byte :: "u8 \<Rightarrow> char" where
  "char_of_byte b = char_of (unat b)"

lemma char_of_byte_of_char [simp]: "char_of_byte (byte_of_char c) = c"
proof -
  have "(of_char c :: nat) < 256" by (rule nat_of_char_less_256)
  then show ?thesis
    by (simp add: byte_of_char_def char_of_byte_def unsigned_of_nat take_bit_eq_mod)
qed

lemma byte_of_char_of_byte [simp]: "byte_of_char (char_of_byte b) = b"
proof -
  have "unat b < 256" using unsigned_less[of b] by simp
  then show ?thesis
    by (simp add: byte_of_char_def char_of_byte_def)
qed

abbreviation bytes_of :: "octet_string \<Rightarrow> u8 list" where
  "bytes_of \<equiv> map byte_of_char"

abbreviation chars_of :: "u8 list \<Rightarrow> octet_string" where
  "chars_of \<equiv> map char_of_byte"

section \<open>Maps\<close>

text \<open>
  \<open>std::map\<close> keeps its entries sorted by key; iteration order is key order, which
  \<open>link_book::search_interface\<close> and every \<open>get_ids\<close> depend on. The model is the sorted
  association list; \<open>std::string\<close> keys compare lexicographically by byte, which is the
  order of theory \<open>List_Lexorder\<close> over \<open>Char_ord\<close>.
\<close>

type_synonym ('k, 'v) stdmap = "('k \<times> 'v) list"

fun map_store :: "'k::linorder \<Rightarrow> 'v \<Rightarrow> ('k, 'v) stdmap \<Rightarrow> ('k, 'v) stdmap" where
  "map_store k v [] = [(k, v)]"
| "map_store k v (e # es) =
     (if fst e = k then (k, v) # es
      else if k < fst e then (k, v) # e # es else e # map_store k v es)"

definition map_erase :: "'k \<Rightarrow> ('k, 'v) stdmap \<Rightarrow> ('k, 'v) stdmap" where
  "map_erase k m = filter (\<lambda>e. fst e \<noteq> k) m"

definition map_keys :: "('k, 'v) stdmap \<Rightarrow> 'k list" where
  "map_keys m = map fst m"

definition map_ok :: "('k::linorder, 'v) stdmap \<Rightarrow> bool" where
  "map_ok m = sorted_wrt (<) (map fst m)"

lemma set_map_store: "fst ` set (map_store k v m) = insert k (fst ` set m)"
  by (induction m) auto

lemma map_ok_store: "map_ok m \<Longrightarrow> map_ok (map_store k v m)"
proof (induction m)
  case Nil
  then show ?case by (simp add: map_ok_def)
next
  case (Cons e es)
  then have ok: "map_ok (map_store k v es)" by (simp add: map_ok_def)
  have keys: "x \<in> set (map_store k v es) \<Longrightarrow> fst x = k \<or> fst x \<in> fst ` set es" for x
    using set_map_store[of k v es] by (metis image_eqI insertE)
  from Cons.prems ok keys show ?case
    by (fastforce simp: map_ok_def)
qed

lemma map_ok_erase: "map_ok m \<Longrightarrow> map_ok (map_erase k m)"
  by (induction m) (auto simp: map_ok_def map_erase_def)

lemma map_of_store: "map_ok m \<Longrightarrow> map_of (map_store k v m) = (map_of m)(k \<mapsto> v)"
proof (induction m)
  case Nil
  then show ?case by (simp add: fun_eq_iff)
next
  case (Cons e es)
  then show ?case by (cases e) (auto simp: map_ok_def fun_eq_iff)
qed

lemma map_of_erase: "map_of (map_erase k m) = (map_of m)(k := None)"
  by (induction m) (auto simp: map_erase_def fun_eq_iff)

text \<open>
  The interface the address books use, with the operation they all share: find the entry
  of an identifier and, if there is one, change it in place.
\<close>

locale ordered_map =
  fixes look :: "'m \<Rightarrow> 'k::linorder \<Rightarrow> 'v option"
    and store :: "'k \<Rightarrow> 'v \<Rightarrow> 'm \<Rightarrow> 'm"
    and erase :: "'k \<Rightarrow> 'm \<Rightarrow> 'm"
    and keys :: "'m \<Rightarrow> 'k list"
    and wf :: "'m \<Rightarrow> bool"
  assumes look_store: "wf m \<Longrightarrow> look (store k v m) = (look m)(k \<mapsto> v)"
    and look_erase: "wf m \<Longrightarrow> look (erase k m) = (look m)(k := None)"
    and keys_look: "wf m \<Longrightarrow> set (keys m) = dom (look m)"
    and keys_sorted: "wf m \<Longrightarrow> sorted_wrt (<) (keys m)"
    and wf_store: "wf m \<Longrightarrow> wf (store k v m)"
    and wf_erase: "wf m \<Longrightarrow> wf (erase k m)"
begin

lemma keys_store: "wf m \<Longrightarrow> set (keys (store k v m)) = insert k (set (keys m))"
  by (simp add: keys_look wf_store look_store)

lemma keys_store_same:
  assumes "wf m" "k \<in> set (keys m)"
  shows "keys (store k v m) = keys m"
proof -
  have "set (keys (store k v m)) = set (keys m)"
    using assms by (auto simp: keys_store)
  moreover have "sorted_wrt (<) (keys (store k v m))" "sorted_wrt (<) (keys m)"
    using assms by (simp_all add: keys_sorted wf_store)
  ultimately show ?thesis
    by (simp add: strict_sorted_equal)
qed

lemma store_other: "wf m \<Longrightarrow> k \<noteq> k' \<Longrightarrow> look (store k v m) k' = look m k'"
  by (simp add: look_store)

lemma erase_other: "wf m \<Longrightarrow> k \<noteq> k' \<Longrightarrow> look (erase k m) k' = look m k'"
  by (simp add: look_erase)

lemma keys_distinct: "wf m \<Longrightarrow> distinct (keys m)"
  using keys_sorted by (metis strict_sorted_iff)

end

lemma map_keys_sorted: "map_ok m \<Longrightarrow> sorted_wrt (<) (map_keys m)"
  by (simp add: map_ok_def map_keys_def)

lemma set_map_keys: "set (map_keys m) = dom (map_of m)"
  by (simp add: map_keys_def dom_map_of_conv_image_fst)

interpretation smap: ordered_map map_of map_store map_erase map_keys map_ok
  by unfold_locales
    (simp_all add: map_of_store map_of_erase map_ok_store map_ok_erase map_keys_sorted set_map_keys)

definition map_modify :: "'k::linorder \<Rightarrow> ('v \<Rightarrow> 'v) \<Rightarrow> ('k, 'v) stdmap \<Rightarrow> ('k, 'v) stdmap" where
  "map_modify k f m = (case map_of m k of None \<Rightarrow> m | Some e \<Rightarrow> map_store k (f e) m)"

lemma map_ok_modify: "map_ok m \<Longrightarrow> map_ok (map_modify k f m)"
  by (simp add: map_modify_def map_ok_store split: option.split)

lemma map_of_modify:
  "map_ok m \<Longrightarrow> map_of (map_modify k f m) x = (if x = k then map_option f (map_of m k) else map_of m x)"
  by (simp add: map_modify_def map_of_store split: option.split)

lemma map_keys_modify: "map_ok m \<Longrightarrow> map_keys (map_modify k f m) = map_keys m"
  by (auto simp: map_modify_def smap.keys_store_same set_map_keys dom_def split: option.split)

end
