(* ===== verification/Mih_Archive.thy ===== *)
theory Mih_Archive
  imports Mih_Prelude
begin

text \<open>
  The byte archives of \<open>inc/odtone/mih/archive.hpp\<close> and \<open>lib/odtone/mih/archive.cpp\<close>: a
  buffer with a position, the input archive that reads integers, strings and list lengths
  from it and the output archive that writes them. The lemmas give the bytes each write
  produces, that each read returns what the matching write produced, and which reads stay
  inside the buffer.
\<close>

section \<open>State\<close>

record archive =
  a_buf :: "u8 list"
  a_pos :: nat

text \<open>
  \<open>iarchive\<close> and \<open>oarchive\<close> hold references to the buffer and the position of an archive;
  the records below hold their current values.
\<close>

record iarchive =
  i_buf :: "u8 list"
  i_pos :: nat
  i_begin :: nat
  i_length :: nat

record oarchive =
  o_buf :: "u8 list"
  o_pos :: nat
  o_begin :: nat

definition archive_new :: archive where
  "archive_new = \<lparr>a_buf = [], a_pos = 0\<rparr>"

definition archive_clear :: "archive \<Rightarrow> archive" where
  "archive_clear ar = ar\<lparr>a_buf := [], a_pos := 0\<rparr>"

definition archive_set_buffer :: "u8 list \<Rightarrow> archive \<Rightarrow> archive" where
  "archive_set_buffer bs ar = ar\<lparr>a_buf := bs, a_pos := 0\<rparr>"

definition archive_append :: "u8 list \<Rightarrow> archive \<Rightarrow> archive" where
  "archive_append bs ar = ar\<lparr>a_buf := take (a_pos ar) (a_buf ar) @ bs @ drop (a_pos ar) (a_buf ar)\<rparr>"

definition iarchive_of :: "archive \<Rightarrow> iarchive" where
  "iarchive_of ar = \<lparr>i_buf = a_buf ar, i_pos = a_pos ar, i_begin = a_pos ar,
     i_length = length (a_buf ar) - a_pos ar\<rparr>"

definition oarchive_of :: "archive \<Rightarrow> oarchive" where
  "oarchive_of ar = \<lparr>o_buf = a_buf ar, o_pos = a_pos ar, o_begin = a_pos ar\<rparr>"

text \<open>\<open>iarchive(iarchive& ar, uint length)\<close>: a view of the same buffer and position.\<close>

definition iarchive_sub :: "nat \<Rightarrow> iarchive \<Rightarrow> iarchive" where
  "iarchive_sub len ar = ar\<lparr>i_begin := i_pos ar, i_length := len\<rparr>"

definition i_position :: "iarchive \<Rightarrow> nat" where
  "i_position ar = usub (i_pos ar) (i_begin ar)"

definition i_set_position :: "nat \<Rightarrow> iarchive \<Rightarrow> iarchive" where
  "i_set_position p ar = ar\<lparr>i_pos := uadd (i_begin ar) p\<rparr>"

definition o_position :: "oarchive \<Rightarrow> nat" where
  "o_position ar = usub (o_pos ar) (o_begin ar)"

definition o_set_position :: "nat \<Rightarrow> oarchive \<Rightarrow> oarchive" where
  "o_set_position p ar = ar\<lparr>o_pos := uadd (o_begin ar) p\<rparr>"

section \<open>Reading\<close>

text \<open>
  The common shape of the integer reads: if \<open>(_pos + n) > _buf.size()\<close> throw, otherwise take
  the \<open>n\<close> bytes at \<open>_pos\<close> and advance. An index outside the buffer has no defined meaning.
\<close>

definition i_take :: "nat \<Rightarrow> (iarchive, u8 list) eff" where
  "i_take n ar =
     (if length (i_buf ar) < uadd (i_pos ar) n then (Inl iarchive_eof_error, ar)
      else if length (i_buf ar) < i_pos ar + n then (Inl undefined_behaviour, ar)
      else (Inr (take n (drop (i_pos ar) (i_buf ar))), ar\<lparr>i_pos := uadd (i_pos ar) n\<rparr>))"

definition i_uint8 :: "(iarchive, u8) eff" where
  "i_uint8 = bnd (i_take 1) (\<lambda>b. ret (b ! 0))"

definition i_bool :: "(iarchive, bool) eff" where
  "i_bool = bnd i_uint8 (\<lambda>tmp. ret (tmp \<noteq> 0))"

definition i_uint16 :: "(iarchive, u16) eff" where
  "i_uint16 = bnd (i_take 2) (\<lambda>b. ret (push_bit 8 (ucast (b ! 0)) OR ucast (b ! 1)))"

definition i_uint32 :: "(iarchive, u32) eff" where
  "i_uint32 = bnd (i_take 4) (\<lambda>b. ret
     (push_bit 24 (ucast (b ! 0)) OR push_bit 16 (ucast (b ! 1))
      OR push_bit 8 (ucast (b ! 2)) OR ucast (b ! 3)))"

definition i_uint64 :: "(iarchive, u64) eff" where
  "i_uint64 = bnd (i_take 8) (\<lambda>b. ret
     (push_bit 56 (ucast (b ! 0)) OR push_bit 48 (ucast (b ! 1))
      OR push_bit 40 (ucast (b ! 2)) OR push_bit 32 (ucast (b ! 3))
      OR push_bit 24 (ucast (b ! 4)) OR push_bit 16 (ucast (b ! 5))
      OR push_bit 8 (ucast (b ! 6)) OR ucast (b ! 7)))"

text \<open>
  Signed integers are kept as words of their width, read with \<open>sint\<close>. Negating the least
  value of a 32 or 64-bit signed integer is undefined; narrower ones are promoted first.
\<close>

definition i_sint8 :: "(iarchive, 8 word) eff" where
  "i_sint8 = bnd i_uint8 (\<lambda>tmp. ret (if bit tmp 7 then - (NOT tmp + 1) else tmp))"

definition i_sint16 :: "(iarchive, 16 word) eff" where
  "i_sint16 = bnd i_uint16 (\<lambda>tmp. ret (if bit tmp 15 then - (NOT tmp + 1) else tmp))"

definition i_sint32 :: "(iarchive, 32 word) eff" where
  "i_sint32 = bnd i_uint32 (\<lambda>tmp.
     if bit tmp 31 then (if NOT tmp + 1 = push_bit 31 1 then throw undefined_behaviour
                         else ret (- (NOT tmp + 1)))
     else ret tmp)"

definition i_sint64 :: "(iarchive, 64 word) eff" where
  "i_sint64 = bnd i_uint64 (\<lambda>tmp.
     if bit tmp 63 then (if NOT tmp + 1 = push_bit 63 1 then throw undefined_behaviour
                         else ret (- (NOT tmp + 1)))
     else ret tmp)"

text \<open>
  The loop \<open>for (uint i = 0; i < n; ++i) len = (len << (i * 8)) | _buf[pos++]\<close> over the
  length bytes; shifting a \<open>uint\<close> by 32 or more is undefined (\<open>None\<close>).
\<close>

fun length_loop :: "nat \<Rightarrow> u8 list \<Rightarrow> u32 \<Rightarrow> u32 option" where
  "length_loop i [] len = Some len"
| "length_loop i (b # bs) len =
     (if 32 \<le> i * 8 then None else length_loop (Suc i) bs (push_bit (i * 8) len OR ucast b))"

definition i_list_length :: "(iarchive, nat) eff" where
  "i_list_length ar =
     (let size = length (i_buf ar); pos = i_pos ar in
      if size \<le> pos then (Inl iarchive_eof_error, ar)
      else let n = i_buf ar ! pos; pos = uadd pos 1 in
        if 128 < n then
          let n = unat (n AND 0x7F) in
          if size \<le> uadd pos n then (Inl iarchive_eof_error, ar)
          else if size < pos + n then (Inl undefined_behaviour, ar)
          else (case length_loop 0 (take n (drop pos (i_buf ar))) 0 of
                  None \<Rightarrow> (Inl undefined_behaviour, ar)
                | Some len \<Rightarrow> (Inr (unat (len + 128)), ar\<lparr>i_pos := uadd pos n\<rparr>))
        else (Inr (unat n), ar\<lparr>i_pos := pos\<rparr>))"

text \<open>
  A string or byte vector: the check compares the position before the length field with
  the buffer size; the copy starts after the length field.
\<close>

definition i_bytes :: "(iarchive, u8 list) eff" where
  "i_bytes ar =
     (let pos = i_pos ar in
      bnd i_list_length (\<lambda>len ar1.
        if length (i_buf ar1) \<le> uadd pos len then (Inl iarchive_eof_error, ar1\<lparr>i_pos := pos\<rparr>)
        else if length (i_buf ar1) < i_pos ar1 + len then (Inl undefined_behaviour, ar1)
        else (Inr (take len (drop (i_pos ar1) (i_buf ar1))), ar1\<lparr>i_pos := uadd (i_pos ar1) len\<rparr>)) ar)"

definition i_octet_string :: "(iarchive, octet_string) eff" where
  "i_octet_string = bnd i_bytes (\<lambda>bs. ret (chars_of bs))"

section \<open>Writing\<close>

text \<open>
  The common shape of the writes: \<open>_buf.resize(_pos + n)\<close>, which cuts the buffer at the new
  end or pads it with zeros, then the \<open>n\<close> bytes are stored from \<open>_pos\<close>. A position that
  wraps around \<open>uint\<close> would store outside the resized buffer.
\<close>

definition o_write :: "u8 list \<Rightarrow> (oarchive, unit) eff" where
  "o_write bs ar =
     (if 2 ^ 32 \<le> o_pos ar + length bs then (Inl undefined_behaviour, ar)
      else (Inr (), ar\<lparr>o_buf := take (o_pos ar) (o_buf ar)
                          @ replicate (o_pos ar - length (o_buf ar)) 0 @ bs,
                       o_pos := o_pos ar + length bs\<rparr>))"

definition o_uint8 :: "u8 \<Rightarrow> (oarchive, unit) eff" where
  "o_uint8 v = o_write [v]"

definition o_bool :: "bool \<Rightarrow> (oarchive, unit) eff" where
  "o_bool v = o_write [if v then 1 else 0]"

definition o_uint16 :: "u16 \<Rightarrow> (oarchive, unit) eff" where
  "o_uint16 v = o_write [byte_at 8 v, byte_at 0 v]"

definition o_uint32 :: "u32 \<Rightarrow> (oarchive, unit) eff" where
  "o_uint32 v = o_write [byte_at 24 v, byte_at 16 v, byte_at 8 v, byte_at 0 v]"

definition o_uint64 :: "u64 \<Rightarrow> (oarchive, unit) eff" where
  "o_uint64 v = o_write [byte_at 56 v, byte_at 48 v, byte_at 40 v, byte_at 32 v,
     byte_at 24 v, byte_at 16 v, byte_at 8 v, byte_at 0 v]"

definition o_sint8 :: "8 word \<Rightarrow> (oarchive, unit) eff" where
  "o_sint8 v = o_uint8 (if bit v 7 then NOT (- v) + 1 else v)"

definition o_sint16 :: "16 word \<Rightarrow> (oarchive, unit) eff" where
  "o_sint16 v = o_uint16 (if bit v 15 then NOT (- v) + 1 else v)"

definition o_sint32 :: "32 word \<Rightarrow> (oarchive, unit) eff" where
  "o_sint32 v =
     (if v = push_bit 31 1 then throw undefined_behaviour
      else o_uint32 (if bit v 31 then NOT (- v) + 1 else v))"

definition o_sint64 :: "64 word \<Rightarrow> (oarchive, unit) eff" where
  "o_sint64 v =
     (if v = push_bit 63 1 then throw undefined_behaviour
      else o_uint64 (if bit v 63 then NOT (- v) + 1 else v))"

text \<open>The loop \<open>do ++n; while (len >> (n * 8))\<close> that counts the length bytes.\<close>

function length_bytes :: "u32 \<Rightarrow> nat \<Rightarrow> nat option" where
  "length_bytes len n =
     (let n = n + 1 in
      if 32 \<le> n * 8 then None
      else if drop_bit (n * 8) len \<noteq> 0 then length_bytes len n else Some n)"
  by pat_completeness auto
termination
  by (relation "measure (\<lambda>(len, n). 4 - n)") auto

declare length_bytes.simps [simp del]

definition o_list_length :: "u32 \<Rightarrow> (oarchive, unit) eff" where
  "o_list_length len =
     (if len \<le> 128 then o_write [ucast len]
      else let len = len - 128 in
        case length_bytes len 0 of
          None \<Rightarrow> throw undefined_behaviour
        | Some n \<Rightarrow> o_write ((0x80 OR of_nat n) # map (\<lambda>i. byte_at (i * 8) len) (rev [0..<n])))"

definition o_bytes :: "u8 list \<Rightarrow> (oarchive, unit) eff" where
  "o_bytes bs =
     (if 2 ^ 32 \<le> length bs then throw bad_truncate_cast
      else seq (o_list_length (of_nat (length bs))) (o_write bs))"

definition o_octet_string :: "octet_string \<Rightarrow> (oarchive, unit) eff" where
  "o_octet_string s = o_bytes (bytes_of s)"

section \<open>What a write produces and what a read needs\<close>

text \<open>
  \<open>i_at ar bs\<close>: the bytes from the position of \<open>ar\<close> to the end of its buffer are \<open>bs\<close>.
  \<open>i_skip\<close> and \<open>o_put\<close> are the states after reading \<open>n\<close> bytes and after appending bytes.
\<close>

definition i_at :: "iarchive \<Rightarrow> u8 list \<Rightarrow> bool" where
  "i_at ar bs \<longleftrightarrow> i_pos ar \<le> length (i_buf ar) \<and> length (i_buf ar) < 2 ^ 32
     \<and> drop (i_pos ar) (i_buf ar) = bs"

definition i_skip :: "nat \<Rightarrow> iarchive \<Rightarrow> iarchive" where
  "i_skip n ar = ar\<lparr>i_pos := i_pos ar + n\<rparr>"

definition o_at_end :: "oarchive \<Rightarrow> nat \<Rightarrow> bool" where
  "o_at_end ar n \<longleftrightarrow> o_pos ar = length (o_buf ar) \<and> o_pos ar + n < 2 ^ 32"

definition o_put :: "u8 list \<Rightarrow> oarchive \<Rightarrow> oarchive" where
  "o_put bs ar = ar\<lparr>o_buf := o_buf ar @ bs, o_pos := o_pos ar + length bs\<rparr>"

lemma i_skip_0 [simp]: "i_skip 0 ar = ar"
  by (simp add: i_skip_def)

lemma i_skip_skip [simp]: "i_skip n (i_skip m ar) = i_skip (m + n) ar"
  by (simp add: i_skip_def add.assoc)

lemma i_skip_sel [simp]:
  "i_buf (i_skip n ar) = i_buf ar" "i_pos (i_skip n ar) = i_pos ar + n"
  "i_begin (i_skip n ar) = i_begin ar" "i_length (i_skip n ar) = i_length ar"
  by (simp_all add: i_skip_def)

lemma o_put_nil [simp]: "o_put [] ar = ar"
  by (simp add: o_put_def)

lemma o_put_put [simp]: "o_put ys (o_put xs ar) = o_put (xs @ ys) ar"
  by (simp add: o_put_def add.assoc)

lemma o_put_sel [simp]:
  "o_buf (o_put bs ar) = o_buf ar @ bs" "o_pos (o_put bs ar) = o_pos ar + length bs"
  "o_begin (o_put bs ar) = o_begin ar"
  by (simp_all add: o_put_def)

lemma i_at_length: "i_at ar bs \<Longrightarrow> length (i_buf ar) = i_pos ar + length bs"
  unfolding i_at_def by (metis le_add_diff_inverse length_drop)

lemma i_at_bound:
  assumes "i_at ar bs"
  shows "i_pos ar + length bs < 4294967296"
proof -
  have "length (i_buf ar) < 4294967296" using assms by (simp add: i_at_def)
  then show ?thesis unfolding i_at_length [OF assms] .
qed

lemma i_at_skip [intro]: "i_at ar (xs @ ys) \<Longrightarrow> i_at (i_skip (length xs) ar) ys"
proof -
  assume a: "i_at ar (xs @ ys)"
  then have "drop (length xs) (drop (i_pos ar) (i_buf ar)) = ys"
    by (simp add: i_at_def)
  then have "drop (i_pos ar + length xs) (i_buf ar) = ys"
    by (simp add: add.commute)
  with a i_at_length [OF a] show ?thesis by (simp add: i_at_def)
qed

lemma o_at_end_put: "o_at_end ar n \<Longrightarrow> length bs + m \<le> n \<Longrightarrow> o_at_end (o_put bs ar) m"
  by (auto simp: o_at_end_def)

lemma o_at_end_mono: "o_at_end ar n \<Longrightarrow> m \<le> n \<Longrightarrow> o_at_end ar m"
  by (auto simp: o_at_end_def)

lemma i_take_at:
  assumes "length bs = n" "i_at ar (bs @ rest)"
  shows "i_take n ar = (Inr bs, i_skip n ar)"
proof -
  have b: "i_pos ar + n < 4294967296" using i_at_bound [OF assms(2)] assms(1) by simp
  have "take n (drop (i_pos ar) (i_buf ar)) = bs"
    using assms by (simp add: i_at_def)
  with b i_at_length [OF assms(2)] assms(1) show ?thesis by (simp add: i_take_def i_skip_def)
qed

lemma o_write_at_end:
  "length bs \<le> n \<Longrightarrow> o_at_end ar n \<Longrightarrow> o_write bs ar = (Inr (), o_put bs ar)"
  by (auto simp: o_write_def o_at_end_def o_put_def)

section \<open>Integers\<close>

definition enc_bool :: "bool \<Rightarrow> u8 list" where
  "enc_bool v = [if v then 1 else 0]"

definition enc8 :: "u8 \<Rightarrow> u8 list" where
  "enc8 v = [v]"

definition enc16 :: "u16 \<Rightarrow> u8 list" where
  "enc16 v = [byte_at 8 v, byte_at 0 v]"

definition enc32 :: "u32 \<Rightarrow> u8 list" where
  "enc32 v = [byte_at 24 v, byte_at 16 v, byte_at 8 v, byte_at 0 v]"

definition enc64 :: "u64 \<Rightarrow> u8 list" where
  "enc64 v = [byte_at 56 v, byte_at 48 v, byte_at 40 v, byte_at 32 v,
     byte_at 24 v, byte_at 16 v, byte_at 8 v, byte_at 0 v]"

lemmas enc_int_defs = enc_bool_def enc8_def enc16_def enc32_def enc64_def

lemma enc_int_length [simp]:
  "length (enc_bool b) = 1" "length (enc8 v8) = 1" "length (enc16 v16) = 2"
  "length (enc32 v32) = 4" "length (enc64 v64) = 8"
  by (simp_all add: enc_int_defs)

lemma enc_int_nonempty [simp]:
  "enc_bool b \<noteq> []" "enc8 v8 \<noteq> []" "enc16 v16 \<noteq> []" "enc32 v32 \<noteq> []" "enc64 v64 \<noteq> []"
  by (simp_all add: enc_int_defs)

lemma i_uint8_at: "i_at ar (enc8 v @ rest) \<Longrightarrow> i_uint8 ar = (Inr v, i_skip 1 ar)"
  using i_take_at [of "enc8 v" 1 ar rest] by (simp add: i_uint8_def enc8_def)

lemma i_bool_at: "i_at ar (enc_bool v @ rest) \<Longrightarrow> i_bool ar = (Inr v, i_skip 1 ar)"
  using i_uint8_at [of ar "if v then 1 else 0" rest]
  by (simp add: i_bool_def enc_bool_def enc8_def)

lemma i_uint16_at: "i_at ar (enc16 v @ rest) \<Longrightarrow> i_uint16 ar = (Inr v, i_skip 2 ar)"
  by (simp add: i_uint16_def i_take_at [of "enc16 v" 2 ar rest]) (simp add: enc16_def join_bytes)

lemma i_uint32_at: "i_at ar (enc32 v @ rest) \<Longrightarrow> i_uint32 ar = (Inr v, i_skip 4 ar)"
  by (simp add: i_uint32_def i_take_at [of "enc32 v" 4 ar rest]) (simp add: enc32_def join_bytes)

lemma i_uint64_at: "i_at ar (enc64 v @ rest) \<Longrightarrow> i_uint64 ar = (Inr v, i_skip 8 ar)"
  by (simp add: i_uint64_def i_take_at [of "enc64 v" 8 ar rest]) (simp add: enc64_def join_bytes)

lemma o_ints_at:
  "o_at_end ar 1 \<Longrightarrow> o_uint8 v8 ar = (Inr (), o_put (enc8 v8) ar)"
  "o_at_end ar 1 \<Longrightarrow> o_bool b ar = (Inr (), o_put (enc_bool b) ar)"
  "o_at_end ar 2 \<Longrightarrow> o_uint16 v16 ar = (Inr (), o_put (enc16 v16) ar)"
  "o_at_end ar 4 \<Longrightarrow> o_uint32 v32 ar = (Inr (), o_put (enc32 v32) ar)"
  "o_at_end ar 8 \<Longrightarrow> o_uint64 v64 ar = (Inr (), o_put (enc64 v64) ar)"
      apply (simp add: o_uint8_def enc8_def o_write_at_end [where n = 1])
     apply (simp add: o_bool_def enc_bool_def o_write_at_end [where n = 1])
    apply (simp add: o_uint16_def enc16_def o_write_at_end [where n = 2])
   apply (simp add: o_uint32_def enc32_def o_write_at_end [where n = 4])
  apply (simp add: o_uint64_def enc64_def o_write_at_end [where n = 8])
  done

lemma neg_complement: "- (NOT v + 1) = v" "NOT (- v) + 1 = v" for v :: "'a::len word"
  by (simp_all only: not_eq_complement diff_add_cancel minus_minus)

lemma i_sint_at:
  "i_at ar (enc8 v8 @ rest) \<Longrightarrow> i_sint8 ar = (Inr v8, i_skip 1 ar)"
  "i_at ar (enc16 v16 @ rest) \<Longrightarrow> i_sint16 ar = (Inr v16, i_skip 2 ar)"
  unfolding i_sint8_def i_sint16_def neg_complement if_cancel
  by (auto dest: i_uint8_at i_uint16_at)

lemma o_sint_at:
  "o_at_end ar 1 \<Longrightarrow> o_sint8 v8 ar = (Inr (), o_put (enc8 v8) ar)"
  "o_at_end ar 2 \<Longrightarrow> o_sint16 v16 ar = (Inr (), o_put (enc16 v16) ar)"
  unfolding o_sint8_def o_sint16_def neg_complement if_cancel
  by (simp_all add: o_ints_at)

lemma i_sint32_at:
  assumes "v \<noteq> push_bit 31 1" "i_at ar (enc32 v @ rest)"
  shows "i_sint32 ar = (Inr v, i_skip 4 ar)"
proof -
  have "NOT v + 1 \<noteq> push_bit 31 1"
  proof
    assume "NOT v + 1 = push_bit 31 1"
    then have "v = - push_bit 31 1" by (metis neg_complement(1))
    then show False using assms(1) by simp
  qed
  with i_uint32_at [OF assms(2)] show ?thesis
    unfolding i_sint32_def neg_complement by simp
qed

lemma i_sint64_at:
  assumes "v \<noteq> push_bit 63 1" "i_at ar (enc64 v @ rest)"
  shows "i_sint64 ar = (Inr v, i_skip 8 ar)"
proof -
  have "NOT v + 1 \<noteq> push_bit 63 1"
  proof
    assume "NOT v + 1 = push_bit 63 1"
    then have "v = - push_bit 63 1" by (metis neg_complement(1))
    then show False using assms(1) by simp
  qed
  with i_uint64_at [OF assms(2)] show ?thesis
    unfolding i_sint64_def neg_complement by simp
qed

lemma o_sint3264_at:
  "v32 \<noteq> push_bit 31 1 \<Longrightarrow> o_at_end ar 4 \<Longrightarrow> o_sint32 v32 ar = (Inr (), o_put (enc32 v32) ar)"
  "v64 \<noteq> push_bit 63 1 \<Longrightarrow> o_at_end ar 8 \<Longrightarrow> o_sint64 v64 ar = (Inr (), o_put (enc64 v64) ar)"
  unfolding o_sint32_def o_sint64_def neg_complement if_cancel
  by (simp_all add: o_ints_at)

section \<open>List lengths\<close>

text \<open>
  The length field as the writer produces it for lengths the reader understands: one byte
  up to 128; above, the number of bytes of \<open>len - 128\<close> with the top bit set, then those
  bytes, most significant first.
\<close>

definition enc_len :: "nat \<Rightarrow> u8 list" where
  "enc_len n =
     (if n \<le> 128 then [of_nat n]
      else let m = of_nat (n - 128) :: u32 in
        if m < 2 ^ 8 then [0x81, byte_at 0 m] else [0x82, byte_at 8 m, byte_at 0 m])"

definition len_ok :: "nat \<Rightarrow> bool" where
  "len_ok n \<longleftrightarrow> n < 128 + 2 ^ 16"

lemma enc_len_bounds [simp]: "1 \<le> length (enc_len n)" "length (enc_len n) \<le> 3" "enc_len n \<noteq> []"
  by (simp_all add: enc_len_def Let_def)

lemma drop_bit_eq_0_iff: "drop_bit k w = 0 \<longleftrightarrow> unat w < 2 ^ k" for w :: "'a::len word"
  by (metis Euclidean_Rings.div_eq_0_iff drop_bit_eq_div power_not_zero unat_drop_bit_eq
      unat_eq_zero zero_neq_numeral)

lemma length_bytes_cases:
  "length_bytes len 0 =
     (if unat len < 2 ^ 8 then Some 1 else if unat len < 2 ^ 16 then Some 2
      else if unat len < 2 ^ 24 then Some 3 else None)"
  by (simp add: length_bytes.simps [of _ 0] length_bytes.simps [of _ 1]
      length_bytes.simps [of _ 2] length_bytes.simps [of _ 3] drop_bit_eq_0_iff Let_def
      del: power.simps flip: One_nat_def)

lemma u32_of_nat_less: "m < 2 ^ 32 \<Longrightarrow> unat (of_nat m :: u32) = m"
  by (simp add: unsigned_of_nat take_bit_nat_eq_self)

lemma o_list_length_enc:
  assumes "len_ok n"
  shows "o_list_length (of_nat n) = o_write (enc_len n)"
proof (cases "n \<le> 128")
  case True
  then have "(of_nat n :: u32) \<le> 128"
    by (simp add: word_le_nat_alt u32_of_nat_less)
  moreover have "ucast (of_nat n :: u32) = (of_nat n :: u8)" using True
    by (simp add: unsigned_of_nat take_bit_nat_eq_self)
  ultimately show ?thesis using True
    by (simp add: o_list_length_def enc_len_def)
next
  case False
  then obtain m where n: "n = m + 128" by (metis le_add_diff_inverse2 nat_le_linear)
  have "\<not> (of_nat n :: u32) \<le> 128" using False assms
    by (simp add: word_le_nat_alt u32_of_nat_less len_ok_def)
  moreover have "(of_nat n - 128 :: u32) = of_nat m" by (simp add: n)
  moreover have "unat (of_nat m :: u32) < 2 ^ 16"
    using assms n by (simp add: u32_of_nat_less len_ok_def)
  ultimately show ?thesis using False n
    by (simp add: o_list_length_def enc_len_def Let_def length_bytes_cases upt_rec
        word_less_nat_alt del: of_nat_add)
qed

lemma o_list_length_at:
  "len_ok n \<Longrightarrow> o_at_end ar (length (enc_len n))
     \<Longrightarrow> o_list_length (of_nat n) ar = (Inr (), o_put (enc_len n) ar)"
  by (simp add: o_list_length_enc o_write_at_end [OF order_refl])

lemma bit_small: "unat w < 2 ^ k \<Longrightarrow> bit w j \<Longrightarrow> j < k" for w :: "'a::len word"
  by (metis bit_take_bit_iff take_bit_nat_eq_self unsigned_take_bit_eq word_eq_iff_unsigned)

lemma join_two_bytes:
  assumes "unat w < 2 ^ 16"
  shows "push_bit 8 (ucast (byte_at 8 w)) OR ucast (byte_at 0 w) = (w :: u32)"
  using bit_small [OF assms] by (intro bit_word_eqI) (auto simp: bit_or_iff)

lemma length_loop_enc:
  "unat w < 2 ^ 16 \<Longrightarrow> length_loop 0 [byte_at 8 w, byte_at 0 w] 0 = Some w"
  "unat w < 2 ^ 8 \<Longrightarrow> length_loop 0 [byte_at 0 w] 0 = Some w"
  using join_two_bytes [of w] bit_small [of w 8]
  by (auto intro!: bit_word_eqI)

lemma i_list_length_at:
  assumes "len_ok n" "i_at ar (enc_len n @ rest)" "128 < n \<Longrightarrow> rest \<noteq> []"
  shows "i_list_length ar = (Inr n, i_skip (length (enc_len n)) ar)"
proof -
  note len = i_at_length [OF assms(2)]
  note bound = i_at_bound [OF assms(2)]
  have d: "drop (i_pos ar) (i_buf ar) = enc_len n @ rest" using assms(2) by (simp add: i_at_def)
  have hd: "i_buf ar ! i_pos ar = hd (enc_len n)"
    using d len by (metis Nil_is_append_conv add.right_neutral drop_all enc_len_bounds(3)
        hd_append2 hd_drop_conv_nth linorder_not_le)
  have tl: "drop (Suc (i_pos ar)) (i_buf ar) = tl (enc_len n) @ rest"
    using d by (metis drop_Suc enc_len_bounds(3) tl_append2 tl_drop)
  show ?thesis
  proof (cases "n \<le> 128")
    case True
    then show ?thesis using len bound hd
      by (simp add: i_list_length_def Let_def enc_len_def i_skip_def word_less_nat_alt
          unsigned_of_nat take_bit_nat_eq_self)
  next
    case False
    then obtain m where n: "n = m + 128" by (metis le_add_diff_inverse2 nat_le_linear)
    let ?m = "of_nat m :: u32"
    have m16: "unat ?m < 2 ^ 16" and sum: "unat (?m + 128) = n"
      using assms(1) u32_of_nat_less [of m] u32_of_nat_less [of n] by (simp_all add: n len_ok_def)
    show ?thesis
      using len bound hd tl False assms(3) sum m16 length_loop_enc [of ?m]
      by (cases "unat ?m < 2 ^ 8")
        (auto simp: i_list_length_def Let_def enc_len_def i_skip_def word_less_nat_alt n
            simp del: length_loop.simps of_nat_add)
  qed
qed

section \<open>Strings and byte vectors\<close>

definition enc_bytes :: "u8 list \<Rightarrow> u8 list" where
  "enc_bytes bs = enc_len (length bs) @ bs"

lemma enc_bytes_length [simp]: "length (enc_bytes bs) = length (enc_len (length bs)) + length bs"
  by (simp add: enc_bytes_def)

lemma enc_bytes_nonempty [simp]: "enc_bytes bs \<noteq> []"
  by (simp add: enc_bytes_def)

lemma o_bytes_at:
  assumes "len_ok (length bs)" "o_at_end ar (length (enc_bytes bs))"
  shows "o_bytes bs ar = (Inr (), o_put (enc_bytes bs) ar)"
proof -
  have "o_list_length (of_nat (length bs)) ar = (Inr (), o_put (enc_len (length bs)) ar)"
    using assms by (intro o_list_length_at) (auto elim: o_at_end_mono)
  moreover have "o_at_end (o_put (enc_len (length bs)) ar) (length bs)"
    using assms(2) by (rule o_at_end_put) simp
  ultimately show ?thesis using assms(1)
    by (simp add: o_bytes_def len_ok_def o_write_at_end [OF order_refl] enc_bytes_def)
qed

lemma i_bytes_at:
  assumes "len_ok (length bs)" "i_at ar (enc_bytes bs @ rest)"
  shows "i_bytes ar = (Inr bs, i_skip (length (enc_bytes bs)) ar)"
proof -
  let ?e = "enc_len (length bs)"
  have at: "i_at ar (?e @ bs @ rest)" using assms(2) by (simp add: enc_bytes_def)
  have l: "i_list_length ar = (Inr (length bs), i_skip (length ?e) ar)"
    using assms(1) at by (rule i_list_length_at) auto
  have "drop (i_pos ar + length ?e) (i_buf ar) = bs @ rest"
    using i_at_skip [OF at] by (simp add: i_at_def)
  moreover have "length (i_buf ar) = i_pos ar + length ?e + length bs + length rest"
      "i_pos ar + length ?e + length bs + length rest < 4294967296" "1 \<le> length ?e"
    using i_at_length [OF at] i_at_bound [OF at] by (simp_all del: One_nat_def)
  ultimately show ?thesis
    by (simp add: i_bytes_def Let_def l i_skip_def)
qed

lemma i_octet_string_at:
  "len_ok (length s) \<Longrightarrow> i_at ar (enc_bytes (bytes_of s) @ rest)
     \<Longrightarrow> i_octet_string ar = (Inr s, i_skip (length (enc_bytes (bytes_of s))) ar)"
  using i_bytes_at [of "bytes_of s" ar rest] by (simp add: i_octet_string_def o_def)

section \<open>Properties of the archives\<close>

text \<open>
  C24: A list length below \<open>128 + 2 ^ 16\<close> written at the end of a buffer is read back, and the
  read stops right behind the length field, provided the element bytes follow it.
\<close>

theorem list_length_roundtrip:
  assumes "n < 128 + 2 ^ 16" "o_pos out = length (o_buf out)" "length (o_buf out) + 3 < 2 ^ 32"
    "o_list_length (of_nat n) out = (r, out')"
    "rest \<noteq> []" "length (o_buf out' @ rest) < 2 ^ 32"
    "i_buf inp = o_buf out' @ rest" "i_pos inp = o_pos out"
  shows "r = Inr () \<and> i_list_length inp = (Inr n, inp\<lparr>i_pos := o_pos out'\<rparr>)"
proof -
  have ok: "len_ok n" using assms(1) by (simp add: len_ok_def)
  have "o_at_end out 3" using assms(2,3) by (simp add: o_at_end_def)
  then have "o_at_end out (length (enc_len n))" by (rule o_at_end_mono) simp
  from o_list_length_at [OF ok this] assms(4)
  have out': "out' = o_put (enc_len n) out" and r: "r = Inr ()" by auto
  have "i_at inp (enc_len n @ rest)"
    using assms(2,6,7,8) by (simp add: i_at_def out')
  from i_list_length_at [OF ok this] assms(5,8) r show ?thesis
    by (simp add: out' i_skip_def)
qed

theorem list_length_roundtrip_witness:
  "i_list_length \<lparr>i_buf = [7, 0x81, 172, 9], i_pos = 1, i_begin = 0, i_length = 5\<rparr>
     = (Inr 300, \<lparr>i_buf = [7, 0x81, 172, 9], i_pos = 3, i_begin = 0, i_length = 5\<rparr>)"
proof -
  let ?o = "\<lparr>o_buf = [7], o_pos = 1, o_begin = 0\<rparr>"
  let ?o' = "\<lparr>o_buf = [7, 0x81, 172], o_pos = 3, o_begin = 0\<rparr>"
  have "o_list_length (of_nat 300) ?o = (Inr (), ?o')"
    by (subst o_list_length_enc) (simp_all add: len_ok_def enc_len_def o_write_def byte_at_def)
  then show ?thesis
    using list_length_roundtrip [of 300 ?o "Inr ()" ?o' "[9]"
        "\<lparr>i_buf = [7, 0x81, 172, 9], i_pos = 1, i_begin = 0, i_length = 5\<rparr>"]
    by simp
qed

lemma length_loop_three:
  "length_loop 0 [a, b, c] 0
     = Some (push_bit 16 (push_bit 8 (ucast a) OR ucast b) OR ucast c)"
  by simp

lemma enc_three_bytes:
  assumes "128 + 2 ^ 16 \<le> n" "n < 128 + 2 ^ 24"
  shows "o_list_length (of_nat n) = o_write [0x83, byte_at 16 (of_nat (n - 128) :: u32),
    byte_at 8 (of_nat (n - 128) :: u32), byte_at 0 (of_nat (n - 128) :: u32)]"
proof -
  obtain m where n: "n = m + 128" using assms(1) by (intro that [of "n - 128"]) simp
  have "\<not> (of_nat n :: u32) \<le> 128" using assms
    by (simp add: word_le_nat_alt u32_of_nat_less)
  moreover have "(of_nat n - 128 :: u32) = of_nat m" by (simp add: n)
  moreover have "2 ^ 16 \<le> unat (of_nat m :: u32)" "unat (of_nat m :: u32) < 2 ^ 24"
    using assms n by (simp_all add: u32_of_nat_less)
  ultimately show ?thesis using n
    by (simp add: o_list_length_def Let_def length_bytes_cases upt_rec del: of_nat_add)
qed

lemma three_bytes_garbled:
  assumes "2 ^ 16 \<le> unat w" "unat w < 2 ^ 24"
  shows "push_bit 16 (push_bit 8 (ucast (byte_at 16 w)) OR ucast (byte_at 8 w))
    OR ucast (byte_at 0 w) \<noteq> (w :: u32)" (is "?g \<noteq> _")
proof
  assume eq: "?g = w"
  have hi: "drop_bit 16 w \<noteq> 0" using assms(1) by (simp add: drop_bit_eq_0_iff)
  then have "\<exists>k. bit (drop_bit 16 w) k" using bit_eq_iff [of "drop_bit 16 w" 0] by auto
  then obtain k where k: "bit w (16 + k)" by (auto simp: bit_drop_bit_eq)
  then have "k < 8" using bit_small [OF assms(2)] by fastforce
  with k have "bit ?g (24 + k)"
    by (simp add: bit_or_iff bit_push_bit_iff bit_ucast_iff byte_at_def bit_drop_bit_eq)
  with eq have "24 + k < 24" using bit_small [OF assms(2)] by metis
  then show False by simp
qed

text \<open>
  C34: From \<open>128 + 2 ^ 16\<close> on, where the length takes three bytes, the reader returns a
  different length than the one written: it shifts by \<open>i * 8\<close> instead of by 8.
\<close>

theorem list_length_three_bytes_garbled:
  assumes "128 + 2 ^ 16 \<le> n" "n < 128 + 2 ^ 24"
    "o_list_length (of_nat n) \<lparr>o_buf = [], o_pos = 0, o_begin = 0\<rparr> = (r, out')" "rest \<noteq> []"
    "length rest < 2 ^ 31"
  shows "r = Inr () \<and> (\<exists>k ar'. i_list_length
    \<lparr>i_buf = o_buf out' @ rest, i_pos = 0, i_begin = 0, i_length = len\<rparr> = (Inr k, ar') \<and> k \<noteq> n)"
proof -
  obtain m where n: "n = m + 128" using assms(1) by (intro that [of "n - 128"]) simp
  let ?m = "of_nat m :: u32"
  let ?g = "push_bit 16 (push_bit 8 (ucast (byte_at 16 ?m)) OR ucast (byte_at 8 ?m))
    OR ucast (byte_at 0 ?m) :: u32"
  have ne: "?g \<noteq> ?m" using assms(1,2) n by (intro three_bytes_garbled) (simp_all add: u32_of_nat_less)
  have "unat (?g + 128) \<noteq> n"
  proof
    assume "unat (?g + 128) = n"
    then have "unat (?g + 128) = unat (of_nat n :: u32)" using assms(2) by (simp add: u32_of_nat_less)
    then have "?g + 128 = of_nat n" by (rule word_eq_iff_unsigned [THEN iffD2])
    then have "?g + 128 = of_nat (m + 128)" by (simp only: n)
    then show False using ne by simp
  qed
  then show ?thesis
    using assms(3-5) n unfolding enc_three_bytes [OF assms(1,2)]
    by (auto simp: o_write_def i_list_length_def Let_def word_less_nat_alt length_loop_three
        simp del: length_loop.simps of_nat_add)
qed

theorem list_length_three_bytes_garbled_witness:
  "\<exists>k ar'. i_list_length
     \<lparr>i_buf = [0x83, 1, 0, 0, 5], i_pos = 0, i_begin = 0, i_length = 5\<rparr> = (Inr k, ar') \<and> k \<noteq> 65664"
proof -
  have "o_list_length (of_nat 65664) \<lparr>o_buf = [], o_pos = 0, o_begin = 0\<rparr>
      = (Inr (), \<lparr>o_buf = [0x83, 1, 0, 0], o_pos = 4, o_begin = 0\<rparr>)"
    by (subst enc_three_bytes) (simp_all add: o_write_def byte_at_def)
  from list_length_three_bytes_garbled [OF _ _ this, of "[5]" 5] show ?thesis by simp
qed

text \<open>
  C35: Reading a string or byte vector whose length field takes more than one byte and whose
  last byte is missing reads outside the buffer: the bound check uses the position before
  the length field.
\<close>

theorem bytes_over_read:
  assumes "128 < n" "n < 128 + 2 ^ 16" "length bs = n - 1"
    "i_buf ar = pre @ enc_len n @ bs" "i_pos ar = length pre" "length (i_buf ar) < 2 ^ 32"
  shows "fst (i_bytes ar) = Inl undefined_behaviour"
proof -
  have ok: "len_ok n" using assms(2) by (simp add: len_ok_def)
  have at: "i_at ar (enc_len n @ bs)" using assms by (simp add: i_at_def)
  have "bs \<noteq> []" using assms(1,3) by auto
  then have l: "i_list_length ar = (Inr n, i_skip (length (enc_len n)) ar)"
    using i_list_length_at [OF ok at] by simp
  have len: "2 \<le> length (enc_len n)" using assms(1) by (simp add: enc_len_def Let_def)
  have sz: "length (i_buf ar) = i_pos ar + length (enc_len n) + (n - 1)"
      "i_pos ar + length (enc_len n) + (n - 1) < 4294967296"
    using i_at_length [OF at] i_at_bound [OF at] assms(3) by (simp_all add: add.assoc)
  then have "uadd (i_pos ar) n = i_pos ar + n" using len by (intro uadd_small) linarith
  then show ?thesis using sz len assms(1)
    by (simp add: i_bytes_def Let_def l)
qed

theorem bytes_over_read_witness:
  "fst (i_bytes \<lparr>i_buf = [0x81, 1] @ replicate 128 7, i_pos = 0, i_begin = 0, i_length = 130\<rparr>)
     = Inl undefined_behaviour"
  using bytes_over_read [of 129 "replicate 128 7"
      "\<lparr>i_buf = [0x81, 1] @ replicate 128 7, i_pos = 0, i_begin = 0, i_length = 130\<rparr>" "[]"]
  by (simp add: enc_len_def byte_at_def)

definition in_bounds :: "iarchive \<Rightarrow> bool" where
  "in_bounds ar \<longleftrightarrow> i_pos ar \<le> length (i_buf ar) \<and> length (i_buf ar) + 128 < 2 ^ 32"

lemma i_take_in_bounds:
  "in_bounds ar \<Longrightarrow> n \<le> 128 \<Longrightarrow> i_take n ar =
     (if length (i_buf ar) < i_pos ar + n then (Inl iarchive_eof_error, ar)
      else (Inr (take n (drop (i_pos ar) (i_buf ar))), ar\<lparr>i_pos := i_pos ar + n\<rparr>))"
  by (simp add: in_bounds_def i_take_def)

lemma length_loop_Some: "i + length bs \<le> 4 \<Longrightarrow> \<exists>w. length_loop i bs len = Some w"
  by (induction i bs len rule: length_loop.induct) auto

lemma unat_eqI: "unat v = unat w \<Longrightarrow> v = w" for v :: "'a::len word"
  by (rule word_eq_iff_unsigned [THEN iffD2])

lemma u8_129_to_132:
  assumes "128 < w" "w \<le> 0x84"
  shows "w \<in> {0x81, 0x82, 0x83, 0x84 :: u8}"
proof -
  have "unat w = unat (0x81 :: u8) \<or> unat w = unat (0x82 :: u8)
      \<or> unat w = unat (0x83 :: u8) \<or> unat w = unat (0x84 :: u8)"
    using assms by (simp add: word_less_nat_alt word_le_nat_alt) linarith
  then show ?thesis using unat_eqI [of w] by blast
qed

text \<open>A length field that announces more than four length bytes.\<close>

lemma length_loop_None: "4 < i + length bs \<Longrightarrow> i \<le> 4 \<Longrightarrow> length_loop i bs len = None"
  by (induction i bs len rule: length_loop.induct) auto

lemma list_length_long:
  assumes "in_bounds ar" "i_pos ar < length (i_buf ar)" "0x84 < i_buf ar ! i_pos ar"
  shows "i_list_length ar = (Inl (if length (i_buf ar) \<le> i_pos ar + 1 + unat (i_buf ar ! i_pos ar AND 0x7F)
    then iarchive_eof_error else undefined_behaviour), ar)"
proof -
  let ?n = "i_buf ar ! i_pos ar"
  let ?k = "unat (?n AND 0x7F)"
  have b: "length (i_buf ar) + 128 < 4294967296" using assms(1) by (simp add: in_bounds_def)
  have k: "?k < 128" using word_and_le1 [of ?n "0x7F"] by (simp add: word_le_nat_alt)
  have "?n AND 0x7F = take_bit 7 ?n" by (simp add: take_bit_eq_mask mask_eq_exp_minus_1)
  then have mod: "?k = unat ?n mod 128" by (simp add: take_bit_eq_mod unat_mod_distrib)
  have n: "132 < unat ?n" "unat ?n < 256" using assms(3) unsigned_less [of ?n] by (simp_all add: word_less_nat_alt)
  then have "unat ?n mod 128 = unat ?n - 128" by (simp add: mod_if)
  with mod n have "4 < ?k" by linarith
  then have "length_loop 0 (take ?k (drop (Suc (i_pos ar)) (i_buf ar))) 0 = None"
    if "i_pos ar + 1 + ?k < length (i_buf ar)"
    using that by (intro length_loop_None) auto
  moreover have "128 < ?n" using assms(3) by (simp add: word_less_nat_alt)
  ultimately show ?thesis using assms(2) b k by (auto simp: i_list_length_def Let_def not_le)
qed

text \<open>
  C26: Reads stay inside the buffer. With the position inside a buffer of fewer than
  \<open>2 ^ 32 - 128\<close> bytes, the 64, 32 and 16-bit and byte reads either return a value and advance
  by their width within the buffer, or throw \<open>iarchive_eof_error\<close> and change nothing. So does the
  list length as long as the number of length bytes it announces is at most four; with more it
  never returns a length: it throws the same exception when the buffer ends before them, and
  otherwise shifts an integer by its own width, which is undefined. At the end of the buffer it
  throws too.
\<close>

theorem reads_in_bounds:
  assumes "in_bounds ar"
  shows "(\<exists>v. i_uint64 ar = (if length (i_buf ar) < i_pos ar + 8 then (Inl iarchive_eof_error, ar)
             else (Inr v, ar\<lparr>i_pos := i_pos ar + 8\<rparr>)))
      \<and> (\<exists>v. i_uint32 ar = (if length (i_buf ar) < i_pos ar + 4 then (Inl iarchive_eof_error, ar)
             else (Inr v, ar\<lparr>i_pos := i_pos ar + 4\<rparr>)))
      \<and> (\<exists>v. i_uint16 ar = (if length (i_buf ar) < i_pos ar + 2 then (Inl iarchive_eof_error, ar)
             else (Inr v, ar\<lparr>i_pos := i_pos ar + 2\<rparr>)))
      \<and> i_uint8 ar = (if length (i_buf ar) < i_pos ar + 1 then (Inl iarchive_eof_error, ar)
             else (Inr (i_buf ar ! i_pos ar), ar\<lparr>i_pos := i_pos ar + 1\<rparr>))
      \<and> (i_pos ar < length (i_buf ar) \<longrightarrow> i_buf ar ! i_pos ar \<le> 0x84 \<longrightarrow>
           i_list_length ar = (Inl iarchive_eof_error, ar)
           \<or> (\<exists>n p. i_list_length ar = (Inr n, ar\<lparr>i_pos := p\<rparr>)
                \<and> i_pos ar < p \<and> p \<le> length (i_buf ar)))
      \<and> (i_pos ar < length (i_buf ar) \<longrightarrow> 0x84 < i_buf ar ! i_pos ar \<longrightarrow>
           i_list_length ar = (Inl (if length (i_buf ar) \<le> i_pos ar + 1 + unat (i_buf ar ! i_pos ar AND 0x7F)
             then iarchive_eof_error else undefined_behaviour), ar))
      \<and> (i_pos ar = length (i_buf ar) \<longrightarrow> i_list_length ar = (Inl iarchive_eof_error, ar))"
proof -
  have len: "i_list_length ar = (Inl iarchive_eof_error, ar)
      \<or> (\<exists>n p. i_list_length ar = (Inr n, ar\<lparr>i_pos := p\<rparr>) \<and> i_pos ar < p \<and> p \<le> length (i_buf ar))"
    if c: "i_pos ar < length (i_buf ar)" "i_buf ar ! i_pos ar \<le> 0x84"
  proof -
    let ?k = "unat (i_buf ar ! i_pos ar AND 0x7F)"
    have b: "length (i_buf ar) + 128 < 4294967296" using assms by (simp add: in_bounds_def)
    have k: "?k < 128" using word_and_le1 [of "i_buf ar ! i_pos ar" "0x7F"]
      by (simp add: word_le_nat_alt)
    show ?thesis
    proof (cases "128 < i_buf ar ! i_pos ar")
      case True
      have "i_buf ar ! i_pos ar \<in> {0x81, 0x82, 0x83, 0x84}"
        using True c(2) by (rule u8_129_to_132)
      then have "?k \<le> 4" by auto
      then obtain w where w: "length_loop 0 (take ?k (drop (Suc (i_pos ar)) (i_buf ar))) 0 = Some w"
        using length_loop_Some [of 0 "take ?k (drop (Suc (i_pos ar)) (i_buf ar))" 0]
        by (auto simp: min.coboundedI2)
      let ?p = "Suc (i_pos ar + ?k)"
      have "i_list_length ar = (if length (i_buf ar) \<le> ?p then (Inl iarchive_eof_error, ar)
          else (Inr (unat (w + 128)), ar\<lparr>i_pos := ?p\<rparr>))"
        using True c b k w by (simp add: i_list_length_def Let_def)
      moreover have "i_pos ar < ?p" by simp
      ultimately show ?thesis by (metis nat_le_linear)
    next
      case False
      then show ?thesis using c b by (auto simp: i_list_length_def Let_def)
    qed
  qed
  have end_of: "i_list_length ar = (Inl iarchive_eof_error, ar)" if "i_pos ar = length (i_buf ar)"
    using that by (simp add: i_list_length_def Let_def)
  show ?thesis using len list_length_long [OF assms] end_of
    by (simp add: i_uint64_def i_uint32_def i_uint16_def i_uint8_def i_take_in_bounds [OF assms]
        bnd_def)
qed

theorem reads_in_bounds_witness:
  "i_uint8 \<lparr>i_buf = [1, 0x81, 3, 4], i_pos = 1, i_begin = 0, i_length = 4\<rparr>
     = (Inr 0x81, \<lparr>i_buf = [1, 0x81, 3, 4], i_pos = 2, i_begin = 0, i_length = 4\<rparr>)
   \<and> (\<exists>p. snd (i_list_length \<lparr>i_buf = [1, 0x81, 3, 4], i_pos = 1, i_begin = 0, i_length = 4\<rparr>)
        = \<lparr>i_buf = [1, 0x81, 3, 4], i_pos = p, i_begin = 0, i_length = 4\<rparr> \<and> p \<le> 4)
   \<and> i_list_length \<lparr>i_buf = [0x85, 0, 0, 0, 0, 0, 7], i_pos = 0, i_begin = 0, i_length = 7\<rparr>
     = (Inl undefined_behaviour, \<lparr>i_buf = [0x85, 0, 0, 0, 0, 0, 7], i_pos = 0, i_begin = 0, i_length = 7\<rparr>)"
  using reads_in_bounds [of "\<lparr>i_buf = [1, 0x81, 3, 4], i_pos = 1, i_begin = 0, i_length = 4\<rparr>"]
    reads_in_bounds [of "\<lparr>i_buf = [0x85, 0, 0, 0, 0, 0, 7], i_pos = 0, i_begin = 0, i_length = 7\<rparr>"]
  by (auto simp: in_bounds_def)

end
