(* ===== verification/Mih_Codec.thy ===== *)
theory Mih_Codec
  imports Mih_Archive
begin

text \<open>
  Serialization of composite values, \<open>inc/odtone/mih/detail/archive.hpp\<close>. A \<open>codec\<close> holds
  the two \<open>serialize\<close> operators the C++ templates instantiate for a type, its default value,
  and the specification of its wire format: the values that can be represented and their
  bytes. The locale \<open>codec_law\<close> is the contract between the two; each template has one rule
  that derives the contract of the composite from those of its parts.
\<close>

section \<open>Codecs\<close>

text \<open>
  \<open>put\<close> and \<open>get\<close> are the code; \<open>get c v\<close> reads into a variable that holds \<open>v\<close>, which the
  templates for variants may leave unchanged. \<open>wf\<close> and \<open>enc\<close> are the specification.
\<close>

record 'a codec =
  put :: "'a \<Rightarrow> (oarchive, unit) eff"
  get :: "'a \<Rightarrow> (iarchive, 'a) eff"
  dflt :: "'a"
  wf :: "'a \<Rightarrow> bool"
  enc :: "'a \<Rightarrow> u8 list"

definition bool_codec :: "bool codec" where
  "bool_codec = \<lparr>put = o_bool, get = \<lambda>_. i_bool, dflt = False, wf = \<lambda>_. True, enc = enc_bool\<rparr>"

definition u8_codec :: "u8 codec" where
  "u8_codec = \<lparr>put = o_uint8, get = \<lambda>_. i_uint8, dflt = 0, wf = \<lambda>_. True, enc = enc8\<rparr>"

definition u16_codec :: "u16 codec" where
  "u16_codec = \<lparr>put = o_uint16, get = \<lambda>_. i_uint16, dflt = 0, wf = \<lambda>_. True, enc = enc16\<rparr>"

definition u32_codec :: "u32 codec" where
  "u32_codec = \<lparr>put = o_uint32, get = \<lambda>_. i_uint32, dflt = 0, wf = \<lambda>_. True, enc = enc32\<rparr>"

definition u64_codec :: "u64 codec" where
  "u64_codec = \<lparr>put = o_uint64, get = \<lambda>_. i_uint64, dflt = 0, wf = \<lambda>_. True, enc = enc64\<rparr>"

definition s8_codec :: "8 word codec" where
  "s8_codec = \<lparr>put = o_sint8, get = \<lambda>_. i_sint8, dflt = 0, wf = \<lambda>_. True, enc = enc8\<rparr>"

definition octet_string_codec :: "octet_string codec" where
  "octet_string_codec = \<lparr>put = o_octet_string, get = \<lambda>_. i_octet_string, dflt = [],
     wf = \<lambda>s. len_ok (length s), enc = \<lambda>s. enc_bytes (bytes_of s)\<rparr>"

definition bytes_codec :: "u8 list codec" where
  "bytes_codec = \<lparr>put = o_bytes, get = \<lambda>_. i_bytes, dflt = [],
     wf = \<lambda>bs. len_ok (length bs), enc = enc_bytes\<rparr>"

text \<open>\<open>mih::null\<close> serializes to nothing.\<close>

definition null_codec :: "unit codec" where
  "null_codec = \<lparr>put = \<lambda>_. ret (), get = ret, dflt = (), wf = \<lambda>_. True, enc = \<lambda>_. []\<rparr>"

text \<open>
  \<open>ar & a; ar & b;\<close> in the \<open>serialize\<close> member of a class. \<open>struct_codec\<close> views the members of
  a class as nested pairs.
\<close>

definition pair_codec :: "'a codec \<Rightarrow> 'b codec \<Rightarrow> ('a \<times> 'b) codec" where
  "pair_codec c d = \<lparr>
     put = \<lambda>(a, b). seq (put c a) (put d b),
     get = \<lambda>(a, b). bnd (get c a) (\<lambda>a'. bnd (get d b) (\<lambda>b'. ret (a', b'))),
     dflt = (dflt c, dflt d),
     wf = \<lambda>(a, b). wf c a \<and> wf d b,
     enc = \<lambda>(a, b). enc c a @ enc d b\<rparr>"

definition struct_codec :: "('s \<Rightarrow> 'm) \<Rightarrow> ('m \<Rightarrow> 's) \<Rightarrow> 'm codec \<Rightarrow> 's codec" where
  "struct_codec members build c = \<lparr>
     put = \<lambda>s. put c (members s),
     get = \<lambda>s. bnd (get c (members s)) (\<lambda>m. ret (build m)),
     dflt = build (dflt c),
     wf = \<lambda>s. wf c (members s),
     enc = \<lambda>s. enc c (members s)\<rparr>"

fun put_list :: "'a codec \<Rightarrow> 'a list \<Rightarrow> (oarchive, unit) eff" where
  "put_list c [] = ret ()"
| "put_list c (x # xs) = seq (put c x) (put_list c xs)"

fun get_list :: "'a codec \<Rightarrow> 'a list \<Rightarrow> (iarchive, 'a list) eff" where
  "get_list c [] = ret []"
| "get_list c (x # xs) = bnd (get c x) (\<lambda>y. bnd (get_list c xs) (\<lambda>ys. ret (y # ys)))"

definition vec_resize :: "nat \<Rightarrow> 'a \<Rightarrow> 'a list \<Rightarrow> 'a list" where
  "vec_resize n d xs = take n xs @ replicate (n - length xs) d"

definition vector_get :: "'a codec \<Rightarrow> 'a list \<Rightarrow> (iarchive, 'a list) eff" where
  "vector_get c v ar =
     (let pos = i_position ar in
      bnd i_list_length (\<lambda>len.
        on_throw (get_list c (vec_resize len (dflt c) v)) (i_set_position pos)) ar)"

definition vector_put :: "'a codec \<Rightarrow> 'a list \<Rightarrow> (oarchive, unit) eff" where
  "vector_put c v ar =
     (if 2 ^ 32 \<le> length v then (Inl bad_truncate_cast, ar)
      else let pos = o_position ar in
        seq (o_list_length (of_nat (length v)))
          (on_throw (put_list c v) (o_set_position pos)) ar)"

definition vector_codec :: "'a codec \<Rightarrow> 'a list codec" where
  "vector_codec c = \<lparr>put = vector_put c, get = vector_get c, dflt = [],
     wf = \<lambda>xs. len_ok (length xs) \<and> list_all (wf c) xs,
     enc = \<lambda>xs. enc_len (length xs) @ concat (map (enc c) xs)\<rparr>"

text \<open>
  An array member of \<open>n\<close> elements, all of which are overwritten by a read.
\<close>

definition array_codec :: "nat \<Rightarrow> 'a codec \<Rightarrow> 'a list codec" where
  "array_codec n c = \<lparr>put = put_list c, get = \<lambda>_. get_list c (replicate n (dflt c)),
     dflt = replicate n (dflt c),
     wf = \<lambda>xs. length xs = n \<and> list_all (wf c) xs,
     enc = \<lambda>xs. concat (map (enc c) xs)\<rparr>"

text \<open>
  \<open>boost::variant<T1, ..., TN>\<close>: the selector octet, then the alternative it names. A
  selector that names none leaves the variable as it was. An alternative is the codec of
  \<open>Ti\<close> embedded in the type of the variant, with the test for it; reading assigns \<open>Ti()\<close>
  first. \<open>which\<close> is the index of the alternative a value holds.
\<close>

definition alt :: "('v \<Rightarrow> bool) \<Rightarrow> ('v \<Rightarrow> 'a) \<Rightarrow> ('a \<Rightarrow> 'v) \<Rightarrow> 'a codec \<Rightarrow> ('v \<Rightarrow> bool) \<times> 'v codec" where
  "alt is prj wrap c = (is, \<lparr>
     put = \<lambda>v. put c (prj v),
     get = \<lambda>_. bnd (get c (dflt c)) (\<lambda>x. ret (wrap x)),
     dflt = wrap (dflt c),
     wf = \<lambda>v. is v \<and> wf c (prj v),
     enc = \<lambda>v. enc c (prj v)\<rparr>)"

fun variant_which :: "(('v \<Rightarrow> bool) \<times> 'v codec) list \<Rightarrow> 'v \<Rightarrow> nat" where
  "variant_which [] v = 0"
| "variant_which (a # alts) v = (if fst a v then 0 else Suc (variant_which alts v))"

definition variant_get :: "(('v \<Rightarrow> bool) \<times> 'v codec) list \<Rightarrow> 'v \<Rightarrow> (iarchive, 'v) eff" where
  "variant_get alts v = bnd i_uint8 (\<lambda>selector.
     if unat selector < length alts then get (snd (alts ! unat selector)) v else ret v)"

definition variant_put :: "(('v \<Rightarrow> bool) \<times> 'v codec) list \<Rightarrow> 'v \<Rightarrow> (oarchive, unit) eff" where
  "variant_put alts v =
     (let selector = variant_which alts v in
      seq (o_uint8 (of_nat selector))
        (if selector < length alts then put (snd (alts ! selector)) v else ret ()))"

definition variant_codec :: "(('v \<Rightarrow> bool) \<times> 'v codec) list \<Rightarrow> 'v codec" where
  "variant_codec alts = \<lparr>put = variant_put alts, get = variant_get alts, dflt = dflt (snd (hd alts)),
     wf = \<lambda>v. variant_which alts v < length alts \<and> wf (snd (alts ! variant_which alts v)) v,
     enc = \<lambda>v. of_nat (variant_which alts v) # enc (snd (alts ! variant_which alts v)) v\<rparr>"

text \<open>\<open>boost::variant<null, T>\<close>, an optional member.\<close>

definition opt_codec :: "'a codec \<Rightarrow> 'a option codec" where
  "opt_codec c = variant_codec
     [alt (\<lambda>v. v = None) (\<lambda>_. ()) (\<lambda>_. None) null_codec, alt (\<lambda>v. v \<noteq> None) the Some c]"

section \<open>The contract of a codec\<close>

text \<open>
  Writing at the end of a buffer appends \<open>enc c x\<close>; reading at \<open>enc c x\<close> returns \<open>x\<close>, whatever
  the variable held before, and stops right behind. \<open>codec_law1\<close> adds that the encoding is
  not empty, which the elements of a vector need.
\<close>

locale codec_law =
  fixes c :: "'a codec"
  assumes put_at: "wf c x \<Longrightarrow> o_at_end oar (length (enc c x))
      \<Longrightarrow> put c x oar = (Inr (), o_put (enc c x) oar)"
    and get_at: "wf c x \<Longrightarrow> i_at iar (enc c x @ rest)
      \<Longrightarrow> get c v iar = (Inr x, i_skip (length (enc c x)) iar)"
begin

lemma written_is_read:
  assumes "wf c x" "length (pre @ enc c x @ rest) < 2 ^ 32"
  shows "\<exists>out. put c x \<lparr>o_buf = pre, o_pos = length pre, o_begin = b\<rparr> = (Inr (), out)
    \<and> get c v \<lparr>i_buf = o_buf out @ rest, i_pos = length pre, i_begin = b', i_length = l\<rparr>
        = (Inr x, \<lparr>i_buf = o_buf out @ rest, i_pos = o_pos out, i_begin = b', i_length = l\<rparr>)"
proof -
  let ?o = "\<lparr>o_buf = pre, o_pos = length pre, o_begin = b\<rparr>"
  let ?i = "\<lparr>i_buf = o_buf (o_put (enc c x) ?o) @ rest, i_pos = length pre, i_begin = b', i_length = l\<rparr>"
  have "put c x ?o = (Inr (), o_put (enc c x) ?o)"
    using assms by (intro put_at) (auto simp: o_at_end_def)
  moreover have "get c v ?i = (Inr x, i_skip (length (enc c x)) ?i)"
    using assms by (intro get_at) (auto simp: i_at_def)
  ultimately show ?thesis by (simp add: i_skip_def)
qed

lemma enc_injective:
  assumes "wf c x" "wf c y" "enc c x = enc c y" "length (enc c x) < 2 ^ 32"
  shows "x = y"
proof -
  let ?i = "\<lparr>i_buf = enc c x, i_pos = 0, i_begin = 0, i_length = 0\<rparr>"
  have "i_at ?i (enc c x @ [])" using assms(4) by (simp add: i_at_def)
  then show ?thesis using get_at [of x ?i "[]" x] get_at [of y ?i "[]" x] assms by simp
qed

end

locale codec_law1 = codec_law +
  assumes nonempty: "wf c x \<Longrightarrow> enc c x \<noteq> []"

section \<open>Rules for the templates\<close>

lemma bool_law1 [codec_intros]: "codec_law1 bool_codec"
  by unfold_locales (auto simp: bool_codec_def o_ints_at dest: i_bool_at)

lemma u8_law1 [codec_intros]: "codec_law1 u8_codec"
  by unfold_locales (auto simp: u8_codec_def o_ints_at dest: i_uint8_at)

lemma u16_law1 [codec_intros]: "codec_law1 u16_codec"
  by unfold_locales (auto simp: u16_codec_def o_ints_at dest: i_uint16_at)

lemma u32_law1 [codec_intros]: "codec_law1 u32_codec"
  by unfold_locales (auto simp: u32_codec_def o_ints_at dest: i_uint32_at)

lemma u64_law1 [codec_intros]: "codec_law1 u64_codec"
  by unfold_locales (auto simp: u64_codec_def o_ints_at dest: i_uint64_at)

lemma s8_law1 [codec_intros]: "codec_law1 s8_codec"
  by unfold_locales (auto simp: s8_codec_def o_sint_at dest: i_sint_at)

lemma octet_string_law1 [codec_intros]: "codec_law1 octet_string_codec"
  by unfold_locales
    (simp_all add: octet_string_codec_def o_octet_string_def o_bytes_at i_octet_string_at)

lemma bytes_law1 [codec_intros]: "codec_law1 bytes_codec"
  by unfold_locales (simp_all add: bytes_codec_def o_bytes_at i_bytes_at)

lemma null_law [codec_intros]: "codec_law null_codec"
  by unfold_locales (simp_all add: null_codec_def)

lemmas basic_laws [codec_intros] =
  bool_law1 [THEN codec_law1.axioms(1)] u8_law1 [THEN codec_law1.axioms(1)]
  u16_law1 [THEN codec_law1.axioms(1)] u32_law1 [THEN codec_law1.axioms(1)]
  u64_law1 [THEN codec_law1.axioms(1)] s8_law1 [THEN codec_law1.axioms(1)]
  octet_string_law1 [THEN codec_law1.axioms(1)] bytes_law1 [THEN codec_law1.axioms(1)]

lemma codec_law1I: "codec_law c \<Longrightarrow> (\<And>x. wf c x \<Longrightarrow> enc c x \<noteq> []) \<Longrightarrow> codec_law1 c"
  by (intro codec_law1.intro codec_law1_axioms.intro)

lemma pair_law [codec_intros]:
  fixes c :: "'a codec" and d :: "'b codec"
  assumes "codec_law c" "codec_law d"
  shows "codec_law (pair_codec c d)"
proof
  fix x oar
  assume ok: "wf (pair_codec c d) x" and at: "o_at_end oar (length (enc (pair_codec c d) x))"
  obtain a b where x: "x = (a, b)" by (cases x)
  have "put c a oar = (Inr (), o_put (enc c a) oar)" using ok at x
    by (intro codec_law.put_at [OF assms(1)]) (auto simp: pair_codec_def elim: o_at_end_mono)
  moreover have "put d b (o_put (enc c a) oar) = (Inr (), o_put (enc d b) (o_put (enc c a) oar))"
    using ok at x
    by (intro codec_law.put_at [OF assms(2)]) (auto simp: pair_codec_def elim: o_at_end_put)
  ultimately show "put (pair_codec c d) x oar = (Inr (), o_put (enc (pair_codec c d) x) oar)"
    by (simp add: pair_codec_def x)
next
  fix x v :: "'a \<times> 'b" and iar rest
  assume ok: "wf (pair_codec c d) x" and at: "i_at iar (enc (pair_codec c d) x @ rest)"
  obtain a b where x: "x = (a, b)" by (cases x)
  obtain va vb where v: "v = (va, vb)" by (cases v)
  have at': "i_at iar (enc c a @ enc d b @ rest)" using at x by (simp add: pair_codec_def)
  have "get c va iar = (Inr a, i_skip (length (enc c a)) iar)"
    using ok x at' by (intro codec_law.get_at [OF assms(1)]) (auto simp: pair_codec_def)
  moreover have "get d vb (i_skip (length (enc c a)) iar)
      = (Inr b, i_skip (length (enc d b)) (i_skip (length (enc c a)) iar))"
    using ok x at' by (intro codec_law.get_at [OF assms(2)]) (auto simp: pair_codec_def)
  ultimately show "get (pair_codec c d) v iar = (Inr x, i_skip (length (enc (pair_codec c d) x)) iar)"
    by (simp add: pair_codec_def x v)
qed

lemma pair_law1 [codec_intros]: "codec_law1 c \<Longrightarrow> codec_law d \<Longrightarrow> codec_law1 (pair_codec c d)"
  by (rule codec_law1I, rule pair_law)
    (auto simp: pair_codec_def codec_law1.axioms(1) dest: codec_law1.nonempty)

lemma struct_law [codec_intros]:
  assumes "codec_law c" "\<And>s. build (members s) = s"
  shows "codec_law (struct_codec members build c)"
  using assms(2)
  by unfold_locales
    (simp_all add: struct_codec_def codec_law.put_at [OF assms(1)] codec_law.get_at [OF assms(1)])

lemma struct_law1 [codec_intros]:
  "codec_law1 c \<Longrightarrow> (\<And>s. build (members s) = s) \<Longrightarrow> codec_law1 (struct_codec members build c)"
  by (rule codec_law1I, rule struct_law)
    (auto simp: struct_codec_def codec_law1.axioms(1) dest: codec_law1.nonempty)

lemma put_list_at:
  assumes "codec_law c"
  shows "list_all (wf c) xs \<Longrightarrow> o_at_end oar (length (concat (map (enc c) xs)))
    \<Longrightarrow> put_list c xs oar = (Inr (), o_put (concat (map (enc c) xs)) oar)"
proof (induction xs arbitrary: oar)
  case (Cons x xs)
  have "put c x oar = (Inr (), o_put (enc c x) oar)"
    using Cons.prems by (intro codec_law.put_at [OF assms]) (auto elim: o_at_end_mono)
  moreover have "put_list c xs (o_put (enc c x) oar)
      = (Inr (), o_put (concat (map (enc c) xs)) (o_put (enc c x) oar))"
    using Cons.prems by (intro Cons.IH) (auto elim: o_at_end_put)
  ultimately show ?case by simp
qed simp

lemma get_list_at:
  assumes "codec_law c"
  shows "list_all (wf c) xs \<Longrightarrow> length vs = length xs \<Longrightarrow> i_at iar (concat (map (enc c) xs) @ rest)
    \<Longrightarrow> get_list c vs iar = (Inr xs, i_skip (length (concat (map (enc c) xs))) iar)"
proof (induction xs arbitrary: vs iar)
  case (Cons x xs)
  obtain v vs' where vs: "vs = v # vs'" using Cons.prems(2) by (cases vs) auto
  have at: "i_at iar (enc c x @ concat (map (enc c) xs) @ rest)" using Cons.prems(3) by simp
  have "get c v iar = (Inr x, i_skip (length (enc c x)) iar)"
    using Cons.prems(1) at by (intro codec_law.get_at [OF assms]) auto
  moreover have "get_list c vs' (i_skip (length (enc c x)) iar)
      = (Inr xs, i_skip (length (concat (map (enc c) xs))) (i_skip (length (enc c x)) iar))"
    using Cons.prems vs at by (intro Cons.IH) auto
  ultimately show ?case by (simp add: vs)
qed simp

lemma vector_law1 [codec_intros]:
  assumes "codec_law1 c"
  shows "codec_law1 (vector_codec c)"
proof (rule codec_law1I)
  note law = codec_law1.axioms(1) [OF assms]
  show "codec_law (vector_codec c)"
  proof
    fix xs oar
    let ?l = "enc_len (length xs)" and ?b = "concat (map (enc c) xs)"
    assume "wf (vector_codec c) xs" and at: "o_at_end oar (length (enc (vector_codec c) xs))"
    then have ok: "len_ok (length xs)" "list_all (wf c) xs" by (simp_all add: vector_codec_def)
    have "o_list_length (of_nat (length xs)) oar = (Inr (), o_put ?l oar)"
      using ok at by (intro o_list_length_at) (auto simp: vector_codec_def elim: o_at_end_mono)
    moreover have "put_list c xs (o_put ?l oar) = (Inr (), o_put ?b (o_put ?l oar))"
      using ok at by (intro put_list_at [OF law]) (auto simp: vector_codec_def elim: o_at_end_put)
    moreover have "length xs < 2 ^ 32" using ok by (simp add: len_ok_def)
    ultimately show "put (vector_codec c) xs oar = (Inr (), o_put (enc (vector_codec c) xs) oar)"
      by (simp add: vector_codec_def vector_put_def)
  next
    fix xs vs :: "'a list" and iar rest
    let ?l = "enc_len (length xs)" and ?b = "concat (map (enc c) xs)"
    assume "wf (vector_codec c) xs" and "i_at iar (enc (vector_codec c) xs @ rest)"
    then have ok: "len_ok (length xs)" "list_all (wf c) xs" and at: "i_at iar (?l @ ?b @ rest)"
      by (simp_all add: vector_codec_def)
    have "?b @ rest \<noteq> []" if "128 < length xs"
      using that ok codec_law1.nonempty [OF assms] by (cases xs) auto
    then have "i_list_length iar = (Inr (length xs), i_skip (length ?l) iar)"
      using ok at by (intro i_list_length_at) auto
    moreover have "get_list c (vec_resize (length xs) (dflt c) vs) (i_skip (length ?l) iar)
        = (Inr xs, i_skip (length ?b) (i_skip (length ?l) iar))"
      using ok at by (intro get_list_at [OF law]) (auto simp: vec_resize_def)
    ultimately show "get (vector_codec c) vs iar = (Inr xs, i_skip (length (enc (vector_codec c) xs)) iar)"
      by (simp add: vector_codec_def vector_get_def)
  qed
qed (simp add: vector_codec_def)

lemma array_law [codec_intros]: "codec_law c \<Longrightarrow> codec_law (array_codec n c)"
  by unfold_locales (auto simp: array_codec_def put_list_at get_list_at)

lemma array_law1 [codec_intros]: "codec_law1 c \<Longrightarrow> codec_law1 (array_codec (Suc n) c)"
  by (rule codec_law1I, rule array_law)
    (auto simp: array_codec_def length_Suc_conv codec_law1.axioms(1) dest: codec_law1.nonempty)

lemma alt_law [codec_intros]:
  assumes "codec_law c" "\<And>v. is v \<Longrightarrow> wrap (prj v) = v"
  shows "codec_law (snd (alt is prj wrap c))"
proof
  fix x v iar rest oar
  assume ok: "wf (snd (alt is prj wrap c)) x"
  show "put (snd (alt is prj wrap c)) x oar = (Inr (), o_put (enc (snd (alt is prj wrap c)) x) oar)"
    if "o_at_end oar (length (enc (snd (alt is prj wrap c)) x))"
    using that ok codec_law.put_at [OF assms(1)] by (simp add: alt_def)
  show "get (snd (alt is prj wrap c)) v iar
      = (Inr x, i_skip (length (enc (snd (alt is prj wrap c)) x)) iar)"
    if "i_at iar (enc (snd (alt is prj wrap c)) x @ rest)"
    using that ok codec_law.get_at [OF assms(1), of "prj x" iar rest "dflt c"] assms(2) [of x]
    by (simp add: alt_def)
qed

lemma alts_law_Nil [codec_intros]: "list_all (\<lambda>a. codec_law (snd a)) []"
  by simp

lemma alts_law_Cons [codec_intros]:
  "codec_law (snd a) \<Longrightarrow> list_all (\<lambda>a. codec_law (snd a)) as \<Longrightarrow> list_all (\<lambda>a. codec_law (snd a)) (a # as)"
  by simp

lemma variant_law1 [codec_intros]:
  assumes "list_all (\<lambda>a. codec_law (snd a)) alts" "length alts \<le> 256"
  shows "codec_law1 (variant_codec alts)"
proof (rule codec_law1I)
  let ?w = "variant_which alts"
  have law: "codec_law (snd (alts ! i))" if "i < length alts" for i
    using assms(1) that by (simp add: list_all_length)
  show "codec_law (variant_codec alts)"
  proof
    fix x oar
    let ?o1 = "o_put (enc8 (of_nat (?w x))) oar"
    assume "wf (variant_codec alts) x" and at: "o_at_end oar (length (enc (variant_codec alts) x))"
    then have ok: "?w x < length alts" "wf (snd (alts ! ?w x)) x" by (simp_all add: variant_codec_def)
    have "o_at_end oar 1" using at by (rule o_at_end_mono) (simp add: variant_codec_def)
    then have "o_uint8 (of_nat (?w x)) oar = (Inr (), ?o1)" by (rule o_ints_at)
    moreover have "put (snd (alts ! ?w x)) x ?o1 = (Inr (), o_put (enc (snd (alts ! ?w x)) x) ?o1)"
      using ok at by (intro codec_law.put_at [OF law]) (auto simp: variant_codec_def elim: o_at_end_put)
    ultimately show "put (variant_codec alts) x oar = (Inr (), o_put (enc (variant_codec alts) x) oar)"
      using ok by (simp add: variant_codec_def variant_put_def enc8_def Let_def)
  next
    fix x v iar rest
    assume "wf (variant_codec alts) x" and "i_at iar (enc (variant_codec alts) x @ rest)"
    then have ok: "?w x < length alts" "wf (snd (alts ! ?w x)) x"
      and at: "i_at iar (enc8 (of_nat (?w x)) @ enc (snd (alts ! ?w x)) x @ rest)"
      by (simp_all add: variant_codec_def enc8_def)
    have w: "unat (of_nat (?w x) :: u8) = ?w x"
      using ok assms(2) by (simp add: unsigned_of_nat take_bit_nat_eq_self)
    have "get (snd (alts ! ?w x)) v (i_skip 1 iar)
        = (Inr x, i_skip (length (enc (snd (alts ! ?w x)) x)) (i_skip 1 iar))"
      using ok i_at_skip [OF at] by (intro codec_law.get_at [OF law]) auto
    then show "get (variant_codec alts) v iar
        = (Inr x, i_skip (length (enc (variant_codec alts) x)) iar)"
      using ok w by (simp add: variant_codec_def variant_get_def i_uint8_at [OF at])
  qed
qed (simp add: variant_codec_def)

lemmas composite_laws [codec_intros] =
  vector_law1 [THEN codec_law1.axioms(1)] variant_law1 [THEN codec_law1.axioms(1)]

lemma opt_law1 [codec_intros]: "codec_law c \<Longrightarrow> codec_law1 (opt_codec c)"
  unfolding opt_codec_def by (intro codec_intros) auto

lemmas opt_law [codec_intros] = opt_law1 [THEN codec_law1.axioms(1)]

end
