(* ===== verification/Mih_Tlv.thy ===== *)
theory Mih_Tlv
  imports Mih_Codec
begin

text \<open>
  The type-length-value layer of \<open>inc/odtone/mih/tlv.hpp\<close>: mandatory, optional and
  vendor-specific TLVs around a value codec.
\<close>

section \<open>Definitions\<close>

text \<open>
  \<open>iarchive in(ar, len); in & val;\<close>: the inner archive shares the buffer and the position,
  and has its own begin and length.
\<close>

definition i_nested :: "nat \<Rightarrow> (iarchive, 'a) eff \<Rightarrow> (iarchive, 'a) eff" where
  "i_nested len m ar = (case m (iarchive_sub len ar) of (r, inn) \<Rightarrow> (r, ar\<lparr>i_pos := i_pos inn\<rparr>))"

text \<open>
  \<open>base_tlv_<ValueT, Value>::serialize\<close>; \<open>None\<close> is the result \<open>false\<close> of the read.
\<close>

definition base_tlv_get :: "'t codec \<Rightarrow> 't \<Rightarrow> 'a codec \<Rightarrow> 'a \<Rightarrow> (iarchive, 'a option) eff" where
  "base_tlv_get tc t c v ar =
     (let pos = i_position ar in
      bnd (get tc (dflt tc)) (\<lambda>tp.
        if tp \<noteq> t then bnd (upd (i_set_position pos)) (\<lambda>_. ret None)
        else on_throw (bnd i_list_length (\<lambda>len. bnd (i_nested len (get c v)) (\<lambda>x. ret (Some x))))
               (i_set_position pos)) ar)"

definition base_tlv_put :: "'t codec \<Rightarrow> 't \<Rightarrow> 'a codec \<Rightarrow> 'a \<Rightarrow> (oarchive, unit) eff" where
  "base_tlv_put tc t c v ar =
     (let pos = o_position ar in
      case put c v (oarchive_of archive_new) of
        (Inl e, _) \<Rightarrow> (Inl e, ar)
      | (Inr _, out) \<Rightarrow> on_throw (seq (put tc t) (o_bytes (o_buf out))) (o_set_position pos) ar)"

definition oui_get :: "u8 \<Rightarrow> u8 \<Rightarrow> u8 \<Rightarrow> 'a codec \<Rightarrow> 'a \<Rightarrow> (iarchive, 'a option) eff" where
  "oui_get a b c cd v ar =
     (let pos = i_position ar; no = bnd (upd (i_set_position pos)) (\<lambda>_. ret None) in
      bnd i_uint8 (\<lambda>tp.
        if tp \<noteq> 100 then no
        else on_throw (bnd i_list_length (\<lambda>len.
               if len < 3 then no
               else bnd i_uint8 (\<lambda>o0. bnd i_uint8 (\<lambda>o1. bnd i_uint8 (\<lambda>o2.
                 if o0 \<noteq> a \<or> o1 \<noteq> b \<or> o2 \<noteq> c then no
                 else bnd (i_nested (len - 3) (get cd v)) (\<lambda>x. ret (Some x)))))))
               (i_set_position pos)) ar)"

definition oui_put :: "u8 \<Rightarrow> u8 \<Rightarrow> u8 \<Rightarrow> 'a codec \<Rightarrow> 'a \<Rightarrow> (oarchive, unit) eff" where
  "oui_put a b c cd v ar =
     (let pos = o_position ar in
      case seq (o_uint8 a) (seq (o_uint8 b) (seq (o_uint8 c) (put cd v))) (oarchive_of archive_new) of
        (Inl e, _) \<Rightarrow> (Inl e, ar)
      | (Inr _, out) \<Rightarrow> on_throw (seq (o_uint8 100) (o_bytes (o_buf out))) (o_set_position pos) ar)"

text \<open>
  The wire format: the type, the length of the value and the value. The length must be one
  the reader understands.
\<close>

definition enc_tlv :: "u8 list \<Rightarrow> 'a codec \<Rightarrow> 'a \<Rightarrow> u8 list" where
  "enc_tlv t c x = t @ enc_bytes (enc c x)"

definition tlv_wf :: "'a codec \<Rightarrow> 'a \<Rightarrow> bool" where
  "tlv_wf c x \<longleftrightarrow> wf c x \<and> len_ok (length (enc c x))"

definition enc_oui :: "u8 \<Rightarrow> u8 \<Rightarrow> u8 \<Rightarrow> 'a codec \<Rightarrow> 'a \<Rightarrow> u8 list" where
  "enc_oui a b c cd x = enc8 100 @ enc_bytes (a # b # c # enc cd x)"

definition oui_wf :: "'a codec \<Rightarrow> 'a \<Rightarrow> bool" where
  "oui_wf cd x \<longleftrightarrow> wf cd x \<and> len_ok (Suc (Suc (Suc (length (enc cd x)))))"

text \<open>\<open>tlv_type_<T, TLV>\<close>, the mandatory TLV: the value read or \<open>bad_tlv\<close>.\<close>

definition tlv_codec :: "u8 \<Rightarrow> 'a codec \<Rightarrow> 'a codec" where
  "tlv_codec t c = \<lparr>
     put = base_tlv_put u8_codec t c,
     get = \<lambda>v. bnd (base_tlv_get u8_codec t c v)
             (\<lambda>res. case res of None \<Rightarrow> throw bad_tlv | Some x \<Rightarrow> ret x),
     dflt = dflt c, wf = tlv_wf c, enc = enc_tlv (enc8 t) c\<rparr>"

definition tlv4_codec :: "u32 \<Rightarrow> 'a codec \<Rightarrow> 'a codec" where
  "tlv4_codec t c = \<lparr>
     put = base_tlv_put u32_codec t c,
     get = \<lambda>v. bnd (base_tlv_get u32_codec t c v)
             (\<lambda>res. case res of None \<Rightarrow> throw bad_tlv | Some x \<Rightarrow> ret x),
     dflt = dflt c, wf = tlv_wf c, enc = enc_tlv (enc32 t) c\<rparr>"

definition oui_codec :: "u8 \<Rightarrow> u8 \<Rightarrow> u8 \<Rightarrow> 'a codec \<Rightarrow> 'a codec" where
  "oui_codec a b c cd = \<lparr>
     put = oui_put a b c cd,
     get = \<lambda>v. bnd (oui_get a b c cd v)
             (\<lambda>res. case res of None \<Rightarrow> throw bad_tlv | Some x \<Rightarrow> ret x),
     dflt = dflt cd, wf = oui_wf cd, enc = enc_oui a b c cd\<rparr>"

text \<open>\<open>tlv_type_<boost::optional<T>, TLV>\<close>, the optional TLV.\<close>

definition tlv_opt_codec :: "u8 \<Rightarrow> 'a codec \<Rightarrow> 'a option codec" where
  "tlv_opt_codec t c = \<lparr>
     put = \<lambda>v. case v of None \<Rightarrow> ret () | Some x \<Rightarrow> base_tlv_put u8_codec t c x,
     get = \<lambda>v ar. if i_length ar \<le> i_position ar then (Inr v, ar)
                  else base_tlv_get u8_codec t c (dflt c) ar,
     dflt = None,
     wf = \<lambda>v. case v of None \<Rightarrow> False | Some x \<Rightarrow> tlv_wf c x,
     enc = \<lambda>v. case v of None \<Rightarrow> [] | Some x \<Rightarrow> enc_tlv (enc8 t) c x\<rparr>"

section \<open>Lemmas\<close>

lemma i_nested_at:
  assumes "codec_law c" "wf c x" "i_at ar (enc c x @ rest)"
  shows "i_nested len (get c v) ar = (Inr x, i_skip (length (enc c x)) ar)"
proof -
  have "i_at (iarchive_sub len ar) (enc c x @ rest)"
    using assms(3) by (simp add: i_at_def iarchive_sub_def)
  from codec_law.get_at [OF assms(1,2) this] show ?thesis
    by (simp add: i_nested_def) (simp add: iarchive_sub_def i_skip_def)
qed

lemma base_tlv_put_at:
  assumes "codec_law c" "codec_law tc" "wf tc t" "tlv_wf c x"
    "o_at_end ar (length (enc_tlv (enc tc t) c x))"
  shows "base_tlv_put tc t c x ar = (Inr (), o_put (enc_tlv (enc tc t) c x) ar)"
proof -
  let ?tmp = "oarchive_of archive_new" and ?o1 = "o_put (enc tc t) ar"
  have l: "len_ok (length (enc c x))" "wf c x" using assms(4) by (simp_all add: tlv_wf_def)
  have "put c x ?tmp = (Inr (), o_put (enc c x) ?tmp)"
    using l by (intro codec_law.put_at [OF assms(1)])
      (auto simp: len_ok_def o_at_end_def oarchive_of_def archive_new_def)
  moreover have "put tc t ar = (Inr (), ?o1)"
    using assms(3,5) by (intro codec_law.put_at [OF assms(2)]) (auto simp: enc_tlv_def elim: o_at_end_mono)
  moreover have "o_bytes (enc c x) ?o1 = (Inr (), o_put (enc_bytes (enc c x)) ?o1)"
    using l assms(5) by (intro o_bytes_at) (auto simp: enc_tlv_def elim!: o_at_end_put)
  ultimately show ?thesis
    by (simp add: base_tlv_put_def Let_def enc_tlv_def) (simp add: oarchive_of_def archive_new_def)
qed

lemma base_tlv_get_at:
  assumes "codec_law c" "codec_law tc" "wf tc t" "tlv_wf c x"
    "i_at ar (enc_tlv (enc tc t) c x @ rest)"
  shows "base_tlv_get tc t c v ar = (Inr (Some x), i_skip (length (enc_tlv (enc tc t) c x)) ar)"
proof -
  let ?l = "enc_len (length (enc c x))" and ?ar1 = "i_skip (length (enc tc t)) ar"
  have at: "i_at ar (enc tc t @ ?l @ enc c x @ rest)"
    using assms(5) by (simp add: enc_tlv_def enc_bytes_def)
  have at1: "i_at ?ar1 (?l @ enc c x @ rest)" using at by (rule i_at_skip)
  have at2: "i_at (i_skip (length ?l) ?ar1) (enc c x @ rest)" using at1 by (rule i_at_skip)
  have "get tc (dflt tc) ar = (Inr t, ?ar1)"
    using codec_law.get_at [OF assms(2,3) at] .
  moreover have "i_list_length ?ar1 = (Inr (length (enc c x)), i_skip (length ?l) ?ar1)"
    using assms(4) at1 by (intro i_list_length_at) (auto simp: tlv_wf_def)
  moreover note i_nested_at [OF assms(1) _ at2, of "length (enc c x)" v]
  ultimately show ?thesis using assms(4)
    by (simp add: base_tlv_get_def Let_def tlv_wf_def enc_tlv_def add.assoc)
qed

lemma u8_codec_enc [simp]: "enc u8_codec = enc8" "wf u8_codec = (\<lambda>_. True)"
  by (simp_all add: u8_codec_def)

lemma u32_codec_enc [simp]: "enc u32_codec = enc32" "wf u32_codec = (\<lambda>_. True)"
  by (simp_all add: u32_codec_def)

lemma base_tlv_u8_at:
  "codec_law c \<Longrightarrow> tlv_wf c x \<Longrightarrow> o_at_end oar (length (enc_tlv (enc8 t) c x))
    \<Longrightarrow> base_tlv_put u8_codec t c x oar = (Inr (), o_put (enc_tlv (enc8 t) c x) oar)"
  "codec_law c \<Longrightarrow> tlv_wf c x \<Longrightarrow> i_at iar (enc_tlv (enc8 t) c x @ rest)
    \<Longrightarrow> base_tlv_get u8_codec t c v iar = (Inr (Some x), i_skip (length (enc_tlv (enc8 t) c x)) iar)"
  using base_tlv_put_at [of c u8_codec t x oar] base_tlv_get_at [of c u8_codec t x iar rest v]
    basic_laws(2) by simp_all

lemma tlv_law1 [codec_intros]: "codec_law c \<Longrightarrow> codec_law1 (tlv_codec t c)"
  by unfold_locales (auto simp: tlv_codec_def base_tlv_u8_at, simp add: enc_tlv_def)

lemma tlv4_law1 [codec_intros]: "codec_law c \<Longrightarrow> codec_law1 (tlv4_codec t c)"
  using base_tlv_put_at [of c u32_codec t] base_tlv_get_at [of c u32_codec t] basic_laws(4)
  by unfold_locales (auto simp: tlv4_codec_def, simp add: enc_tlv_def)

text \<open>An optional TLV that is present, and one that is absent.\<close>

lemma tlv_opt_put_at:
  "codec_law c \<Longrightarrow> tlv_wf c x \<Longrightarrow> o_at_end ar (length (enc_tlv (enc8 t) c x))
    \<Longrightarrow> put (tlv_opt_codec t c) (Some x) ar = (Inr (), o_put (enc_tlv (enc8 t) c x) ar)"
  "put (tlv_opt_codec t c) None ar = (Inr (), ar)"
  by (simp_all add: tlv_opt_codec_def base_tlv_u8_at)

lemma tlv_opt_get_present:
  "codec_law c \<Longrightarrow> tlv_wf c x \<Longrightarrow> i_at ar (enc_tlv (enc8 t) c x @ rest)
    \<Longrightarrow> i_position ar < i_length ar
    \<Longrightarrow> get (tlv_opt_codec t c) v ar = (Inr (Some x), i_skip (length (enc_tlv (enc8 t) c x)) ar)"
  by (simp add: tlv_opt_codec_def base_tlv_u8_at)

lemma tlv_opt_get_at_end:
  "i_length ar \<le> i_position ar \<Longrightarrow> get (tlv_opt_codec t c) v ar = (Inr v, ar)"
  by (simp add: tlv_opt_codec_def)

definition begin_ok :: "iarchive \<Rightarrow> bool" where
  "begin_ok ar \<longleftrightarrow> i_begin ar \<le> i_pos ar \<and> i_pos ar < 2 ^ 32"

lemma reset_position:
  "begin_ok ar \<Longrightarrow> i_set_position (i_position ar) (ar\<lparr>i_pos := p\<rparr>) = ar"
  by (simp add: begin_ok_def i_set_position_def i_position_def)

lemma i_uint8_result:
  obtains (eof) e where "i_uint8 ar = (Inl e, ar)"
    | (byte) b p where "i_uint8 ar = (Inr b, ar\<lparr>i_pos := p\<rparr>)"
  by (cases "i_take 1 ar")
    (auto simp: i_uint8_def bnd_def i_take_def split: if_splits)

lemma i_list_length_result:
  obtains (eof) e where "i_list_length ar = (Inl e, ar)"
    | (len) n p where "i_list_length ar = (Inr n, ar\<lparr>i_pos := p\<rparr>)"
proof -
  have "(\<exists>e. i_list_length ar = (Inl e, ar)) \<or> (\<exists>n p. i_list_length ar = (Inr n, ar\<lparr>i_pos := p\<rparr>))"
    by (auto simp: i_list_length_def Let_def split: option.split)
  then show thesis using that by blast
qed

lemma base_tlv_get_restores:
  assumes "begin_ok ar" "base_tlv_get u8_codec t c v ar = (r, ar')" "\<And>x. r \<noteq> Inr (Some x)"
  shows "ar' = ar"
proof (cases rule: i_uint8_result [of ar])
  case (eof e)
  then show ?thesis using assms(2) by (simp add: base_tlv_get_def u8_codec_def Let_def)
next
  case (byte b p)
  note reset = reset_position [OF assms(1)]
  show ?thesis
  proof (cases rule: i_list_length_result [of "ar\<lparr>i_pos := p\<rparr>"])
    case (eof e)
    then show ?thesis using assms(2) byte reset
      by (auto simp: base_tlv_get_def u8_codec_def Let_def split: if_splits)
  next
    case (len n p')
    then show ?thesis using assms(2,3) byte reset
      by (auto simp: base_tlv_get_def u8_codec_def Let_def bnd_def on_throw_def i_nested_def
          split: if_splits sum.splits prod.splits)
  qed
qed

text \<open>
  C12: A TLV that cannot be read leaves the input where it was: when the type octet is not the
  expected one, or when the length or the value throws, the mandatory and the optional read
  end with the archive they started from, whatever the value codec does.
\<close>

theorem tlv_failure_restores_position:
  assumes "i_begin ar \<le> i_pos ar" "i_pos ar < 2 ^ 32"
  shows "(\<forall>e ar'. get (tlv_codec t c) v ar = (Inl e, ar') \<longrightarrow> ar' = ar)
    \<and> (\<forall>e ar'. get (tlv_opt_codec t c) w ar = (Inl e, ar') \<longrightarrow> ar' = ar)
    \<and> (\<forall>ar'. get (tlv_opt_codec t c) w ar = (Inr None, ar') \<longrightarrow> ar' = ar)"
proof -
  have ok: "begin_ok ar" using assms by (simp add: begin_ok_def)
  have "ar' = ar" if "get (tlv_codec t c) v ar = (Inl e, ar')" for e ar'
    using that
    by (auto simp: tlv_codec_def elim!: bnd_cases split: option.splits
        intro: base_tlv_get_restores [OF ok])
  moreover have "ar' = ar" if "get (tlv_opt_codec t c) w ar = (Inl e, ar')" for e ar'
    using that
    by (auto simp: tlv_opt_codec_def split: if_splits intro: base_tlv_get_restores [OF ok])
  moreover have "ar' = ar" if "get (tlv_opt_codec t c) w ar = (Inr None, ar')" for ar'
    using that
    by (auto simp: tlv_opt_codec_def split: if_splits intro: base_tlv_get_restores [OF ok])
  ultimately show ?thesis by blast
qed

theorem tlv_failure_restores_position_witness:
  "get (tlv_codec 5 u8_codec) 0 \<lparr>i_buf = [9, 4, 1, 7], i_pos = 1, i_begin = 1, i_length = 3\<rparr>
     = (Inl bad_tlv, \<lparr>i_buf = [9, 4, 1, 7], i_pos = 1, i_begin = 1, i_length = 3\<rparr>)"
proof -
  let ?ar = "\<lparr>i_buf = [9, 4, 1, 7], i_pos = 1, i_begin = 1, i_length = 3\<rparr>"
  have "fst (get (tlv_codec 5 u8_codec) 0 ?ar) = Inl bad_tlv"
    by (simp add: tlv_codec_def base_tlv_get_def u8_codec_def i_uint8_def i_take_def bnd_def)
  then have "get (tlv_codec 5 u8_codec) 0 ?ar = (Inl bad_tlv, snd (get (tlv_codec 5 u8_codec) 0 ?ar))"
    by (metis prod.collapse)
  moreover from this have "snd (get (tlv_codec 5 u8_codec) 0 ?ar) = ?ar"
    using tlv_failure_restores_position [of ?ar 5 u8_codec 0 None] by simp
  ultimately show ?thesis by simp
qed

lemma oui_put_at:
  assumes "codec_law cd" "oui_wf cd x" "o_at_end ar (length (enc_oui a b c cd x))"
  shows "oui_put a b c cd x ar = (Inr (), o_put (enc_oui a b c cd x) ar)"
proof -
  let ?tmp = "oarchive_of archive_new"
  have l: "len_ok (Suc (Suc (Suc (length (enc cd x)))))" using assms(2) by (simp add: oui_wf_def)
  have e: "o_at_end (o_put bs ?tmp) n" if "length bs + n < 2 ^ 32" for bs n
    using that by (simp add: o_at_end_def oarchive_of_def archive_new_def)
  have "o_uint8 a ?tmp = (Inr (), o_put [a] ?tmp)" "o_uint8 b (o_put [a] ?tmp) = (Inr (), o_put [a, b] ?tmp)"
      "o_uint8 c (o_put [a, b] ?tmp) = (Inr (), o_put [a, b, c] ?tmp)"
    using e [of "[]" 1] e [of "[a]" 1] e [of "[a, b]" 1] by (simp_all add: o_ints_at enc8_def)
  moreover have "put cd x (o_put [a, b, c] ?tmp) = (Inr (), o_put (enc cd x) (o_put [a, b, c] ?tmp))"
    using assms(2) l by (intro codec_law.put_at [OF assms(1)] e) (auto simp: oui_wf_def len_ok_def)
  moreover have "o_uint8 100 ar = (Inr (), o_put (enc8 100) ar)"
    using assms(3) by (intro o_ints_at) (auto simp: enc_oui_def elim: o_at_end_mono)
  moreover have "o_bytes (a # b # c # enc cd x) (o_put (enc8 100) ar)
      = (Inr (), o_put (enc_bytes (a # b # c # enc cd x)) (o_put (enc8 100) ar))"
    using l assms(3) by (intro o_bytes_at) (auto simp: enc_oui_def add.commute elim!: o_at_end_put)
  ultimately show ?thesis
    by (simp add: oui_put_def Let_def enc_oui_def) (simp add: oarchive_of_def archive_new_def)
qed

lemma oui_get_at:
  assumes "codec_law cd" "oui_wf cd x" "i_at ar (enc_oui a b c cd x @ rest)"
  shows "oui_get a b c cd v ar = (Inr (Some x), i_skip (length (enc_oui a b c cd x)) ar)"
proof -
  let ?n = "Suc (Suc (Suc (length (enc cd x))))"
  let ?l = "enc_len ?n"
  let ?ar1 = "i_skip 1 ar"
  let ?ar2 = "i_skip (length ?l) ?ar1"
  have at: "i_at ar (enc8 100 @ ?l @ a # b # c # enc cd x @ rest)"
    using assms(3) by (simp add: enc_oui_def enc_bytes_def)
  have at1: "i_at ?ar1 (?l @ a # b # c # enc cd x @ rest)" using i_at_skip [OF at] by simp
  have at2: "i_at ?ar2 (enc8 a @ b # c # enc cd x @ rest)"
    using i_at_skip [OF at1] by (simp add: enc8_def)
  have at3: "i_at (i_skip 1 ?ar2) (enc8 b @ c # enc cd x @ rest)"
    using i_at_skip [OF at2] by (simp add: enc8_def)
  have at4: "i_at (i_skip 1 (i_skip 1 ?ar2)) (enc8 c @ enc cd x @ rest)"
    using i_at_skip [OF at3] by (simp add: enc8_def)
  have at5: "i_at (i_skip 1 (i_skip 1 (i_skip 1 ?ar2))) (enc cd x @ rest)"
    using i_at_skip [OF at4] by (simp add: enc8_def)
  have "i_list_length ?ar1 = (Inr ?n, ?ar2)"
    using assms(2) at1 by (intro i_list_length_at) (auto simp: oui_wf_def)
  moreover note i_nested_at [OF assms(1) _ at5, of "length (enc cd x)" v]
  ultimately show ?thesis
    using assms(2) i_uint8_at [OF at] i_uint8_at [OF at2] i_uint8_at [OF at3] i_uint8_at [OF at4]
    by (simp add: oui_get_def Let_def oui_wf_def enc_oui_def add.assoc eval_nat_numeral)
qed

lemma oui_law1 [codec_intros]: "codec_law cd \<Longrightarrow> codec_law1 (oui_codec a b c cd)"
  by unfold_locales (auto simp: oui_codec_def oui_put_at oui_get_at, simp add: enc_oui_def)

lemmas tlv_laws [codec_intros] =
  tlv_law1 [THEN codec_law1.axioms(1)] tlv4_law1 [THEN codec_law1.axioms(1)]
  oui_law1 [THEN codec_law1.axioms(1)]

end
