(* ===== verification/Mih_Base_Types.thy ===== *)
theory Mih_Base_Types
  imports Mih_Tlv
begin

text \<open>
  The basic data types of \<open>inc/odtone/mih/types/base.hpp\<close>, \<open>identification.hpp\<close> and
  \<open>address.hpp\<close>, with the textual address functions of \<open>lib/odtone/mih/types/address.cpp\<close>.
\<close>

section \<open>Bitmaps\<close>

text \<open>
  \<open>bitmap<N, EnumT>\<close> is an array of \<open>N / 8\<close> octets. The positions are the numbers of an
  enumeration, below \<open>N\<close>.
\<close>

type_synonym bitmap = "u8 list"

definition bm_new :: "nat \<Rightarrow> bitmap" where
  "bm_new n = replicate (n div 8) 0"

definition bm_clear :: "nat \<Rightarrow> bitmap \<Rightarrow> bitmap" where
  "bm_clear pos b = b[pos div 8 := b ! (pos div 8) AND NOT (push_bit (pos mod 8) 1)]"

definition bm_set :: "nat \<Rightarrow> bitmap \<Rightarrow> bitmap" where
  "bm_set pos b = b[pos div 8 := b ! (pos div 8) OR push_bit (pos mod 8) 1]"

definition bm_get :: "bitmap \<Rightarrow> nat \<Rightarrow> bool" where
  "bm_get b pos \<longleftrightarrow> b ! (pos div 8) AND push_bit (pos mod 8) 1 \<noteq> 0"

definition bm_merge :: "bitmap \<Rightarrow> bitmap \<Rightarrow> bitmap" where
  "bm_merge b c = map2 (OR) b c"

definition bm_common :: "bitmap \<Rightarrow> bitmap \<Rightarrow> bitmap" where
  "bm_common b c = map2 (AND) b c"

definition bm_except :: "bitmap \<Rightarrow> bitmap \<Rightarrow> bitmap" where
  "bm_except b c = map2 (\<lambda>x y. x AND NOT y) b c"

definition bm_full :: "bitmap \<Rightarrow> bitmap" where
  "bm_full b = map (\<lambda>_. 0xFF) b"

definition bm_eq :: "bitmap \<Rightarrow> bitmap \<Rightarrow> bool" where
  "bm_eq b c \<longleftrightarrow> length b = length c \<and> list_all2 (=) b c"

text \<open>The octets are serialized from the last to the first.\<close>

definition bitmap_codec :: "nat \<Rightarrow> bitmap codec" where
  "bitmap_codec n = struct_codec rev rev (array_codec (n div 8) u8_codec)"

section \<open>Percentages and enumerations\<close>

text \<open>Assignment checks the range; deserialization does not.\<close>

definition percentage_assign :: "u32 \<Rightarrow> exn + u8" where
  "percentage_assign val = (if 100 < val then Inl percentage_exception else Inr (ucast val))"

definition percentage_codec :: "u8 codec" where
  "percentage_codec = u8_codec"

text \<open>\<open>enumeration<T>\<close> holds one octet and accepts every value of it.\<close>

definition enumeration_codec :: "u8 codec" where
  "enumeration_codec = u8_codec"

type_synonym status = u8

definition status_success :: status where "status_success = 0"
definition status_failure :: status where "status_failure = 1"
definition status_rejected :: status where "status_rejected = 2"
definition status_authorization_failure :: status where "status_authorization_failure = 3"
definition status_network_error :: status where "status_network_error = 4"

section \<open>MIHF identifiers\<close>

type_synonym mihf_id = octet_string

definition id_codec :: "mihf_id codec" where
  "id_codec = octet_string_codec"

section \<open>Addresses\<close>

record transport_addr =
  ta_type :: u16
  ta_addr :: octet_string

definition transport_addr_codec :: "transport_addr codec" where
  "transport_addr_codec = struct_codec
     (\<lambda>a. (ta_type a, ta_addr a)) (\<lambda>(t, s). \<lparr>ta_type = t, ta_addr = s\<rparr>)
     (pair_codec u16_codec octet_string_codec)"

definition mac_addr_new :: transport_addr where
  "mac_addr_new = \<lparr>ta_type = 6, ta_addr = []\<rparr>"

definition mac_addr_codec :: "transport_addr codec" where
  "mac_addr_codec = transport_addr_codec\<lparr>dflt := mac_addr_new\<rparr>"

definition hex_digit :: "u8 \<Rightarrow> char" where
  "hex_digit v = char_of_byte (if v < 10 then 48 + v else 97 + v - 10)"

definition to_string_hex :: "char \<Rightarrow> string" where
  "to_string_hex c = [hex_digit (drop_bit 4 (byte_of_char c AND 0xF0)), hex_digit (byte_of_char c AND 0x0F)]"

definition hex_to_int :: "char \<Rightarrow> u8" where
  "hex_to_int ch =
     (let c = byte_of_char ch in
      if 97 \<le> c then c - 97 + 0xA else if 65 \<le> c then c - 65 + 0xA else c - 48)"

text \<open>
  \<open>mac_addr::address()\<close>: every octet in hexadecimal followed by a colon, the last colon
  erased.
\<close>

definition mac_address :: "transport_addr \<Rightarrow> octet_string" where
  "mac_address a = butlast (concat (map (\<lambda>c. to_string_hex c @ '':'') (ta_addr a)))"

text \<open>
  \<open>mac_addr::address(addr)\<close>: up to two digits per octet, an optional colon between octets.
\<close>

fun mac_parse :: "string \<Rightarrow> string" where
  "mac_parse [] = []"
| "mac_parse [c] = [char_of_byte (push_bit 4 (hex_to_int c) OR 0)]"
| "mac_parse [c, d] = [char_of_byte (push_bit 4 (hex_to_int c) OR hex_to_int d)]"
| "mac_parse (c # d # e # cs) = char_of_byte (push_bit 4 (hex_to_int c) OR hex_to_int d) #
     mac_parse (if e = CHR '':'' then cs else e # cs)"

definition mac_set_address :: "octet_string \<Rightarrow> transport_addr \<Rightarrow> transport_addr" where
  "mac_set_address s a = a\<lparr>ta_addr := mac_parse s\<rparr>"

definition mac_addr_eq :: "transport_addr \<Rightarrow> transport_addr \<Rightarrow> bool" where
  "mac_addr_eq a b \<longleftrightarrow> ta_type a = ta_type b \<and> mac_address a = mac_address b"

text \<open>\<open>ip_addr\<close>: a dotted decimal or colon separated hexadecimal text.\<close>

definition ip_none :: u16 where "ip_none = 0"
definition ip_v4 :: u16 where "ip_v4 = 1"
definition ip_v6 :: u16 where "ip_v6 = 2"

fun dec_string :: "nat \<Rightarrow> string" where
  "dec_string n = (if n < 10 then [char_of (48 + n)] else dec_string (n div 10) @ [char_of (48 + n mod 10)])"

fun ipv4_text :: "string \<Rightarrow> string" where
  "ipv4_text [] = []"
| "ipv4_text [c] = dec_string (of_char c)"
| "ipv4_text (c # cs) = dec_string (of_char c) @ ''.'' @ ipv4_text cs"

text \<open>Reading \<open>_addr[size()]\<close> of a constant string gives the null character.\<close>

fun ipv6_text :: "string \<Rightarrow> string" where
  "ipv6_text [] = []"
| "ipv6_text [c] = to_string_hex c @ to_string_hex (char_of (0::nat)) @ '':''"
| "ipv6_text (c # d # cs) = to_string_hex c @ to_string_hex d @ '':'' @ ipv6_text cs"

definition ip_address :: "transport_addr \<Rightarrow> octet_string" where
  "ip_address a =
     (if ta_type a = ip_v4 then ipv4_text (ta_addr a)
      else if ta_type a = ip_v6 then butlast (ipv6_text (ta_addr a))
      else [])"

definition ip_addr_eq :: "transport_addr \<Rightarrow> transport_addr \<Rightarrow> bool" where
  "ip_addr_eq a b \<longleftrightarrow> ta_type a = ta_type b \<and> ip_address a = ip_address b"

definition ip_addr_codec :: "transport_addr codec" where
  "ip_addr_codec = transport_addr_codec"

text \<open>Link addresses.\<close>

record l2_3gpp_2g_cell_id =
  g2_plmn_id :: "u8 list"
  g2_lac :: u16
  g2_ci :: u16

record l2_3gpp_3g_cell_id =
  g3_plmn_id :: "u8 list"
  g3_cell_id :: u32

datatype link_addr =
    Mac_addr (la_mac: transport_addr)
  | L2_3gpp_3g (la_3g: l2_3gpp_3g_cell_id)
  | L2_3gpp_2g (la_2g: l2_3gpp_2g_cell_id)
  | L2_3gpp_addr (la_3gpp: octet_string)
  | L2_3gpp2_addr (la_3gpp2: octet_string)
  | Other_l2_addr (la_other: octet_string)

definition cell_2g_codec :: "l2_3gpp_2g_cell_id codec" where
  "cell_2g_codec = struct_codec
     (\<lambda>a. (g2_plmn_id a, g2_lac a, g2_ci a)) (\<lambda>(p, l, c). \<lparr>g2_plmn_id = p, g2_lac = l, g2_ci = c\<rparr>)
     (pair_codec (array_codec 3 u8_codec) (pair_codec u16_codec u16_codec))"

definition cell_3g_codec :: "l2_3gpp_3g_cell_id codec" where
  "cell_3g_codec = struct_codec
     (\<lambda>a. (g3_plmn_id a, g3_cell_id a)) (\<lambda>(p, c). \<lparr>g3_plmn_id = p, g3_cell_id = c\<rparr>)
     (pair_codec (array_codec 3 u8_codec) u32_codec)"

definition link_addr_codec :: "link_addr codec" where
  "link_addr_codec = variant_codec
     [alt is_Mac_addr la_mac Mac_addr mac_addr_codec,
      alt is_L2_3gpp_3g la_3g L2_3gpp_3g cell_3g_codec,
      alt is_L2_3gpp_2g la_2g L2_3gpp_2g cell_2g_codec,
      alt is_L2_3gpp_addr la_3gpp L2_3gpp_addr octet_string_codec,
      alt is_L2_3gpp2_addr la_3gpp2 L2_3gpp2_addr octet_string_codec,
      alt is_Other_l2_addr la_other Other_l2_addr octet_string_codec]"

fun link_addr_eq :: "link_addr \<Rightarrow> link_addr \<Rightarrow> bool" where
  "link_addr_eq (Mac_addr a) (Mac_addr b) \<longleftrightarrow> mac_addr_eq a b"
| "link_addr_eq (L2_3gpp_3g a) (L2_3gpp_3g b) \<longleftrightarrow> g3_cell_id a = g3_cell_id b \<and> g3_plmn_id a = g3_plmn_id b"
| "link_addr_eq (L2_3gpp_2g a) (L2_3gpp_2g b) \<longleftrightarrow>
     g2_lac a = g2_lac b \<and> g2_ci a = g2_ci b \<and> g2_plmn_id a = g2_plmn_id b"
| "link_addr_eq (L2_3gpp_addr a) (L2_3gpp_addr b) \<longleftrightarrow> a = b"
| "link_addr_eq (L2_3gpp2_addr a) (L2_3gpp2_addr b) \<longleftrightarrow> a = b"
| "link_addr_eq (Other_l2_addr a) (Other_l2_addr b) \<longleftrightarrow> a = b"
| "link_addr_eq _ _ \<longleftrightarrow> False"

section \<open>Bitmaps as sets\<close>

text \<open>
  The set of positions a bitmap of \<open>n\<close> bits contains; every operation implements the set
  operation its name says.
\<close>

definition bm_ok :: "nat \<Rightarrow> bitmap \<Rightarrow> bool" where
  "bm_ok n b \<longleftrightarrow> 8 dvd n \<and> length b = n div 8"

definition bm_abs :: "bitmap \<Rightarrow> nat set" where
  "bm_abs b = {pos. pos < 8 * length b \<and> bm_get b pos}"

lemma bm_get_bit: "bm_get b pos \<longleftrightarrow> bit (b ! (pos div 8)) (pos mod 8)"
  by (simp add: bm_get_def and_exp_eq_0_iff_not_bit)

lemma bm_index: "pos < 8 * n \<Longrightarrow> pos div 8 < n" for pos n :: nat
  by (simp add: less_mult_imp_div_less mult.commute)

lemma same_bit: "pos div 8 = q div 8 \<Longrightarrow> pos mod 8 = q mod 8 \<longleftrightarrow> pos = q" for pos q :: nat
  by (metis div_mult_mod_eq)

lemma bit_exp_u8: "k < 8 \<Longrightarrow> bit (2 ^ k :: u8) j \<longleftrightarrow> j = k"
  by (auto simp: bit_exp_iff)

lemma bm_lengths [simp]:
  "length (bm_set p b) = length b" "length (bm_clear p b) = length b"
  "length (bm_full b) = length b" "length (bm_merge b c) = min (length b) (length c)"
  "length (bm_common b c) = min (length b) (length c)"
  "length (bm_except b c) = min (length b) (length c)"
  by (simp_all add: bm_set_def bm_clear_def bm_full_def bm_merge_def bm_common_def bm_except_def)

lemma bm_get_set:
  "pos < 8 * length b \<Longrightarrow> q < 8 * length b \<Longrightarrow> bm_get (bm_set pos b) q \<longleftrightarrow> q = pos \<or> bm_get b q"
  using same_bit [of pos q]
  by (cases "pos div 8 = q div 8")
    (auto simp: bm_get_bit bm_set_def bm_index bit_or_iff bit_exp_u8 nth_list_update)

lemma bm_get_clear:
  "pos < 8 * length b \<Longrightarrow> q < 8 * length b \<Longrightarrow> bm_get (bm_clear pos b) q \<longleftrightarrow> q \<noteq> pos \<and> bm_get b q"
  using same_bit [of pos q]
  by (cases "pos div 8 = q div 8")
    (auto simp: bm_get_bit bm_clear_def bm_index bit_and_iff bit_not_iff bit_exp_u8 nth_list_update)

lemma bm_get_map2:
  assumes "length b = length c" "q < 8 * length b"
  shows "bm_get (bm_merge b c) q \<longleftrightarrow> bm_get b q \<or> bm_get c q"
    and "bm_get (bm_common b c) q \<longleftrightarrow> bm_get b q \<and> bm_get c q"
    and "bm_get (bm_except b c) q \<longleftrightarrow> bm_get b q \<and> \<not> bm_get c q"
  using assms
  by (auto simp: bm_get_bit bm_merge_def bm_common_def bm_except_def bm_index bit_or_iff bit_and_iff
      bit_not_iff)

lemma bm_get_full: "q < 8 * length b \<Longrightarrow> bm_get (bm_full b) q"
proof -
  have "bit (255 :: u8) k" if "k < 8" for k
  proof -
    have "bit (mask 8 :: u8) k" using that by (simp only: bit_mask_iff) simp
    moreover have "(mask 8 :: u8) = 255" by (simp add: mask_eq_exp_minus_1)
    ultimately show ?thesis by simp
  qed
  then show "q < 8 * length b \<Longrightarrow> ?thesis" by (simp add: bm_get_bit bm_full_def bm_index)
qed

lemma bm_get_new: "q < n \<Longrightarrow> 8 dvd n \<Longrightarrow> \<not> bm_get (bm_new n) q"
  by (auto simp: bm_get_bit bm_new_def bm_index elim!: dvdE)

lemma bm_ext:
  assumes "length b = length c" "\<And>q. q < 8 * length b \<Longrightarrow> bm_get b q = bm_get c q"
  shows "b = c"
proof (rule nth_equalityI [OF assms(1)])
  fix i assume i: "i < length b"
  show "b ! i = c ! i"
  proof (rule bit_word_eqI)
    fix k assume k: "k < LENGTH(8)"
    then have "8 * i + k < 8 * length b" using i by simp
    from assms(2) [OF this] k show "bit (b ! i) k = bit (c ! i) k" by (simp add: bm_get_bit)
  qed
qed

text \<open>
  C25: The bitmap operations implement finite sets of positions: \<open>set\<close>, \<open>clear\<close>, \<open>merge\<close>,
  \<open>common\<close>, \<open>except\<close> and \<open>full\<close> are insertion, removal, union, intersection, difference and
  the full set, a new bitmap is empty and two bitmaps are equal exactly if their sets are.
\<close>

theorem bitmap_refines_set:
  assumes "bm_ok n b" "bm_ok n c" "pos < n"
  shows "bm_abs (bm_new n) = {}
    \<and> bm_abs (bm_set pos b) = insert pos (bm_abs b)
    \<and> bm_abs (bm_clear pos b) = bm_abs b - {pos}
    \<and> bm_abs (bm_merge b c) = bm_abs b \<union> bm_abs c
    \<and> bm_abs (bm_common b c) = bm_abs b \<inter> bm_abs c
    \<and> bm_abs (bm_except b c) = bm_abs b - bm_abs c
    \<and> bm_abs (bm_full b) = {..<n}
    \<and> (bm_eq b c \<longleftrightarrow> bm_abs b = bm_abs c)
    \<and> (bm_get b pos \<longleftrightarrow> pos \<in> bm_abs b)"
proof -
  have n: "8 * length b = n" "8 * length c = n" "8 dvd n" using assms by (auto simp: bm_ok_def)
  have len: "length b = length c" using n by linarith
  have new: "bm_abs (bm_new n) = {}" using n(3) bm_get_new [of _ n] by (auto simp: bm_abs_def bm_new_def)
  have eq: "bm_eq b c \<longleftrightarrow> bm_abs b = bm_abs c"
  proof
    assume "bm_abs b = bm_abs c"
    then have "bm_get b q = bm_get c q" if "q < 8 * length b" for q
      using that len by (auto simp: bm_abs_def set_eq_iff)
    then show "bm_eq b c" using bm_ext [OF len] by (simp add: bm_eq_def list.rel_eq)
  qed (simp add: bm_eq_def list.rel_eq)
  show ?thesis using assms(3) n len new eq
    by (auto simp: bm_abs_def bm_get_set bm_get_clear bm_get_map2 bm_get_full)
qed

theorem bitmap_refines_set_witness:
  "bm_abs (bm_set 9 [0, 0]) = insert 9 (bm_abs [0, 0]) \<and> bm_abs (bm_full [0, 0]) = {..<16}"
  using bitmap_refines_set [of 16 "[0, 0]" "[0, 0]" 9] by (simp add: bm_ok_def)

section \<open>Textual MAC addresses\<close>

lemma u8_below: "v < of_nat n \<Longrightarrow> n < 256 \<Longrightarrow> v \<in> set (map of_nat [0..<n])" for v :: u8
proof -
  assume v: "v < of_nat n" and n: "n < 256"
  have "unat v < n" using v n by (simp add: word_less_nat_alt unsigned_of_nat take_bit_nat_eq_self)
  moreover have "v = of_nat (unat v)" by (rule unat_eqI) simp
  ultimately show ?thesis by force
qed

lemma hex_digit_inverse: "v < 16 \<Longrightarrow> hex_to_int (hex_digit v) = v"
proof -
  assume "v < 16"
  then have "v \<in> set (map of_nat [0..<16])" using u8_below [of v 16] by simp
  then have "v \<in> set [0, 1, 2, 3, 4, 5, 6, 7, 8, 9, 10, 11, 12, 13, 14, 15]" by (simp add: upt_rec)
  moreover have "list_all (\<lambda>v. hex_to_int (hex_digit v) = v)
      [0, 1, 2, 3, 4, 5, 6, 7, 8, 9, 10, 11, 12, 13, 14, 15]"
    by (simp add: hex_to_int_def hex_digit_def)
  ultimately show ?thesis by (meson list_all_iff)
qed

lemma low_nibble: "w AND 0x0F < (16 :: u8)"
  using word_and_le1 [of w "0x0F"] by (simp add: word_le_nat_alt word_less_nat_alt)

lemma high_nibble: "drop_bit 4 (w AND 0xF0) < (16 :: u8)"
proof -
  have "unat (drop_bit 4 (w AND 0xF0)) = unat (w AND 0xF0) div 16"
    unfolding unat_drop_bit_eq by (simp add: drop_bit_eq_div)
  moreover have "unat (w AND 0xF0) \<le> 240"
    using word_and_le1 [of w "0xF0"] by (simp add: word_le_nat_alt)
  ultimately show ?thesis unfolding word_less_nat_alt by simp
qed

lemma join_nibbles: "push_bit 4 (drop_bit 4 (w AND 0xF0)) OR (w AND 0x0F) = (w :: u8)"
proof -
  have m: "(0xF0 :: u8) = push_bit 4 (mask 4)" "(0x0F :: u8) = mask 4"
    by (simp_all add: mask_eq_exp_minus_1)
  show ?thesis unfolding m by (rule bit_word_eqI) (simp only: bit_simps o_apply, auto)
qed

lemma hex_pair:
  assumes "to_string_hex c = [a, b]"
  shows "char_of_byte (push_bit 4 (hex_to_int a) OR hex_to_int b) = c"
proof -
  have "hex_to_int a = drop_bit 4 (byte_of_char c AND 0xF0)" "hex_to_int b = byte_of_char c AND 0x0F"
    using assms hex_digit_inverse [OF high_nibble] hex_digit_inverse [OF low_nibble]
    by (auto simp only: to_string_hex_def list.inject)
  then show ?thesis by (simp only: join_nibbles char_of_byte_of_char)
qed

lemma mac_parse_address: "mac_parse (butlast (concat (map (\<lambda>c. to_string_hex c @ '':'') cs))) = cs"
proof (induction cs)
  case (Cons c cs)
  obtain a b where ab: "to_string_hex c = [a, b]" by (simp add: to_string_hex_def)
  note p = hex_pair [OF ab]
  show ?case
  proof (cases cs)
    case Nil
    then show ?thesis by (simp only: Nil list.map concat.simps append_Nil append_Nil2 ab butlast.simps
          append_Cons if_False if_True list.distinct mac_parse.simps p)
  next
    case (Cons d ds)
    then have "concat (map (\<lambda>c. to_string_hex c @ '':'') cs) \<noteq> []" by simp
    then show ?thesis using Cons.IH p by (simp add: ab)
  qed
qed simp

lemma mac_parse_mac_address: "mac_parse (mac_address a) = ta_addr a"
  unfolding mac_address_def by (rule mac_parse_address)

lemma mac_address_inject: "mac_address a = mac_address b \<longleftrightarrow> ta_addr a = ta_addr b"
  by (metis mac_parse_mac_address mac_address_def)

text \<open>
  C28: The text of a MAC address parses back to the same octets, and the comparison of two
  MAC addresses by their text is equality of type and octets.
\<close>

theorem mac_address_roundtrip:
  "ta_addr (mac_set_address (mac_address a) b) = ta_addr a \<and> (mac_addr_eq a a' \<longleftrightarrow> a = a')"
  for a a' :: transport_addr
  by (auto simp: mac_set_address_def mac_parse_mac_address mac_addr_eq_def mac_address_inject
      intro: transport_addr.equality)

section \<open>The codecs meet their contract\<close>

lemma codec_law_dflt: "codec_law1 c \<Longrightarrow> codec_law1 (c\<lparr>dflt := d\<rparr>)"
  by (simp add: codec_law1_def codec_law_def codec_law1_axioms_def)

lemma bitmap_law1 [codec_intros]: "8 \<le> n \<Longrightarrow> codec_law1 (bitmap_codec n)"
proof -
  assume "8 \<le> n"
  then obtain k where "n div 8 = Suc k" by (metis div_greater_zero_iff gr0_conv_Suc zero_less_numeral)
  then show ?thesis unfolding bitmap_codec_def by (auto intro!: codec_intros)
qed

interpretation mihf_id: codec_law1 id_codec
  unfolding id_codec_def by (intro codec_intros)

lemma transport_addr_law1 [codec_intros]: "codec_law1 transport_addr_codec"
  unfolding transport_addr_codec_def by (intro codec_intros) auto

lemma mac_addr_law1 [codec_intros]: "codec_law1 mac_addr_codec"
  unfolding mac_addr_codec_def by (intro codec_law_dflt codec_intros)

lemma cell_laws1 [codec_intros]: "codec_law1 cell_2g_codec" "codec_law1 cell_3g_codec"
  unfolding cell_2g_codec_def cell_3g_codec_def numeral_3_eq_3 by (intro codec_intros; auto)+

lemma enumeration_law1 [codec_intros]: "codec_law1 enumeration_codec" "codec_law1 percentage_codec"
  unfolding enumeration_codec_def percentage_codec_def by (intro codec_intros)+

lemma ip_addr_law1 [codec_intros]: "codec_law1 ip_addr_codec"
  unfolding ip_addr_codec_def by (intro codec_intros)

lemmas base_type_laws [codec_intros] =
  mac_addr_law1 [THEN codec_law1.axioms(1)] cell_laws1 [THEN codec_law1.axioms(1)]
  bitmap_law1 [THEN codec_law1.axioms(1)] enumeration_law1 [THEN codec_law1.axioms(1)]
  ip_addr_law1 [THEN codec_law1.axioms(1)] mihf_id.codec_law1_axioms mihf_id.codec_law_axioms

lemma link_addr_law1 [codec_intros]: "codec_law1 link_addr_codec"
  unfolding link_addr_codec_def by (intro codec_intros) auto

lemmas link_addr_law [codec_intros] = link_addr_law1 [THEN codec_law1.axioms(1)]

end
