(* ===== verification/Mih_Link_Types.thy ===== *)
theory Mih_Link_Types
  imports Mih_Base_Types
begin

text \<open>
  The structured data types of \<open>inc/odtone/mih/types/link.hpp\<close>, \<open>qos.hpp\<close>, \<open>capabilities.hpp\<close>,
  \<open>odtone.hpp\<close> and the network type of \<open>information.hpp\<close>, each as a record or datatype with
  the codec its \<open>serialize\<close> member defines and the contract of that codec. Enumerations are
  octets, see \<open>enumeration_codec\<close>.
\<close>

section \<open>Signals, states and actions of a link\<close>

datatype sig_strength = Sig_dbm (sig_dbm: u8) | Sig_percentage (sig_pct: u8)

definition sig_strength_codec :: "sig_strength codec" where
  "sig_strength_codec = variant_codec
     [alt is_Sig_dbm sig_dbm Sig_dbm s8_codec, alt (Not \<circ> is_Sig_dbm) sig_pct Sig_percentage percentage_codec]"

datatype link_states_rsp = Op_mode (lsr_op_mode: u8) | Channel_id (lsr_channel_id: u16)

definition link_states_rsp_codec :: "link_states_rsp codec" where
  "link_states_rsp_codec = variant_codec
     [alt is_Op_mode lsr_op_mode Op_mode enumeration_codec, alt (Not \<circ> is_Op_mode) lsr_channel_id Channel_id u16_codec]"

text \<open>
  \<open>link_desc_rsp\<close> is \<open>boost::variant<num_cos, num_queue>\<close> where both alternatives are the type
  \<open>uint8\<close>. Assigning an octet, as the read does, selects the alternative Boost chooses for
  that type; \<open>pick\<close> stands for that choice.
\<close>

datatype link_desc_rsp = Num_cos (ldr_num_cos: u8) | Num_queue (ldr_num_queue: u8)

definition link_desc_rsp_codec :: "(u8 \<Rightarrow> link_desc_rsp) \<Rightarrow> link_desc_rsp codec" where
  "link_desc_rsp_codec pick = variant_codec
     [alt is_Num_cos ldr_num_cos pick u8_codec, alt (Not \<circ> is_Num_cos) ldr_num_queue pick u8_codec]"

datatype dev_states_rsp = Device_info (dsr_info: octet_string) | Batt_level (dsr_batt: u8)

definition dev_states_rsp_codec :: "dev_states_rsp codec" where
  "dev_states_rsp_codec = variant_codec
     [alt is_Device_info dsr_info Device_info octet_string_codec, alt (Not \<circ> is_Device_info) dsr_batt Batt_level u8_codec]"

record threshold =
  threshold_val :: u16
  threshold_x_dir :: u8

definition threshold_codec :: "threshold codec" where
  "threshold_codec = struct_codec
     (\<lambda>t. (threshold_val t, threshold_x_dir t)) (\<lambda>(v, d). \<lparr>threshold_val = v, threshold_x_dir = d\<rparr>)
     (pair_codec u16_codec enumeration_codec)"

record link_action =
  lac_type :: u8
  lac_attr :: bitmap

definition link_action_codec :: "link_action codec" where
  "link_action_codec = struct_codec
     (\<lambda>a. (lac_type a, lac_attr a)) (\<lambda>(t, b). \<lparr>lac_type = t, lac_attr = b\<rparr>)
     (pair_codec enumeration_codec (bitmap_codec 8))"

section \<open>Link identifiers\<close>

record link_id =
  lid_type :: u8
  lid_addr :: link_addr

definition link_id_codec :: "link_id codec" where
  "link_id_codec = struct_codec
     (\<lambda>l. (lid_type l, lid_addr l)) (\<lambda>(t, a). \<lparr>lid_type = t, lid_addr = a\<rparr>)
     (pair_codec enumeration_codec link_addr_codec)"

definition link_id_eq :: "'x link_id_scheme \<Rightarrow> 'y link_id_scheme \<Rightarrow> bool" where
  "link_id_eq l m \<longleftrightarrow> lid_type l = lid_type m \<and> link_addr_eq (lid_addr l) (lid_addr m)"

record link_tuple_id = link_id +
  poa_addr :: "link_addr option"

definition link_tuple_id_codec :: "link_tuple_id codec" where
  "link_tuple_id_codec = struct_codec
     (\<lambda>l. ((lid_type l, lid_addr l), poa_addr l))
     (\<lambda>((t, a), p). \<lparr>lid_type = t, lid_addr = a, poa_addr = p\<rparr>)
     (pair_codec (pair_codec enumeration_codec link_addr_codec) (opt_codec link_addr_codec))"

text \<open>\<open>link_tuple_id::operator==\<close> compares the link address a second time.\<close>

definition link_tuple_id_eq :: "link_tuple_id \<Rightarrow> link_tuple_id \<Rightarrow> bool" where
  "link_tuple_id_eq l m \<longleftrightarrow> link_id_eq l m \<and> link_addr_eq (lid_addr l) (lid_addr m)"

section \<open>Link actions and scans\<close>

record link_scan_rsp =
  lsc_id :: link_addr
  lsc_net_id :: octet_string
  lsc_signal :: sig_strength

definition link_scan_rsp_codec :: "link_scan_rsp codec" where
  "link_scan_rsp_codec = struct_codec
     (\<lambda>l. (lsc_id l, lsc_net_id l, lsc_signal l))
     (\<lambda>(i, n, g). \<lparr>lsc_id = i, lsc_net_id = n, lsc_signal = g\<rparr>)
     (pair_codec link_addr_codec (pair_codec octet_string_codec sig_strength_codec))"

record link_action_req =
  lareq_id :: link_id
  lareq_addr :: "link_addr option"
  lareq_action :: link_action
  lareq_ex_time :: u16

definition link_action_req_codec :: "link_action_req codec" where
  "link_action_req_codec = struct_codec
     (\<lambda>l. (lareq_id l, lareq_addr l, lareq_action l, lareq_ex_time l))
     (\<lambda>(i, a, c, t). \<lparr>lareq_id = i, lareq_addr = a, lareq_action = c, lareq_ex_time = t\<rparr>)
     (pair_codec link_id_codec (pair_codec (opt_codec link_addr_codec)
       (pair_codec link_action_codec u16_codec)))"

record link_action_rsp =
  larsp_id :: link_id
  larsp_result :: u8
  larsp_scan_list :: "link_scan_rsp list option"

definition link_action_rsp_codec :: "link_action_rsp codec" where
  "link_action_rsp_codec = struct_codec
     (\<lambda>l. (larsp_id l, larsp_result l, larsp_scan_list l))
     (\<lambda>(i, r, s). \<lparr>larsp_id = i, larsp_result = r, larsp_scan_list = s\<rparr>)
     (pair_codec link_id_codec (pair_codec enumeration_codec
       (opt_codec (vector_codec link_scan_rsp_codec))))"

record link_det_cfg =
  ldc_network_id :: "octet_string option"
  ldc_signal :: "sig_strength option"
  ldc_data_rate :: "u32 option"

definition link_det_cfg_codec :: "link_det_cfg codec" where
  "link_det_cfg_codec = struct_codec
     (\<lambda>l. (ldc_network_id l, ldc_signal l, ldc_data_rate l))
     (\<lambda>(n, g, r). \<lparr>ldc_network_id = n, ldc_signal = g, ldc_data_rate = r\<rparr>)
     (pair_codec (opt_codec octet_string_codec) (pair_codec (opt_codec sig_strength_codec)
       (opt_codec u32_codec)))"

section \<open>Quality of service\<close>

record pk_delay =
  pkd_cos :: u8
  pkd_value :: u16

definition pk_delay_codec :: "pk_delay codec" where
  "pk_delay_codec = struct_codec
     (\<lambda>p. (pkd_cos p, pkd_value p)) (\<lambda>(c, v). \<lparr>pkd_cos = c, pkd_value = v\<rparr>)
     (pair_codec u8_codec u16_codec)"

datatype qos_param_val =
    Num_cos_types (qpv_num: u8)
  | Min_pk_tx_delay (qpv_min: "pk_delay list")
  | Avg_pk_tx_delay (qpv_avg: "pk_delay list")
  | Max_pk_tx_delay (qpv_max: "pk_delay list")
  | Pk_delay_jitter (qpv_jitter: "pk_delay list")
  | Pk_loss_rate (qpv_loss: "pk_delay list")

definition qos_param_val_codec :: "qos_param_val codec" where
  "qos_param_val_codec = variant_codec
     [alt is_Num_cos_types qpv_num Num_cos_types u8_codec,
      alt is_Min_pk_tx_delay qpv_min Min_pk_tx_delay (vector_codec pk_delay_codec),
      alt is_Avg_pk_tx_delay qpv_avg Avg_pk_tx_delay (vector_codec pk_delay_codec),
      alt is_Max_pk_tx_delay qpv_max Max_pk_tx_delay (vector_codec pk_delay_codec),
      alt is_Pk_delay_jitter qpv_jitter Pk_delay_jitter (vector_codec pk_delay_codec),
      alt is_Pk_loss_rate qpv_loss Pk_loss_rate (vector_codec pk_delay_codec)]"

record qos_list =
  ql_cos :: u8
  ql_min :: "pk_delay list"
  ql_avg :: "pk_delay list"
  ql_max :: "pk_delay list"
  ql_jitter :: "pk_delay list"
  ql_loss :: "pk_delay list"

definition qos_list_codec :: "qos_list codec" where
  "qos_list_codec = struct_codec
     (\<lambda>q. (ql_cos q, ql_min q, ql_avg q, ql_max q, ql_jitter q, ql_loss q))
     (\<lambda>(c, m, a, x, j, l). \<lparr>ql_cos = c, ql_min = m, ql_avg = a, ql_max = x, ql_jitter = j, ql_loss = l\<rparr>)
     (pair_codec u8_codec (pair_codec (vector_codec pk_delay_codec) (pair_codec (vector_codec pk_delay_codec)
       (pair_codec (vector_codec pk_delay_codec) (pair_codec (vector_codec pk_delay_codec)
         (vector_codec pk_delay_codec))))))"

section \<open>Link parameters\<close>

datatype link_param_type =
    Lp_gen (lp_gen: u8) | Lp_qos (lp_qos: u8) | Lp_gg (lp_gg: u8) | Lp_edge (lp_edge: u8)
  | Lp_eth (lp_eth: u8) | Lp_802_11 (lp_802_11: u8) | Lp_c2k (lp_c2k: u8) | Lp_ffd (lp_ffd: u8)
  | Lp_hrpd (lp_hrpd: u8) | Lp_802_16 (lp_802_16: u8) | Lp_802_20 (lp_802_20: u8)
  | Lp_802_22 (lp_802_22: u8)

definition link_param_type_codec :: "link_param_type codec" where
  "link_param_type_codec = variant_codec
     [alt is_Lp_gen lp_gen Lp_gen enumeration_codec, alt is_Lp_qos lp_qos Lp_qos u8_codec,
      alt is_Lp_gg lp_gg Lp_gg enumeration_codec, alt is_Lp_edge lp_edge Lp_edge enumeration_codec,
      alt is_Lp_eth lp_eth Lp_eth enumeration_codec, alt is_Lp_802_11 lp_802_11 Lp_802_11 enumeration_codec,
      alt is_Lp_c2k lp_c2k Lp_c2k enumeration_codec, alt is_Lp_ffd lp_ffd Lp_ffd enumeration_codec,
      alt is_Lp_hrpd lp_hrpd Lp_hrpd enumeration_codec, alt is_Lp_802_16 lp_802_16 Lp_802_16 enumeration_codec,
      alt is_Lp_802_20 lp_802_20 Lp_802_20 enumeration_codec,
      alt is_Lp_802_22 lp_802_22 Lp_802_22 enumeration_codec]"

record link_status_req =
  lsq_states_req :: bitmap
  lsq_param_type_list :: "link_param_type list"
  lsq_desc_req :: bitmap

definition link_status_req_codec :: "link_status_req codec" where
  "link_status_req_codec = struct_codec
     (\<lambda>l. (lsq_states_req l, lsq_param_type_list l, lsq_desc_req l))
     (\<lambda>(s, p, d). \<lparr>lsq_states_req = s, lsq_param_type_list = p, lsq_desc_req = d\<rparr>)
     (pair_codec (bitmap_codec 16) (pair_codec (vector_codec link_param_type_codec) (bitmap_codec 16)))"

datatype link_param_value = Lpv_val (lpv_val: u16) | Lpv_qos (lpv_qos: qos_param_val)

record link_param =
  lpa_type :: link_param_type
  lpa_value :: link_param_value

definition link_param_codec :: "link_param codec" where
  "link_param_codec = struct_codec
     (\<lambda>l. (lpa_type l, lpa_value l)) (\<lambda>(t, v). \<lparr>lpa_type = t, lpa_value = v\<rparr>)
     (pair_codec link_param_type_codec (variant_codec
       [alt is_Lpv_val lpv_val Lpv_val u16_codec, alt (Not \<circ> is_Lpv_val) lpv_qos Lpv_qos qos_param_val_codec]))"

record link_param_report =
  lpr_param :: link_param
  lpr_thold :: "threshold option"

definition link_param_report_codec :: "link_param_report codec" where
  "link_param_report_codec = struct_codec
     (\<lambda>l. (lpr_param l, lpr_thold l)) (\<lambda>(p, t). \<lparr>lpr_param = p, lpr_thold = t\<rparr>)
     (pair_codec link_param_codec (opt_codec threshold_codec))"

record link_cfg_param =
  lcp_type :: link_param_type
  lcp_timer_interval :: "u16 option"
  lcp_action :: u8
  lcp_threshold_list :: "threshold list"

definition link_cfg_param_codec :: "link_cfg_param codec" where
  "link_cfg_param_codec = struct_codec
     (\<lambda>l. (lcp_type l, lcp_timer_interval l, lcp_action l, lcp_threshold_list l))
     (\<lambda>(t, i, a, h). \<lparr>lcp_type = t, lcp_timer_interval = i, lcp_action = a, lcp_threshold_list = h\<rparr>)
     (pair_codec link_param_type_codec (pair_codec (opt_codec u16_codec)
       (pair_codec enumeration_codec (vector_codec threshold_codec))))"

record link_cfg_status =
  lcs_type :: link_param_type
  lcs_thold :: threshold
  lcs_status :: bool

definition link_cfg_status_codec :: "link_cfg_status codec" where
  "link_cfg_status_codec = struct_codec
     (\<lambda>l. (lcs_type l, lcs_thold l, lcs_status l))
     (\<lambda>(t, h, s). \<lparr>lcs_type = t, lcs_thold = h, lcs_status = s\<rparr>)
     (pair_codec link_param_type_codec (pair_codec threshold_codec bool_codec))"

section \<open>Detected links and status reports\<close>

record link_det_info =
  ldi_id :: link_tuple_id
  ldi_network_id :: octet_string
  ldi_net_aux_id :: octet_string
  ldi_signal :: sig_strength
  ldi_sinr :: u16
  ldi_data_rate :: u32
  ldi_mih_capabilities :: bitmap
  ldi_net_capabilities :: bitmap

definition link_det_info_codec :: "link_det_info codec" where
  "link_det_info_codec = struct_codec
     (\<lambda>l. (ldi_id l, ldi_network_id l, ldi_net_aux_id l, ldi_signal l, ldi_sinr l, ldi_data_rate l,
           ldi_mih_capabilities l, ldi_net_capabilities l))
     (\<lambda>(i, n, x, g, s, d, m, c). \<lparr>ldi_id = i, ldi_network_id = n, ldi_net_aux_id = x, ldi_signal = g,
        ldi_sinr = s, ldi_data_rate = d, ldi_mih_capabilities = m, ldi_net_capabilities = c\<rparr>)
     (pair_codec link_tuple_id_codec (pair_codec octet_string_codec (pair_codec octet_string_codec
       (pair_codec sig_strength_codec (pair_codec u16_codec (pair_codec u32_codec
         (pair_codec (bitmap_codec 8) (bitmap_codec 32))))))))"

record link_poa_list =
  lpl_id :: link_id
  lpl_addr_list :: "link_addr list"

definition link_poa_list_codec :: "link_poa_list codec" where
  "link_poa_list_codec = struct_codec
     (\<lambda>l. (lpl_id l, lpl_addr_list l)) (\<lambda>(i, a). \<lparr>lpl_id = i, lpl_addr_list = a\<rparr>)
     (pair_codec link_id_codec (vector_codec link_addr_codec))"

record link_status_rsp =
  lsr_states_rsp_list :: "link_states_rsp list"
  lsr_param_list :: "link_param list"
  lsr_desc_rsp_list :: "link_desc_rsp list"

definition link_status_rsp_codec :: "(u8 \<Rightarrow> link_desc_rsp) \<Rightarrow> link_status_rsp codec" where
  "link_status_rsp_codec pick = struct_codec
     (\<lambda>l. (lsr_states_rsp_list l, lsr_param_list l, lsr_desc_rsp_list l))
     (\<lambda>(s, p, d). \<lparr>lsr_states_rsp_list = s, lsr_param_list = p, lsr_desc_rsp_list = d\<rparr>)
     (pair_codec (vector_codec link_states_rsp_codec) (pair_codec (vector_codec link_param_codec)
       (vector_codec (link_desc_rsp_codec pick))))"

record status_rsp =
  sr_id :: link_id
  sr_rsp :: link_status_rsp

definition status_rsp_codec :: "(u8 \<Rightarrow> link_desc_rsp) \<Rightarrow> status_rsp codec" where
  "status_rsp_codec pick = struct_codec
     (\<lambda>l. (sr_id l, sr_rsp l)) (\<lambda>(i, r). \<lparr>sr_id = i, sr_rsp = r\<rparr>)
     (pair_codec link_id_codec (link_status_rsp_codec pick))"

record configuration =
  cfg_key :: octet_string
  cfg_value :: octet_string

definition configuration_codec :: "configuration codec" where
  "configuration_codec = struct_codec
     (\<lambda>c. (cfg_key c, cfg_value c)) (\<lambda>(k, v). \<lparr>cfg_key = k, cfg_value = v\<rparr>)
     (pair_codec octet_string_codec octet_string_codec)"

section \<open>Capabilities\<close>

datatype evt_cfg_info = Cfg_link_det (eci_det: "link_det_cfg list") | Cfg_link_cfg_param (eci_cfg: "link_cfg_param list")

definition evt_cfg_info_codec :: "evt_cfg_info codec" where
  "evt_cfg_info_codec = variant_codec
     [alt is_Cfg_link_det eci_det Cfg_link_det (vector_codec link_det_cfg_codec),
      alt (Not \<circ> is_Cfg_link_det) eci_cfg Cfg_link_cfg_param (vector_codec link_cfg_param_codec)]"

record network_type =
  nt_link :: "u8 option"
  nt_subtype :: "bitmap option"
  nt_typeext :: "octet_string option"

definition network_type_codec :: "network_type codec" where
  "network_type_codec = struct_codec
     (\<lambda>n. (nt_link n, nt_subtype n, nt_typeext n))
     (\<lambda>(l, s, t). \<lparr>nt_link = l, nt_subtype = s, nt_typeext = t\<rparr>)
     (pair_codec (opt_codec enumeration_codec) (pair_codec (opt_codec (bitmap_codec 64))
       (opt_codec octet_string_codec)))"

record net_type_addr =
  nta_nettype :: network_type
  nta_addr :: link_addr

definition net_type_addr_codec :: "net_type_addr codec" where
  "net_type_addr_codec = struct_codec
     (\<lambda>n. (nta_nettype n, nta_addr n)) (\<lambda>(t, a). \<lparr>nta_nettype = t, nta_addr = a\<rparr>)
     (pair_codec network_type_codec link_addr_codec)"

record mbb_ho_supp =
  mbb_first :: network_type
  mbb_second :: network_type
  mbb_supported :: bool

definition mbb_ho_supp_codec :: "mbb_ho_supp codec" where
  "mbb_ho_supp_codec = struct_codec
     (\<lambda>m. (mbb_first m, mbb_second m, mbb_supported m))
     (\<lambda>(f, s, b). \<lparr>mbb_first = f, mbb_second = s, mbb_supported = b\<rparr>)
     (pair_codec network_type_codec (pair_codec network_type_codec bool_codec))"

section \<open>Mobility services\<close>

record mos_info =
  mos_id :: mihf_id
  mos_ip :: transport_addr
  mos_port :: u16

definition mos_info_codec :: "mos_info codec" where
  "mos_info_codec = struct_codec
     (\<lambda>m. (mos_id m, mos_ip m, mos_port m)) (\<lambda>(i, a, p). \<lparr>mos_id = i, mos_ip = a, mos_port = p\<rparr>)
     (pair_codec id_codec (pair_codec ip_addr_codec u16_codec))"

definition mos_info_eq :: "mos_info \<Rightarrow> mos_info \<Rightarrow> bool" where
  "mos_info_eq a b \<longleftrightarrow> mos_id a = mos_id b \<or> ip_addr_eq (mos_ip a) (mos_ip b) \<and> mos_port a = mos_port b"

record mos_dscv =
  mosd_is :: "mos_info list"
  mosd_cs :: "mos_info list"
  mosd_es :: "mos_info list"

definition mos_dscv_codec :: "mos_dscv codec" where
  "mos_dscv_codec = struct_codec
     (\<lambda>m. (mosd_is m, mosd_cs m, mosd_es m)) (\<lambda>(i, c, e). \<lparr>mosd_is = i, mosd_cs = c, mosd_es = e\<rparr>)
     (pair_codec (vector_codec mos_info_codec) (pair_codec (vector_codec mos_info_codec)
       (vector_codec mos_info_codec)))"

section \<open>The codecs meet their contract\<close>

lemma codec_law_of1: "codec_law1 c \<Longrightarrow> codec_law c"
  by (rule codec_law1.axioms(1))

lemma signal_laws1 [codec_intros]:
  "codec_law1 sig_strength_codec" "codec_law1 link_states_rsp_codec" "codec_law1 dev_states_rsp_codec"
  "codec_law1 threshold_codec" "codec_law1 link_action_codec"
  unfolding sig_strength_codec_def link_states_rsp_codec_def dev_states_rsp_codec_def
    threshold_codec_def link_action_codec_def
  by (intro codec_intros; auto)+

lemmas signal_laws [codec_intros] = signal_laws1 [THEN codec_law_of1]

lemma link_id_laws1 [codec_intros]: "codec_law1 link_id_codec" "codec_law1 link_tuple_id_codec"
  unfolding link_id_codec_def link_tuple_id_codec_def by (intro codec_intros; auto)+

lemmas link_id_laws [codec_intros] = link_id_laws1 [THEN codec_law_of1]

lemma link_scan_law1 [codec_intros]: "codec_law1 link_scan_rsp_codec"
  unfolding link_scan_rsp_codec_def by (intro codec_intros; auto)

lemma link_action_laws1 [codec_intros]:
  "codec_law1 link_action_req_codec" "codec_law1 link_action_rsp_codec" "codec_law1 link_det_cfg_codec"
  "codec_law1 pk_delay_codec"
  unfolding link_action_req_codec_def link_action_rsp_codec_def link_det_cfg_codec_def pk_delay_codec_def
  by (intro codec_intros; auto)+

lemma param_type_laws1 [codec_intros]:
  "codec_law1 link_param_type_codec" "codec_law1 qos_param_val_codec" "codec_law1 qos_list_codec"
  unfolding link_param_type_codec_def qos_param_val_codec_def qos_list_codec_def
  by (intro codec_intros; auto)+

lemmas param_type_laws [codec_intros] =
  param_type_laws1 [THEN codec_law_of1] link_action_laws1 [THEN codec_law_of1]

lemma link_param_laws1 [codec_intros]:
  "codec_law1 link_param_codec" "codec_law1 link_cfg_param_codec" "codec_law1 link_cfg_status_codec"
  "codec_law1 link_status_req_codec"
  unfolding link_param_codec_def link_cfg_param_codec_def link_cfg_status_codec_def link_status_req_codec_def
  by (intro codec_intros; auto)+

lemmas link_param_laws [codec_intros] = link_param_laws1 [THEN codec_law_of1]

lemma report_laws1 [codec_intros]:
  "codec_law1 link_param_report_codec" "codec_law1 link_det_info_codec" "codec_law1 link_poa_list_codec"
  "codec_law1 configuration_codec" "codec_law1 evt_cfg_info_codec" "codec_law1 network_type_codec"
  "codec_law1 mos_info_codec"
  unfolding link_param_report_codec_def link_det_info_codec_def link_poa_list_codec_def
    configuration_codec_def evt_cfg_info_codec_def network_type_codec_def mos_info_codec_def
  by (intro codec_intros; auto)+

lemmas report_laws [codec_intros] = report_laws1 [THEN codec_law_of1]

lemma capability_laws1 [codec_intros]:
  "codec_law1 mbb_ho_supp_codec" "codec_law1 mos_dscv_codec" "codec_law1 net_type_addr_codec"
  unfolding mbb_ho_supp_codec_def mos_dscv_codec_def net_type_addr_codec_def
  by (intro codec_intros; auto)+

section \<open>Properties of the data types\<close>

interpretation action_rsp_tlv: codec_law1 "tlv_codec 39 (vector_codec link_action_rsp_codec)"
  by (intro codec_intros)

text \<open>
  C11: A list of link action responses written as its TLV anywhere in a buffer is read back as
  the same list, scan results and optional members included, and the read ends where the
  write ended.
\<close>

theorem link_action_rsp_list_roundtrip:
  assumes "wf (tlv_codec 39 (vector_codec link_action_rsp_codec)) rsps"
    "length (pre @ enc (tlv_codec 39 (vector_codec link_action_rsp_codec)) rsps @ rest) < 2 ^ 32"
  shows "\<exists>out. put (tlv_codec 39 (vector_codec link_action_rsp_codec)) rsps
        \<lparr>o_buf = pre, o_pos = length pre, o_begin = b\<rparr> = (Inr (), out)
    \<and> get (tlv_codec 39 (vector_codec link_action_rsp_codec)) v
        \<lparr>i_buf = o_buf out @ rest, i_pos = length pre, i_begin = b', i_length = l\<rparr>
      = (Inr rsps, \<lparr>i_buf = o_buf out @ rest, i_pos = o_pos out, i_begin = b', i_length = l\<rparr>)"
  using assms by (rule action_rsp_tlv.written_is_read)

lemmas wire_defs = tlv_codec_def vector_codec_def struct_codec_def pair_codec_def variant_codec_def
  alt_def opt_codec_def null_codec_def octet_string_codec_def u8_codec_def u16_codec_def
  u32_codec_def s8_codec_def array_codec_def enumeration_codec_def percentage_codec_def
  bitmap_codec_def tlv_wf_def enc_tlv_def enc_bytes_def enc_len_def len_ok_def enc8_def

theorem link_action_rsp_list_roundtrip_witness:
  "\<exists>out. put (tlv_codec 39 (vector_codec link_action_rsp_codec))
        [\<lparr>larsp_id = \<lparr>lid_type = 19, lid_addr = Other_l2_addr ''ab''\<rparr>, larsp_result = 1, larsp_scan_list = None\<rparr>]
        \<lparr>o_buf = [], o_pos = 0, o_begin = 0\<rparr> = (Inr (), out)
    \<and> get (tlv_codec 39 (vector_codec link_action_rsp_codec)) []
        \<lparr>i_buf = o_buf out, i_pos = 0, i_begin = 0, i_length = 9\<rparr>
      = (Inr [\<lparr>larsp_id = \<lparr>lid_type = 19, lid_addr = Other_l2_addr ''ab''\<rparr>, larsp_result = 1, larsp_scan_list = None\<rparr>],
         \<lparr>i_buf = o_buf out, i_pos = o_pos out, i_begin = 0, i_length = 9\<rparr>)"
proof -
  let ?x = "[\<lparr>larsp_id = \<lparr>lid_type = 19, lid_addr = Other_l2_addr ''ab''\<rparr>, larsp_result = 1, larsp_scan_list = None\<rparr>]"
  have "wf (tlv_codec 39 (vector_codec link_action_rsp_codec)) ?x"
      "length ([] @ enc (tlv_codec 39 (vector_codec link_action_rsp_codec)) ?x @ []) < 2 ^ 32"
    by (simp_all add: wire_defs link_action_rsp_codec_def link_id_codec_def link_addr_codec_def)
  from link_action_rsp_list_roundtrip [OF this, of 0 "[]" 0 9] show ?thesis by simp
qed

lemma link_addr_eq_iff: "link_addr_eq a b \<longleftrightarrow> a = b"
  by (cases a; cases b)
    (auto simp: mac_addr_eq_def mac_address_inject
      intro: transport_addr.equality l2_3gpp_2g_cell_id.equality l2_3gpp_3g_cell_id.equality)

text \<open>
  The comparison of two link tuple identifiers looks at the link type and the link address
  only: the address of the point of attachment, which the wire format carries, makes no
  difference.
\<close>

theorem link_tuple_id_eq_ignores_poa:
  "(link_tuple_id_eq l m \<longleftrightarrow> lid_type l = lid_type m \<and> lid_addr l = lid_addr m)
    \<and> link_tuple_id_eq l (l\<lparr>poa_addr := p\<rparr>)"
  by (auto simp: link_tuple_id_eq_def link_id_eq_def link_addr_eq_iff)

text \<open>
  Whichever alternative the variant of a link descriptor response selects for an octet,
  one of its two kinds of values is not read back: the number of queues is read as a number
  of classes of service, or the other way round.
\<close>

theorem link_desc_rsp_alternative_lost:
  "\<exists>x. \<forall>v. \<exists>out y ar. put (link_desc_rsp_codec pick) x \<lparr>o_buf = [], o_pos = 0, o_begin = 0\<rparr> = (Inr (), out)
    \<and> get (link_desc_rsp_codec pick) v \<lparr>i_buf = o_buf out, i_pos = 0, i_begin = 0, i_length = 2\<rparr> = (Inr y, ar)
    \<and> y \<noteq> x"
proof -
  let ?o = "\<lparr>o_buf = [], o_pos = 0, o_begin = 0\<rparr>"
  have put: "put (link_desc_rsp_codec pick) (Num_cos 0) ?o = (Inr (), \<lparr>o_buf = [0, 0], o_pos = 2, o_begin = 0\<rparr>)"
      "put (link_desc_rsp_codec pick) (Num_queue 0) ?o = (Inr (), \<lparr>o_buf = [1, 0], o_pos = 2, o_begin = 0\<rparr>)"
    by (simp_all add: link_desc_rsp_codec_def variant_codec_def variant_put_def alt_def u8_codec_def
        o_uint8_def o_write_def seq_def bnd_def)
  have get: "get (link_desc_rsp_codec pick) v \<lparr>i_buf = [s, 0], i_pos = 0, i_begin = 0, i_length = 2\<rparr>
      = (Inr (pick 0), \<lparr>i_buf = [s, 0], i_pos = 2, i_begin = 0, i_length = 2\<rparr>)" if "s = 0 \<or> s = 1" for s v
    using that by (auto simp: link_desc_rsp_codec_def variant_codec_def variant_get_def alt_def u8_codec_def
        i_uint8_def i_take_def bnd_def)
  show ?thesis
  proof (cases "is_Num_cos (pick 0)")
    case True
    then have "pick 0 \<noteq> Num_queue 0" by auto
    then show ?thesis using put(2) get [of 1] by (intro exI [of _ "Num_queue 0"]) auto
  next
    case False
    then have "pick 0 \<noteq> Num_cos 0" by auto
    then show ?thesis using put(1) get [of 0] by (intro exI [of _ "Num_cos 0"]) auto
  qed
qed

end
