(* ===== verification/Mihf_Books.thy ===== *)
theory Mihf_Books
  imports Mih_Link_Types
begin

text \<open>
  The three registries of the MIHF: known peer MIHFs (\<open>src/mihf/address_book.cpp\<close>), Link SAPs
  (\<open>src/mihf/link_book.cpp\<close>) and MIH users (\<open>src/mihf/user_book.cpp\<close>). Each is a \<open>std::map\<close>
  from identifiers to entries behind a mutex; an operation is one critical section.
\<close>

section \<open>Address book\<close>

record address_entry =
  ae_ip :: octet_string
  ae_port :: u16
  ae_list_net_type_addr :: "net_type_addr list option"
  ae_event_list :: "bitmap option"
  ae_cmd_list :: "bitmap option"
  ae_query_type :: "bitmap option"
  ae_trans_list :: "bitmap option"
  ae_mbb_ho_supp :: "mbb_ho_supp list option"
  ae_reg_link_list :: "link_id list option"
  ae_reg_interval :: "u16 option"

type_synonym address_book = "(mihf_id, address_entry) stdmap"

definition abook_add :: "mihf_id \<Rightarrow> address_entry \<Rightarrow> address_book \<Rightarrow> address_book" where
  "abook_add ident entry_info b =
     (let entry_info = (case map_of b ident of
            None \<Rightarrow> entry_info
          | Some e \<Rightarrow> entry_info\<lparr>ae_ip := ae_ip e, ae_port := ae_port e\<rparr>) in
      map_store ident entry_info b)"

definition abook_set_registration_links :: "mihf_id \<Rightarrow> link_id list option \<Rightarrow> address_book \<Rightarrow> address_book" where
  "abook_set_registration_links ident reg_link_list =
     map_modify ident (\<lambda>e. e\<lparr>ae_reg_link_list := reg_link_list, ae_reg_interval := Some 0\<rparr>)"

definition abook_set_registration_interval :: "mihf_id \<Rightarrow> u16 option \<Rightarrow> address_book \<Rightarrow> address_book" where
  "abook_set_registration_interval ident reg_interval =
     map_modify ident (\<lambda>e. e\<lparr>ae_reg_interval := reg_interval\<rparr>)"

definition abook_set_ip :: "mihf_id \<Rightarrow> octet_string \<Rightarrow> address_book \<Rightarrow> address_book" where
  "abook_set_ip ident ip = map_modify ident (\<lambda>e. e\<lparr>ae_ip := ip\<rparr>)"

definition abook_set_port :: "mihf_id \<Rightarrow> u16 \<Rightarrow> address_book \<Rightarrow> address_book" where
  "abook_set_port ident port = map_modify ident (\<lambda>e. e\<lparr>ae_port := port\<rparr>)"

definition abook_set_link_address_list :: "mihf_id \<Rightarrow> net_type_addr list option \<Rightarrow> address_book \<Rightarrow> address_book" where
  "abook_set_link_address_list ident l = map_modify ident (\<lambda>e. e\<lparr>ae_list_net_type_addr := l\<rparr>)"

definition abook_set_event_list :: "mihf_id \<Rightarrow> bitmap option \<Rightarrow> address_book \<Rightarrow> address_book" where
  "abook_set_event_list ident l = map_modify ident (\<lambda>e. e\<lparr>ae_event_list := l\<rparr>)"

definition abook_set_command_list :: "mihf_id \<Rightarrow> bitmap option \<Rightarrow> address_book \<Rightarrow> address_book" where
  "abook_set_command_list ident l = map_modify ident (\<lambda>e. e\<lparr>ae_cmd_list := l\<rparr>)"

definition abook_set_query_list :: "mihf_id \<Rightarrow> bitmap option \<Rightarrow> address_book \<Rightarrow> address_book" where
  "abook_set_query_list ident l = map_modify ident (\<lambda>e. e\<lparr>ae_query_type := l\<rparr>)"

definition abook_set_transport_list :: "mihf_id \<Rightarrow> bitmap option \<Rightarrow> address_book \<Rightarrow> address_book" where
  "abook_set_transport_list ident l = map_modify ident (\<lambda>e. e\<lparr>ae_trans_list := l\<rparr>)"

definition abook_set_handover_list :: "mihf_id \<Rightarrow> mbb_ho_supp list option \<Rightarrow> address_book \<Rightarrow> address_book" where
  "abook_set_handover_list ident l = map_modify ident (\<lambda>e. e\<lparr>ae_mbb_ho_supp := l\<rparr>)"

definition abook_del :: "mihf_id \<Rightarrow> address_book \<Rightarrow> address_book" where
  "abook_del ident b = map_erase ident b"

definition abook_get :: "address_book \<Rightarrow> mihf_id \<Rightarrow> exn + address_entry" where
  "abook_get b ident = (case map_of b ident of None \<Rightarrow> Inl no_address_entry | Some e \<Rightarrow> Inr e)"

text \<open>The timer handler; \<open>uint16\<close> wraps below zero.\<close>

definition abook_tick :: "address_book \<Rightarrow> address_book" where
  "abook_tick b = map (\<lambda>(ident, e). (ident, e\<lparr>ae_reg_interval := map_option (\<lambda>n. n - 1) (ae_reg_interval e)\<rparr>)) b"

section \<open>Link book\<close>

record link_entry =
  le_ip :: octet_string
  le_port :: u16
  le_link_id :: link_id
  le_event_list :: bitmap
  le_cmd_list :: bitmap
  le_fail :: u16
  le_status :: bool

type_synonym link_book = "(mihf_id, link_entry) stdmap"

definition lbook_add :: "mihf_id \<Rightarrow> octet_string \<Rightarrow> u16 \<Rightarrow> link_id \<Rightarrow> link_book \<Rightarrow> link_book" where
  "lbook_add ident ip port lid b = map_store ident
     \<lparr>le_ip = ip, le_port = port, le_link_id = lid, le_event_list = bm_new 32, le_cmd_list = bm_new 32,
      le_fail = 0, le_status = True\<rparr> b"

definition lbook_set_ip :: "mihf_id \<Rightarrow> octet_string \<Rightarrow> link_book \<Rightarrow> link_book" where
  "lbook_set_ip ident ip = map_modify ident (\<lambda>e. e\<lparr>le_ip := ip\<rparr>)"

definition lbook_set_port :: "mihf_id \<Rightarrow> u16 \<Rightarrow> link_book \<Rightarrow> link_book" where
  "lbook_set_port ident port = map_modify ident (\<lambda>e. e\<lparr>le_port := port\<rparr>)"

definition lbook_update_capabilities :: "mihf_id \<Rightarrow> bitmap \<Rightarrow> bitmap \<Rightarrow> link_book \<Rightarrow> link_book" where
  "lbook_update_capabilities ident event_list cmd_list =
     map_modify ident (\<lambda>e. e\<lparr>le_event_list := event_list, le_cmd_list := cmd_list\<rparr>)"

definition lbook_del :: "mihf_id \<Rightarrow> link_book \<Rightarrow> link_book" where
  "lbook_del ident b = map_erase ident b"

definition lbook_inactive :: "mihf_id \<Rightarrow> link_book \<Rightarrow> link_book" where
  "lbook_inactive ident = map_modify ident (\<lambda>e. e\<lparr>le_status := False\<rparr>)"

definition lbook_get :: "link_book \<Rightarrow> mihf_id \<Rightarrow> exn + link_entry" where
  "lbook_get b ident = (case map_of b ident of None \<Rightarrow> Inl unknown_link_sap | Some e \<Rightarrow> Inr e)"

definition lbook_get_ids :: "link_book \<Rightarrow> mihf_id list" where
  "lbook_get_ids b = map_keys b"

text \<open>The first entry in key order with that type and address that is active, or the empty identifier.\<close>

fun lbook_search_interface :: "u8 \<Rightarrow> link_addr \<Rightarrow> link_book \<Rightarrow> mihf_id" where
  "lbook_search_interface lt la [] = []"
| "lbook_search_interface lt la ((ident, e) # es) =
     (if lid_type (le_link_id e) = lt \<and> link_addr_eq (lid_addr (le_link_id e)) la \<and> le_status e then ident
      else lbook_search_interface lt la es)"

definition lbook_fail :: "mihf_id \<Rightarrow> (link_book, u16) eff" where
  "lbook_fail ident b =
     (case map_of b ident of
        None \<Rightarrow> (Inl unknown_link_sap, b)
      | Some e \<Rightarrow> (Inr (le_fail e + 1), map_store ident (e\<lparr>le_fail := le_fail e + 1\<rparr>) b))"

definition lbook_reset :: "mihf_id \<Rightarrow> (link_book, unit) eff" where
  "lbook_reset ident b =
     (case map_of b ident of
        None \<Rightarrow> (Inl unknown_link_sap, b)
      | Some e \<Rightarrow> (Inr (), map_store ident (e\<lparr>le_fail := 0, le_status := True\<rparr>) b))"

section \<open>User book\<close>

record user_entry =
  ue_ip :: octet_string
  ue_port :: u16
  ue_supp_cmd :: "bitmap option"
  ue_supp_iq :: "bitmap option"

type_synonym user_book = "(mihf_id, user_entry) stdmap"

definition ubook_add :: "mihf_id \<Rightarrow> octet_string \<Rightarrow> u16 \<Rightarrow> bitmap option \<Rightarrow> bitmap option \<Rightarrow> user_book \<Rightarrow> user_book" where
  "ubook_add ident ip port supp_cmd supp_iq b = map_store ident
     \<lparr>ue_ip = ip, ue_port = port, ue_supp_cmd = supp_cmd, ue_supp_iq = supp_iq\<rparr> b"

text \<open>
  \<open>set_ip\<close> and \<open>set_port\<close> test \<open>it == _ubook.end()\<close> before they write through the iterator.
\<close>

definition ubook_set_ip :: "mihf_id \<Rightarrow> octet_string \<Rightarrow> (user_book, unit) eff" where
  "ubook_set_ip ident ip b =
     (case map_of b ident of None \<Rightarrow> (Inl undefined_behaviour, b) | Some _ \<Rightarrow> (Inr (), b))"

definition ubook_set_port :: "mihf_id \<Rightarrow> u16 \<Rightarrow> (user_book, unit) eff" where
  "ubook_set_port ident port b =
     (case map_of b ident of None \<Rightarrow> (Inl undefined_behaviour, b) | Some _ \<Rightarrow> (Inr (), b))"

definition ubook_del :: "mihf_id \<Rightarrow> user_book \<Rightarrow> user_book" where
  "ubook_del ident b = map_erase ident b"

definition ubook_get :: "user_book \<Rightarrow> mihf_id \<Rightarrow> exn + user_entry" where
  "ubook_get b ident = (case map_of b ident of None \<Rightarrow> Inl unknown_mih_user | Some e \<Rightarrow> Inr e)"

definition ubook_get_ids :: "user_book \<Rightarrow> mihf_id list" where
  "ubook_get_ids b = map_keys b"

definition ubook_information_user :: "user_book \<Rightarrow> mihf_id option" where
  "ubook_information_user b = None"

section \<open>The contract of a setter\<close>

text \<open>
  Every setter of a book looks an identifier up and, if it is registered, changes its entry in
  place. \<open>entry_setter\<close> is that contract, \<open>change\<close> the change of the entry.
\<close>

locale entry_setter =
  fixes setter :: "'k::linorder \<Rightarrow> 'a \<Rightarrow> ('k, 'e) stdmap \<Rightarrow> ('k, 'e) stdmap"
    and change :: "'a \<Rightarrow> 'e \<Rightarrow> 'e"
  assumes setter_modify: "setter k a m = map_modify k (change a) m"
begin

lemma set_ok: "map_ok m \<Longrightarrow> map_ok (setter k a m)"
  by (simp add: setter_modify map_ok_modify)

lemma set_keys: "map_ok m \<Longrightarrow> map_keys (setter k a m) = map_keys m"
  by (simp add: setter_modify map_keys_modify)

lemma set_look: "map_ok m \<Longrightarrow> map_of (setter k a m) j
    = (if j = k then map_option (change a) (map_of m k) else map_of m j)"
  by (simp add: setter_modify map_of_modify)

lemma set_unknown: "map_of m k = None \<Longrightarrow> setter k a m = m"
  by (simp add: setter_modify map_modify_def)

end

interpretation abook_reg_links: entry_setter abook_set_registration_links
    "\<lambda>l e. e\<lparr>ae_reg_link_list := l, ae_reg_interval := Some 0\<rparr>"
  by unfold_locales (simp add: abook_set_registration_links_def)

interpretation abook_reg_interval: entry_setter abook_set_registration_interval "\<lambda>n e. e\<lparr>ae_reg_interval := n\<rparr>"
  by unfold_locales (simp add: abook_set_registration_interval_def)

interpretation abook_ip: entry_setter abook_set_ip "\<lambda>ip e. e\<lparr>ae_ip := ip\<rparr>"
  by unfold_locales (simp add: abook_set_ip_def)

interpretation abook_port: entry_setter abook_set_port "\<lambda>p e. e\<lparr>ae_port := p\<rparr>"
  by unfold_locales (simp add: abook_set_port_def)

interpretation abook_link_addresses: entry_setter abook_set_link_address_list "\<lambda>l e. e\<lparr>ae_list_net_type_addr := l\<rparr>"
  by unfold_locales (simp add: abook_set_link_address_list_def)

interpretation abook_events: entry_setter abook_set_event_list "\<lambda>l e. e\<lparr>ae_event_list := l\<rparr>"
  by unfold_locales (simp add: abook_set_event_list_def)

interpretation abook_commands: entry_setter abook_set_command_list "\<lambda>l e. e\<lparr>ae_cmd_list := l\<rparr>"
  by unfold_locales (simp add: abook_set_command_list_def)

interpretation abook_queries: entry_setter abook_set_query_list "\<lambda>l e. e\<lparr>ae_query_type := l\<rparr>"
  by unfold_locales (simp add: abook_set_query_list_def)

interpretation abook_transports: entry_setter abook_set_transport_list "\<lambda>l e. e\<lparr>ae_trans_list := l\<rparr>"
  by unfold_locales (simp add: abook_set_transport_list_def)

interpretation abook_handovers: entry_setter abook_set_handover_list "\<lambda>l e. e\<lparr>ae_mbb_ho_supp := l\<rparr>"
  by unfold_locales (simp add: abook_set_handover_list_def)

interpretation lbook_ip: entry_setter lbook_set_ip "\<lambda>ip e. e\<lparr>le_ip := ip\<rparr>"
  by unfold_locales (simp add: lbook_set_ip_def)

interpretation lbook_port: entry_setter lbook_set_port "\<lambda>p e. e\<lparr>le_port := p\<rparr>"
  by unfold_locales (simp add: lbook_set_port_def)

interpretation lbook_off: entry_setter "\<lambda>k (_ :: unit). lbook_inactive k" "\<lambda>_ e. e\<lparr>le_status := False\<rparr>"
  by unfold_locales (simp add: lbook_inactive_def)

section \<open>Lemmas\<close>

lemma abook_add_ok: "map_ok b \<Longrightarrow> map_ok (abook_add i e b)"
  by (simp add: abook_add_def Let_def map_ok_store)

lemma abook_tick_ok: "map_ok b \<Longrightarrow> map_ok (abook_tick b)"
  by (simp add: abook_tick_def map_ok_def comp_def case_prod_beta)

lemma abook_tick_look:
  "map_of (abook_tick b) i
     = map_option (\<lambda>e. e\<lparr>ae_reg_interval := map_option (\<lambda>n. n - 1) (ae_reg_interval e)\<rparr>) (map_of b i)"
  by (induction b) (auto simp: abook_tick_def)

lemma lbook_eff_ok:
  "map_ok b \<Longrightarrow> map_ok (snd (lbook_fail i b))" "map_ok b \<Longrightarrow> map_ok (snd (lbook_reset i b))"
  "map_ok b \<Longrightarrow> map_ok (lbook_add i ip p l b)"
  by (simp_all add: lbook_fail_def lbook_reset_def lbook_add_def map_ok_store split: option.split)

text \<open>What \<open>search_interface\<close> looks for in an entry.\<close>

definition is_interface :: "u8 \<Rightarrow> link_addr \<Rightarrow> link_entry \<Rightarrow> bool" where
  "is_interface lt la e \<longleftrightarrow> lid_type (le_link_id e) = lt \<and> lid_addr (le_link_id e) = la \<and> le_status e"

lemma search_interface_found:
  assumes "map_ok b" "map_of b i = Some e" "is_interface lt la e"
  shows "\<exists>e'. map_of b (lbook_search_interface lt la b) = Some e' \<and> is_interface lt la e'
    \<and> lbook_search_interface lt la b \<le> i"
  using assms
proof (induction b)
  case (Cons x b)
  obtain j f where x: "x = (j, f)" by (cases x)
  show ?case
  proof (cases "is_interface lt la f")
    case True
    then show ?thesis using Cons.prems x
      by (auto simp: is_interface_def link_addr_eq_iff map_ok_def dest!: map_of_SomeD split: if_splits)
  next
    case False
    then have ne: "j \<noteq> i" using Cons.prems(2,3) x by auto
    have ok: "map_ok b" using Cons.prems(1) by (simp add: map_ok_def)
    from Cons.IH [OF ok] Cons.prems(2,3) ne x
    obtain e' where e': "map_of b (lbook_search_interface lt la b) = Some e'" "is_interface lt la e'"
        "lbook_search_interface lt la b \<le> i" by auto
    have "j \<noteq> lbook_search_interface lt la b"
      using Cons.prems(1) e'(1) x by (auto simp: map_ok_def dest!: map_of_SomeD)
    then show ?thesis using False e' x by (auto simp: is_interface_def link_addr_eq_iff)
  qed
qed simp

lemma search_interface_none:
  "\<forall>i e. map_of b i = Some e \<longrightarrow> \<not> is_interface lt la e \<Longrightarrow> map_ok b \<Longrightarrow> lbook_search_interface lt la b = []"
proof (induction b)
  case (Cons x b)
  obtain j f where x: "x = (j, f)" by (cases x)
  have "map_of b j = None"
    using Cons.prems(2) x by (auto simp: map_ok_def map_of_eq_None_iff)
  then have "\<forall>i e. map_of b i = Some e \<longrightarrow> \<not> is_interface lt la e"
    using Cons.prems(1) x by (metis map_of_Cons_code(2) option.distinct(1))
  moreover have "\<not> is_interface lt la f" using Cons.prems(1) x by (metis map_of_Cons_code(2))
  ultimately show ?case using Cons x by (auto simp: is_interface_def link_addr_eq_iff map_ok_def)
qed simp

section \<open>Properties of the books\<close>


definition sap_wifi :: link_entry where
  "sap_wifi = \<lparr>le_ip = ''127.0.0.1'', le_port = 1025,
     le_link_id = \<lparr>lid_type = 19, lid_addr = Other_l2_addr ''a''\<rparr>,
     le_event_list = bm_new 32, le_cmd_list = bm_new 32, le_fail = 0, le_status = True\<rparr>"


text \<open>The entries after a change of the one at \<open>i\<close>, if there is one.\<close>

definition set_entry :: "'k \<Rightarrow> ('v \<Rightarrow> 'v) \<Rightarrow> ('k \<times> 'v) list \<Rightarrow> 'k \<rightharpoonup> 'v" where
  "set_entry i f b j = (if j = i then map_option f (map_of b i) else map_of b j)"

text \<open>
  C30: What the operations of the address book do to its entries. Each setter replaces its own
  field in the entry of the identifier it is given, keeps every other field and every other entry,
  registers nothing new and does nothing for an unknown identifier; the one for the registration
  links sets the interval to 0 as well. \<open>add\<close> registers the entry but keeps the address and port of
  an identifier that is known already; \<open>del\<close> removes exactly its identifier.
\<close>

theorem address_book_frame:
  assumes "map_ok b"
  shows "map_of (abook_set_ip i ip b) = set_entry i (\<lambda>e. e\<lparr>ae_ip := ip\<rparr>) b
    \<and> map_of (abook_set_port i p b) = set_entry i (\<lambda>e. e\<lparr>ae_port := p\<rparr>) b
    \<and> map_of (abook_set_link_address_list i a b) = set_entry i (\<lambda>e. e\<lparr>ae_list_net_type_addr := a\<rparr>) b
    \<and> map_of (abook_set_event_list i ev b) = set_entry i (\<lambda>e. e\<lparr>ae_event_list := ev\<rparr>) b
    \<and> map_of (abook_set_command_list i ev b) = set_entry i (\<lambda>e. e\<lparr>ae_cmd_list := ev\<rparr>) b
    \<and> map_of (abook_set_query_list i ev b) = set_entry i (\<lambda>e. e\<lparr>ae_query_type := ev\<rparr>) b
    \<and> map_of (abook_set_transport_list i ev b) = set_entry i (\<lambda>e. e\<lparr>ae_trans_list := ev\<rparr>) b
    \<and> map_of (abook_set_handover_list i h b) = set_entry i (\<lambda>e. e\<lparr>ae_mbb_ho_supp := h\<rparr>) b
    \<and> map_of (abook_set_registration_interval i n b) = set_entry i (\<lambda>e. e\<lparr>ae_reg_interval := n\<rparr>) b
    \<and> map_of (abook_set_registration_links i l b) = set_entry i (\<lambda>e. e\<lparr>ae_reg_link_list := l, ae_reg_interval := Some 0\<rparr>) b
    \<and> map_of (abook_add i e b) = (map_of b)(i \<mapsto> (case map_of b i of None \<Rightarrow> e
        | Some old \<Rightarrow> e\<lparr>ae_ip := ae_ip old, ae_port := ae_port old\<rparr>))
    \<and> map_of (abook_del i b) = (map_of b)(i := None)
    \<and> abook_get b j = (case map_of b j of None \<Rightarrow> Inl no_address_entry | Some x \<Rightarrow> Inr x)"
proof -
  have add: "map_of (abook_add i e b) = (map_of b)(i \<mapsto> (case map_of b i of None \<Rightarrow> e
        | Some old \<Rightarrow> e\<lparr>ae_ip := ae_ip old, ae_port := ae_port old\<rparr>))"
    using assms by (simp add: abook_add_def Let_def map_of_store)
  have del: "map_of (abook_del i b) = (map_of b)(i := None)"
    by (simp add: abook_del_def map_of_erase)
  show ?thesis
    using add del
    by (simp add: fun_eq_iff set_entry_def abook_get_def abook_reg_links.set_look [OF assms] abook_reg_interval.set_look [OF assms]
      abook_ip.set_look [OF assms] abook_port.set_look [OF assms] abook_link_addresses.set_look [OF assms]
      abook_events.set_look [OF assms] abook_commands.set_look [OF assms] abook_queries.set_look [OF assms]
      abook_transports.set_look [OF assms] abook_handovers.set_look [OF assms])
qed

definition peer_entry :: address_entry where
  "peer_entry = \<lparr>ae_ip = ''10.0.0.2'', ae_port = 4551, ae_list_net_type_addr = None, ae_event_list = None,
     ae_cmd_list = None, ae_query_type = None, ae_trans_list = None, ae_mbb_ho_supp = None,
     ae_reg_link_list = None, ae_reg_interval = None\<rparr>"

theorem address_book_frame_witness:
  "map_of (abook_set_port ''m1'' 5000 [(''m1'', peer_entry), (''m2'', peer_entry)]) ''m1'' = Some (peer_entry\<lparr>ae_port := 5000\<rparr>)
   \<and> map_of (abook_set_port ''m1'' 5000 [(''m1'', peer_entry), (''m2'', peer_entry)]) ''m2'' = Some peer_entry"
proof -
  have "map_ok [(''m1'', peer_entry), (''m2'', peer_entry)]" by (simp add: map_ok_def)
  from address_book_frame [OF this, of "''m1''" "[]" 5000 None None None None None peer_entry] show ?thesis
    by (simp add: set_entry_def)
qed

text \<open>
  C33: The registration timer runs below zero. A registration request stores the interval 0 with
  the link list; the next tick of the timer turns it into 65535 seconds instead of leaving it
  expired.
\<close>

theorem registration_interval_wraps:
  assumes "map_ok b" "map_of b i = Some e"
  shows "map_of (abook_tick (abook_set_registration_links i l b)) i
    = Some (e\<lparr>ae_reg_link_list := l, ae_reg_interval := Some 65535\<rparr>)"
  using assms by (simp add: abook_tick_look abook_reg_links.set_look)

theorem registration_interval_wraps_witness:
  "map_of (abook_tick (abook_set_registration_links ''m1'' None [(''m1'', peer_entry)])) ''m1''
    = Some (peer_entry\<lparr>ae_reg_link_list := None, ae_reg_interval := Some 65535\<rparr>)"
  by (rule registration_interval_wraps) (simp_all add: map_ok_def)

end
