(* ===== verification/Mih_Message.thy ===== *)
theory Mih_Message
  imports Mih_Link_Types
begin

text \<open>
  MIH frames (\<open>inc/odtone/mih/frame.hpp\<close>), messages (\<open>inc/odtone/mih/message.hpp\<close>,
  \<open>lib/odtone/mih/message.cpp\<close>) and the messages with sender metadata of the MIHF
  (\<open>src/mihf/meta_message.cpp\<close>). The lemmas relate the fields of a message to the octets of
  its frame in both directions.
\<close>

section \<open>Frames\<close>

text \<open>
  A frame is the octets of the header followed by the payload. A setter asserts the range of
  its argument where the code does.
\<close>

type_synonym frame = "u8 list"

definition mask_version :: u8 where "mask_version = 0xf0"
definition mask_ackreq :: u8 where "mask_ackreq = 0x08"
definition mask_ackrsp :: u8 where "mask_ackrsp = 0x04"
definition mask_uir :: u8 where "mask_uir = 0x02"
definition mask_m :: u8 where "mask_m = 0x01"
definition mask_fn :: u8 where "mask_fn = 0xfe"
definition mask_rsvd1 :: u8 where "mask_rsvd1 = 0x01"
definition mask_sid :: u8 where "mask_sid = 0xf0"
definition mask_opcode :: u8 where "mask_opcode = 0x0d"
definition mask_aid :: u8 where "mask_aid = 0x03"
definition mask_rsvd2 :: u8 where "mask_rsvd2 = 0xf0"
definition mask_tid :: u8 where "mask_tid = 0xff"

lemmas mask_defs = mask_version_def mask_ackreq_def mask_ackrsp_def mask_uir_def mask_m_def
  mask_fn_def mask_rsvd1_def mask_sid_def mask_opcode_def mask_aid_def mask_rsvd2_def mask_tid_def

definition set_hdr :: "nat \<Rightarrow> u8 \<Rightarrow> u8 \<Rightarrow> frame \<Rightarrow> frame" where
  "set_hdr i msk v fm = fm[i := fm ! i AND NOT msk OR v]"

definition u8_of_bool :: "bool \<Rightarrow> u8" where
  "u8_of_bool b = (if b then 1 else 0)"

definition frame_set_version :: "u8 \<Rightarrow> (frame, unit) eff" where
  "frame_set_version v = (if v AND NOT (drop_bit 4 mask_version) \<noteq> 0 then throw bug_assert
     else upd (set_hdr 0 mask_version (push_bit 4 v)))"

definition frame_set_ackreq :: "bool \<Rightarrow> (frame, unit) eff" where
  "frame_set_ackreq v = upd (set_hdr 0 mask_ackreq (push_bit 3 (u8_of_bool v)))"

definition frame_set_ackrsp :: "bool \<Rightarrow> (frame, unit) eff" where
  "frame_set_ackrsp v = upd (set_hdr 0 mask_ackrsp (push_bit 2 (u8_of_bool v)))"

definition frame_set_uir :: "bool \<Rightarrow> (frame, unit) eff" where
  "frame_set_uir v = upd (set_hdr 0 mask_uir (push_bit 1 (u8_of_bool v)))"

definition frame_set_m :: "bool \<Rightarrow> (frame, unit) eff" where
  "frame_set_m v = upd (set_hdr 0 mask_m (u8_of_bool v))"

definition frame_set_fn :: "u8 \<Rightarrow> (frame, unit) eff" where
  "frame_set_fn v = (if v AND NOT (drop_bit 1 mask_fn) \<noteq> 0 then throw bug_assert
     else upd (set_hdr 1 mask_fn (push_bit 1 v)))"

definition frame_set_sid :: "u8 \<Rightarrow> (frame, unit) eff" where
  "frame_set_sid v = (if v AND NOT (drop_bit 4 mask_sid) \<noteq> 0 then throw bug_assert
     else upd (set_hdr 2 mask_sid (push_bit 4 v)))"

definition frame_set_opcode :: "u8 \<Rightarrow> (frame, unit) eff" where
  "frame_set_opcode v = (if v AND NOT (drop_bit 2 mask_opcode) \<noteq> 0 then throw bug_assert
     else upd (set_hdr 2 mask_opcode (push_bit 2 v)))"

definition frame_set_aid :: "u16 \<Rightarrow> (frame, unit) eff" where
  "frame_set_aid v = (if v AND 0xfc00 \<noteq> 0 then throw bug_assert
     else upd (\<lambda>fm. (set_hdr 2 mask_aid (byte_at 8 v) fm)[3 := byte_at 0 v]))"

definition frame_set_mid :: "u16 \<Rightarrow> (frame, unit) eff" where
  "frame_set_mid v = upd (\<lambda>fm. fm[2 := byte_at 8 v, 3 := byte_at 0 v])"

definition frame_set_tid :: "u16 \<Rightarrow> (frame, unit) eff" where
  "frame_set_tid v = upd (\<lambda>fm. (set_hdr 4 mask_tid (byte_at 8 v) fm)[5 := byte_at 0 v])"

definition frame_set_plength :: "u16 \<Rightarrow> (frame, unit) eff" where
  "frame_set_plength v = upd (\<lambda>fm. fm[6 := byte_at 8 v, 7 := byte_at 0 v])"

definition frame_version :: "frame \<Rightarrow> u8" where
  "frame_version fm = drop_bit 4 (fm ! 0 AND mask_version)"

definition frame_ackreq :: "frame \<Rightarrow> bool" where
  "frame_ackreq fm \<longleftrightarrow> drop_bit 3 (fm ! 0 AND mask_ackreq) \<noteq> 0"

definition frame_ackrsp :: "frame \<Rightarrow> bool" where
  "frame_ackrsp fm \<longleftrightarrow> drop_bit 2 (fm ! 0 AND mask_ackrsp) \<noteq> 0"

definition frame_uir :: "frame \<Rightarrow> bool" where
  "frame_uir fm \<longleftrightarrow> drop_bit 1 (fm ! 0 AND mask_uir) \<noteq> 0"

definition frame_m :: "frame \<Rightarrow> bool" where
  "frame_m fm \<longleftrightarrow> fm ! 0 AND mask_m \<noteq> 0"

definition frame_fn :: "frame \<Rightarrow> u8" where
  "frame_fn fm = drop_bit 1 (fm ! 1 AND mask_fn)"

definition frame_rsvd1 :: "frame \<Rightarrow> bool" where
  "frame_rsvd1 fm \<longleftrightarrow> fm ! 1 AND mask_rsvd1 \<noteq> 0"

definition frame_sid :: "frame \<Rightarrow> u8" where
  "frame_sid fm = drop_bit 4 (fm ! 2 AND mask_sid)"

definition frame_opcode :: "frame \<Rightarrow> u8" where
  "frame_opcode fm = drop_bit 2 (fm ! 2 AND mask_opcode)"

definition frame_aid :: "frame \<Rightarrow> u16" where
  "frame_aid fm = push_bit 8 (ucast (fm ! 2 AND mask_aid)) OR ucast (fm ! 3)"

definition frame_mid :: "frame \<Rightarrow> u16" where
  "frame_mid fm = push_bit 8 (ucast (fm ! 2)) OR ucast (fm ! 3)"

definition frame_rsvd2 :: "frame \<Rightarrow> u8" where
  "frame_rsvd2 fm = drop_bit 4 (fm ! 4 AND mask_rsvd2)"

definition frame_tid :: "frame \<Rightarrow> u16" where
  "frame_tid fm = push_bit 8 (ucast (fm ! 4 AND mask_tid)) OR ucast (fm ! 5)"

definition frame_plength :: "frame \<Rightarrow> u16" where
  "frame_plength fm = push_bit 8 (ucast (fm ! 6)) OR ucast (fm ! 7)"

definition frame_payload :: "frame \<Rightarrow> u8 list" where
  "frame_payload fm = drop 8 fm"

definition frame_length :: "frame \<Rightarrow> nat" where
  "frame_length fm = 8 + unat (frame_plength fm)"

text \<open>\<open>frame::cast\<close>: the received octets as a frame, if they hold a whole one.\<close>

definition frame_cast :: "u8 list \<Rightarrow> frame option" where
  "frame_cast buff = (if length buff < 8 \<or> length buff < frame_length buff then None else Some buff)"

section \<open>Messages\<close>

text \<open>
  \<open>_in\<close> and \<open>_out\<close> refer to the payload and start at its first octet; \<open>input()\<close> and \<open>reset()\<close>
  rebuild them, so only the payload is state.
\<close>

record message =
  m_version :: u8
  m_ackreq :: bool
  m_ackrsp :: bool
  m_uir :: bool
  m_m :: bool
  m_fn :: u8
  m_mid :: u16
  m_tid :: u16
  m_src :: mihf_id
  m_dst :: mihf_id
  m_payload :: archive

text \<open>
  \<open>meta_message\<close> adds where the message came from. The default constructor leaves \<open>_local\<close>
  and \<open>_port\<close> uninitialized; they are read of received messages, whose constructor sets
  them.
\<close>

record meta_message = message +
  mm_local :: bool
  mm_ip :: octet_string
  mm_scope :: u16
  mm_port :: u16

definition msg_id :: "u16 \<Rightarrow> u16 \<Rightarrow> u16 \<Rightarrow> u16" where
  "msg_id service_id opcode action_id = push_bit 12 service_id OR push_bit 10 opcode OR action_id"

definition msg_set_sid :: "u16 \<Rightarrow> 'a message_scheme \<Rightarrow> 'a message_scheme" where
  "msg_set_sid v m = m\<lparr>m_mid := m_mid m AND 0x0fff OR push_bit 12 v\<rparr>"

definition msg_set_opcode :: "u16 \<Rightarrow> 'a message_scheme \<Rightarrow> 'a message_scheme" where
  "msg_set_opcode v m = m\<lparr>m_mid := m_mid m AND 0xf3ff OR push_bit 10 v\<rparr>"

definition msg_set_aid :: "u16 \<Rightarrow> 'a message_scheme \<Rightarrow> 'a message_scheme" where
  "msg_set_aid v m = m\<lparr>m_mid := m_mid m AND 0xfc00 OR v\<rparr>"

definition msg_sid :: "'a message_scheme \<Rightarrow> u16" where
  "msg_sid m = drop_bit 12 (m_mid m AND 0xf000)"

definition msg_opcode :: "'a message_scheme \<Rightarrow> u16" where
  "msg_opcode m = drop_bit 10 (m_mid m AND 0x0c00)"

definition msg_aid :: "'a message_scheme \<Rightarrow> u16" where
  "msg_aid m = m_mid m AND 0x03ff"

text \<open>
  The primitives of the four services with their service and action identifiers, and the
  message identifiers the enumerations of \<open>request.hpp\<close>, \<open>response.hpp\<close>, \<open>indication.hpp\<close> and
  \<open>confirm.hpp\<close> give them.
\<close>

datatype primitive =
    Capability_discover | Mih_register | Mih_deregister | Event_subscribe | Event_unsubscribe |
    Link_register | User_register | Link_detected | Link_up | Link_down |
    Link_parameters_report | Link_going_down | Link_handover_imminent | Link_handover_complete |
    Link_pdu_transmit_status | Link_conf_required | L3_conf_required | Link_get_parameters |
    Link_configure_thresholds | Link_actions | Net_ho_candidate_query | Mn_ho_candidate_query |
    N2n_ho_query_resources | Mn_ho_commit | Net_ho_commit | N2n_ho_commit | Mn_ho_complete |
    N2n_ho_complete | Link_conf | L3_conf | Get_information | Push_information

fun prim_id :: "primitive \<Rightarrow> u16 \<times> u16" where
  "prim_id Capability_discover = (1, 1)"
| "prim_id Mih_register = (1, 2)"
| "prim_id Mih_deregister = (1, 3)"
| "prim_id Event_subscribe = (1, 4)"
| "prim_id Event_unsubscribe = (1, 5)"
| "prim_id Link_register = (1, 6)"
| "prim_id User_register = (1, 7)"
| "prim_id Link_detected = (2, 1)"
| "prim_id Link_up = (2, 2)"
| "prim_id Link_down = (2, 3)"
| "prim_id Link_parameters_report = (2, 5)"
| "prim_id Link_going_down = (2, 6)"
| "prim_id Link_handover_imminent = (2, 7)"
| "prim_id Link_handover_complete = (2, 8)"
| "prim_id Link_pdu_transmit_status = (2, 9)"
| "prim_id Link_conf_required = (2, 10)"
| "prim_id L3_conf_required = (2, 11)"
| "prim_id Link_get_parameters = (3, 1)"
| "prim_id Link_configure_thresholds = (3, 2)"
| "prim_id Link_actions = (3, 3)"
| "prim_id Net_ho_candidate_query = (3, 4)"
| "prim_id Mn_ho_candidate_query = (3, 5)"
| "prim_id N2n_ho_query_resources = (3, 6)"
| "prim_id Mn_ho_commit = (3, 7)"
| "prim_id Net_ho_commit = (3, 8)"
| "prim_id N2n_ho_commit = (3, 9)"
| "prim_id Mn_ho_complete = (3, 10)"
| "prim_id N2n_ho_complete = (3, 11)"
| "prim_id Link_conf = (3, 12)"
| "prim_id L3_conf = (3, 13)"
| "prim_id Get_information = (4, 1)"
| "prim_id Push_information = (4, 2)"

definition confirm :: "primitive \<Rightarrow> u16" where
  "confirm p = msg_id (fst (prim_id p)) 0 (snd (prim_id p))"

definition request :: "primitive \<Rightarrow> u16" where
  "request p = msg_id (fst (prim_id p)) 1 (snd (prim_id p))"

definition response :: "primitive \<Rightarrow> u16" where
  "response p = msg_id (fst (prim_id p)) 2 (snd (prim_id p))"

definition indication :: "primitive \<Rightarrow> u16" where
  "indication p = msg_id (fst (prim_id p)) 3 (snd (prim_id p))"

definition meta_message_new :: meta_message where
  "meta_message_new = \<lparr>m_version = 1, m_ackreq = False, m_ackrsp = False, m_uir = False, m_m = False,
     m_fn = 0, m_mid = 0, m_tid = 0, m_src = [], m_dst = [], m_payload = archive_new,
     mm_local = False, mm_ip = [], mm_scope = 0, mm_port = 0\<rparr>"

text \<open>
  \<open>message::operator=(const frame&)\<close>, called by the constructors: the source and destination
  identifiers are taken off the payload. Its archive is empty when the input archive on it
  is built.
\<close>

definition id_tlvs_get :: "(iarchive, mihf_id \<times> mihf_id) eff" where
  "id_tlvs_get = bnd (get (tlv_codec 1 id_codec) []) (\<lambda>src.
     bnd (get (tlv_codec 2 id_codec) []) (\<lambda>dst. ret (src, dst)))"

definition id_tlvs_put :: "mihf_id \<Rightarrow> mihf_id \<Rightarrow> (oarchive, unit) eff" where
  "id_tlvs_put src dst = seq (put (tlv_codec 1 id_codec) src) (put (tlv_codec 2 id_codec) dst)"

definition message_of_frame :: "frame \<Rightarrow> exn + meta_message" where
  "message_of_frame fm =
     (let pl = take (unat (frame_plength fm)) (frame_payload fm) in
      case id_tlvs_get \<lparr>i_buf = pl, i_pos = 0, i_begin = 0, i_length = 0\<rparr> of
        (Inl e, _) \<Rightarrow> Inl e
      | (Inr (src, dst), inp) \<Rightarrow> Inr (meta_message_new\<lparr>
          m_version := frame_version fm, m_ackreq := frame_ackreq fm, m_ackrsp := frame_ackrsp fm,
          m_uir := frame_uir fm, m_m := frame_m fm, m_fn := frame_fn fm, m_mid := frame_mid fm,
          m_tid := frame_tid fm, m_src := src, m_dst := dst,
          m_payload := \<lparr>a_buf = drop (i_pos inp) pl, a_pos = 0\<rparr>\<rparr>))"

definition meta_message_of :: "octet_string \<Rightarrow> u16 \<Rightarrow> u16 \<Rightarrow> frame \<Rightarrow> exn + meta_message" where
  "meta_message_of ip scope port fm =
     (case message_of_frame fm of
        Inl e \<Rightarrow> Inl e
      | Inr m \<Rightarrow> Inr (m\<lparr>mm_ip := ip, mm_local := (ip = ''127.0.0.1'' \<or> ip = ''::1''),
                      mm_scope := scope, mm_port := port\<rparr>))"

text \<open>\<open>message::get_frame\<close>: the identifiers and the payload behind a fresh header.\<close>

definition fill_header :: "'a message_scheme \<Rightarrow> nat \<Rightarrow> (frame, unit) eff" where
  "fill_header m n =
     seq (frame_set_version (m_version m)) (seq (frame_set_ackreq (m_ackreq m))
     (seq (frame_set_ackrsp (m_ackrsp m)) (seq (frame_set_uir (m_uir m)) (seq (frame_set_m (m_m m))
     (seq (frame_set_fn (m_fn m)) (seq (frame_set_mid (m_mid m)) (seq (frame_set_tid (m_tid m))
       (if 2 ^ 16 \<le> n then throw bad_truncate_cast else frame_set_plength (of_nat n)))))))))"

definition get_frame :: "'a message_scheme \<Rightarrow> exn + frame" where
  "get_frame m =
     (case id_tlvs_put (m_src m) (m_dst m) (oarchive_of archive_new) of
        (Inl e, _) \<Rightarrow> Inl e
      | (Inr _, out) \<Rightarrow>
          let ar = archive_append (a_buf (m_payload m)) \<lparr>a_buf = o_buf out, a_pos = o_pos out\<rparr>;
              n = length (a_buf ar) in
          case fill_header m n (replicate (8 + n) 0) of
            (Inl e, _) \<Rightarrow> Inl e
          | (Inr _, fm) \<Rightarrow> Inr (take 8 fm @ a_buf ar))"

text \<open>\<open>message::payload(msg)\<close>: the service specific TLVs of another message.\<close>

definition copy_payload :: "'b message_scheme \<Rightarrow> ('a message_scheme, unit) eff" where
  "copy_payload msg m =
     (case get_frame msg of
        Inl e \<Rightarrow> (Inl e, m)
      | Inr fm \<Rightarrow> let pl = take (unat (frame_plength fm)) (frame_payload fm) in
          case id_tlvs_get \<lparr>i_buf = pl, i_pos = 0, i_begin = 0, i_length = 0\<rparr> of
            (Inl e, _) \<Rightarrow> (Inl e, m)
          | (Inr _, inp) \<Rightarrow> (Inr (), m\<lparr>m_payload := \<lparr>a_buf = drop (i_pos inp) pl, a_pos = 0\<rparr>\<rparr>))"

definition has_service_specific_tlv :: "'a message_scheme \<Rightarrow> bool" where
  "has_service_specific_tlv m \<longleftrightarrow> a_buf (m_payload m) \<noteq> []"

text \<open>
  \<open>msg << helper & tlvs\<close> and \<open>msg >> helper & tlvs\<close>: a helper carries a message identifier, 0
  for any, and for writing an optional destination.
\<close>

definition msg_write :: "u16 \<Rightarrow> mihf_id option \<Rightarrow> (oarchive, unit) eff \<Rightarrow> ('a message_scheme, unit) eff" where
  "msg_write mid dst tlvs m =
     (let m = m\<lparr>m_payload := archive_clear (m_payload m), m_mid := mid,
                m_dst := (case dst of None \<Rightarrow> m_dst m | Some d \<Rightarrow> d)\<rparr> in
      case tlvs (oarchive_of (m_payload m)) of
        (r, out) \<Rightarrow> (r, m\<lparr>m_payload := \<lparr>a_buf = o_buf out, a_pos = o_pos out\<rparr>\<rparr>))"

definition msg_read :: "u16 \<Rightarrow> (iarchive, 'b) eff \<Rightarrow> ('a message_scheme, 'b) eff" where
  "msg_read mid tlvs m =
     (if \<not> (mid = m_mid m \<or> mid = 0) then (Inl bug_assert, m)
      else case tlvs (iarchive_of (m_payload m\<lparr>a_pos := 0\<rparr>)) of
        (r, inp) \<Rightarrow> (r, m\<lparr>m_payload := \<lparr>a_buf = i_buf inp, a_pos = i_pos inp\<rparr>\<rparr>))"

section \<open>Headers and frames\<close>

lemma u8_16: "v AND NOT 0x0f = 0 \<Longrightarrow> v \<in> set [0, 1, 2, 3, 4, 5, 6, 7, 8, 9, 10, 11, 12, 13, 14, 15 :: u8]"
proof -
  assume "v AND NOT 0x0f = 0"
  then have "v = v AND 0x0f"
    by (metis and.right_neutral bit.conj_disj_distrib bit.disj_cancel_right bit.disj_zero_right)
  then have "v < of_nat 16" using low_nibble [of v] by simp
  from u8_below [OF this] show ?thesis by (simp add: upt_rec)
qed

definition hdr0 :: "u8 \<Rightarrow> bool \<Rightarrow> bool \<Rightarrow> bool \<Rightarrow> bool \<Rightarrow> u8" where
  "hdr0 v a b c d = push_bit 4 v OR push_bit 3 (u8_of_bool a) OR push_bit 2 (u8_of_bool b)
     OR push_bit 1 (u8_of_bool c) OR u8_of_bool d"

lemma hdr0_fields:
  assumes "v AND NOT 0x0f = 0"
  shows "drop_bit 4 (hdr0 v a b c d AND 0xf0) = v"
    "drop_bit 3 (hdr0 v a b c d AND 0x08) \<noteq> 0 \<longleftrightarrow> a"
    "drop_bit 2 (hdr0 v a b c d AND 0x04) \<noteq> 0 \<longleftrightarrow> b"
    "drop_bit 1 (hdr0 v a b c d AND 0x02) \<noteq> 0 \<longleftrightarrow> c"
    "hdr0 v a b c d AND 0x01 \<noteq> 0 \<longleftrightarrow> d"
  using u8_16 [OF assms]
  by (cases a; cases b; cases c; cases d; auto simp: hdr0_def u8_of_bool_def)+

lemma hdr0_steps:
  assumes "v AND NOT 0x0f = 0"
  shows "((((((0 AND NOT 0xf0) OR push_bit 4 v) AND NOT 0x08) OR push_bit 3 (u8_of_bool a)) AND NOT 0x04 OR push_bit 2 (u8_of_bool b))
     AND NOT 0x02 OR push_bit 1 (u8_of_bool c)) AND NOT 0x01 OR u8_of_bool d = hdr0 v a b c d"
  using u8_16 [OF assms]
  by (cases a; cases b; cases c; cases d; auto simp: hdr0_def u8_of_bool_def)

lemma fn_field:
  assumes "v AND NOT 0x7f = (0 :: u8)"
  shows "drop_bit 1 (push_bit 1 v AND 0xfe) = v"
proof -
  have m: "(0xfe :: u8) = NOT 1" "(0x7f :: u8) = mask 7" by (simp_all add: mask_eq_exp_minus_1)
  have "bit v k \<Longrightarrow> k < 7" for k
    using assms unfolding m by (metis bit_0_eq bit_and_iff bit_mask_iff bit_not_iff bit_imp_le_length
        bot_apply bot_bool_def possible_bit_word)
  then show ?thesis unfolding m
    by (intro bit_word_eqI) (simp only: bit_simps o_apply, force)
qed

definition enc_header :: "'a message_scheme \<Rightarrow> u16 \<Rightarrow> u8 list" where
  "enc_header m n = [hdr0 (m_version m) (m_ackreq m) (m_ackrsp m) (m_uir m) (m_m m), push_bit 1 (m_fn m),
     byte_at 8 (m_mid m), byte_at 0 (m_mid m), byte_at 8 (m_tid m), byte_at 0 (m_tid m), byte_at 8 n, byte_at 0 n]"

definition header_ok :: "'a message_scheme \<Rightarrow> bool" where
  "header_ok m \<longleftrightarrow> m_version m AND NOT 0x0f = 0 \<and> m_fn m AND NOT 0x7f = 0"

lemma fill_header_result:
  assumes "header_ok m" "n < 2 ^ 16"
  shows "\<exists>fm. fill_header m n (replicate (8 + n) 0) = (Inr (), fm) \<and> take 8 fm = enc_header m (of_nat n)"
proof -
  have z: "replicate (8 + n) (0 :: u8) = [0, 0, 0, 0, 0, 0, 0, 0] @ replicate n 0"
    by (simp add: numeral_eq_Suc)
  have v: "m_version m AND NOT 0x0f = 0" and f: "m_fn m AND NOT 0x7f = 0"
    using assms(1) by (simp_all add: header_ok_def)
  have masks: "drop_bit 4 mask_version = 0x0f" "drop_bit 1 mask_fn = 0x7f" by (simp_all add: mask_defs)
  show ?thesis
    unfolding z using assms(2) v f hdr0_steps [OF v, of "m_ackreq m" "m_ackrsp m" "m_uir m" "m_m m"]
    by (simp add: fill_header_def frame_set_version_def frame_set_ackreq_def frame_set_ackrsp_def
        frame_set_uir_def frame_set_m_def frame_set_fn_def frame_set_mid_def frame_set_tid_def
        frame_set_plength_def masks set_hdr_def enc_header_def seq_def)
      (simp add: mask_defs)
qed

lemma and_ff: "x AND 0xff = (x :: u8)"
proof -
  have "(0xff :: u8) = - 1" by simp
  then show ?thesis by (simp only: and.right_neutral)
qed

lemma frame_fields_of_header:
  assumes "header_ok m"
  shows "frame_version (enc_header m n @ xs) = m_version m"
    "frame_ackreq (enc_header m n @ xs) = m_ackreq m" "frame_ackrsp (enc_header m n @ xs) = m_ackrsp m"
    "frame_uir (enc_header m n @ xs) = m_uir m" "frame_m (enc_header m n @ xs) = m_m m"
    "frame_fn (enc_header m n @ xs) = m_fn m" "frame_mid (enc_header m n @ xs) = m_mid m"
    "frame_tid (enc_header m n @ xs) = m_tid m" "frame_plength (enc_header m n @ xs) = n"
    "frame_payload (enc_header m n @ xs) = xs"
  using assms hdr0_fields fn_field
  by (simp_all add: header_ok_def enc_header_def frame_version_def frame_ackreq_def frame_ackrsp_def
      frame_uir_def frame_m_def frame_fn_def frame_mid_def frame_tid_def frame_plength_def
      frame_payload_def mask_defs and_ff join_bytes)

definition enc_ids :: "mihf_id \<Rightarrow> mihf_id \<Rightarrow> u8 list" where
  "enc_ids src dst = enc (tlv_codec 1 id_codec) src @ enc (tlv_codec 2 id_codec) dst"

definition message_ok :: "'a message_scheme \<Rightarrow> bool" where
  "message_ok m \<longleftrightarrow> header_ok m \<and> wf (tlv_codec 1 id_codec) (m_src m) \<and> wf (tlv_codec 2 id_codec) (m_dst m)
     \<and> length (enc_ids (m_src m) (m_dst m) @ a_buf (m_payload m)) < 2 ^ 16"

lemma id_tlv_law: "codec_law (tlv_codec t id_codec)"
  by (intro codec_intros)

lemma id_tlvs_put_at:
  assumes "wf (tlv_codec 1 id_codec) src" "wf (tlv_codec 2 id_codec) dst" "o_at_end ar (length (enc_ids src dst))"
  shows "id_tlvs_put src dst ar = (Inr (), o_put (enc_ids src dst) ar)"
proof -
  let ?e = "enc (tlv_codec 1 id_codec) src"
  have "put (tlv_codec 1 id_codec) src ar = (Inr (), o_put ?e ar)"
    using assms by (intro codec_law.put_at [OF id_tlv_law]) (auto simp: enc_ids_def elim: o_at_end_mono)
  moreover have "put (tlv_codec 2 id_codec) dst (o_put ?e ar)
      = (Inr (), o_put (enc (tlv_codec 2 id_codec) dst) (o_put ?e ar))"
    using assms by (intro codec_law.put_at [OF id_tlv_law]) (auto simp: enc_ids_def elim: o_at_end_put)
  ultimately show ?thesis by (simp add: id_tlvs_put_def enc_ids_def)
qed

lemma id_tlvs_get_at:
  assumes "wf (tlv_codec 1 id_codec) src" "wf (tlv_codec 2 id_codec) dst" "i_at ar (enc_ids src dst @ rest)"
  shows "id_tlvs_get ar = (Inr (src, dst), i_skip (length (enc_ids src dst)) ar)"
proof -
  have at: "i_at ar (enc (tlv_codec 1 id_codec) src @ enc (tlv_codec 2 id_codec) dst @ rest)"
    using assms(3) by (simp add: enc_ids_def)
  show ?thesis
    using codec_law.get_at [OF id_tlv_law assms(1) at] codec_law.get_at [OF id_tlv_law assms(2) i_at_skip [OF at]]
    by (simp add: id_tlvs_get_def enc_ids_def)
qed

lemma get_frame_result:
  assumes "message_ok m"
  shows "get_frame m = Inr (enc_header m (of_nat (length (enc_ids (m_src m) (m_dst m) @ a_buf (m_payload m))))
    @ enc_ids (m_src m) (m_dst m) @ a_buf (m_payload m))"
proof -
  let ?ids = "enc_ids (m_src m) (m_dst m)" and ?pl = "a_buf (m_payload m)"
  have "id_tlvs_put (m_src m) (m_dst m) (oarchive_of archive_new)
      = (Inr (), o_put ?ids (oarchive_of archive_new))"
    using assms by (intro id_tlvs_put_at)
      (auto simp: message_ok_def o_at_end_def oarchive_of_def archive_new_def)
  moreover obtain fm where "fill_header m (length (?ids @ ?pl)) (replicate (8 + length (?ids @ ?pl)) 0) = (Inr (), fm)"
      "take 8 fm = enc_header m (of_nat (length (?ids @ ?pl)))"
    using fill_header_result [of m "length (?ids @ ?pl)"] assms by (auto simp: message_ok_def)
  ultimately show ?thesis
    by (simp add: get_frame_def) (simp add: oarchive_of_def archive_new_def archive_append_def Let_def)
qed

lemma u16_of_nat_less: "n < 2 ^ 16 \<Longrightarrow> unat (of_nat n :: u16) = n"
  by (simp add: unsigned_of_nat take_bit_nat_eq_self)

text \<open>The octets of the frame of a message, and the message read from them.\<close>

definition frame_bytes :: "'a message_scheme \<Rightarrow> frame" where
  "frame_bytes m = enc_header m (of_nat (length (enc_ids (m_src m) (m_dst m) @ a_buf (m_payload m))))
     @ enc_ids (m_src m) (m_dst m) @ a_buf (m_payload m)"

lemma get_frame_bytes: "message_ok m \<Longrightarrow> get_frame m = Inr (frame_bytes m)"
  by (simp only: get_frame_result frame_bytes_def)

lemma frame_bytes_fields:
  assumes "message_ok m"
  shows "frame_mid (frame_bytes m) = m_mid m" "frame_tid (frame_bytes m) = m_tid m"
    "length (frame_bytes m) = frame_length (frame_bytes m)" "frame_cast (frame_bytes m) = Some (frame_bytes m)"
proof -
  have ok: "header_ok m" using assms by (simp add: message_ok_def)
  show "frame_mid (frame_bytes m) = m_mid m" "frame_tid (frame_bytes m) = m_tid m"
    by (simp_all only: frame_bytes_def frame_fields_of_header [OF ok])
  have "unat (of_nat (length (enc_ids (m_src m) (m_dst m) @ a_buf (m_payload m))) :: u16)
      = length (enc_ids (m_src m) (m_dst m) @ a_buf (m_payload m))"
    using assms by (intro u16_of_nat_less) (simp add: message_ok_def)
  then have len: "frame_length (frame_bytes m) = 8 + length (enc_ids (m_src m) (m_dst m) @ a_buf (m_payload m))"
    by (simp only: frame_length_def frame_bytes_def frame_fields_of_header [OF ok])
  then show "length (frame_bytes m) = frame_length (frame_bytes m)"
    by (simp add: frame_bytes_def enc_header_def)
  then show "frame_cast (frame_bytes m) = Some (frame_bytes m)"
    using len by (simp add: frame_cast_def)
qed

lemma message_of_frame_bytes:
  fixes m :: meta_message
  assumes "message_ok m"
  shows "message_of_frame (frame_bytes m) =
    Inr (m\<lparr>m_payload := (m_payload m)\<lparr>a_pos := 0\<rparr>, mm_local := False, mm_ip := [], mm_scope := 0, mm_port := 0\<rparr>)"
proof -
  let ?ids = "enc_ids (m_src m) (m_dst m)" and ?pl = "a_buf (m_payload m)"
  have ok: "header_ok m" using assms by (simp add: message_ok_def)
  have len: "unat (of_nat (length (?ids @ ?pl)) :: u16) = length (?ids @ ?pl)"
    using assms by (intro u16_of_nat_less) (simp add: message_ok_def)
  let ?in = "\<lparr>i_buf = ?ids @ ?pl, i_pos = 0, i_begin = 0, i_length = 0\<rparr>"
  have ids: "id_tlvs_get ?in = (Inr (m_src m, m_dst m), i_skip (length ?ids) ?in)"
    using assms by (intro id_tlvs_get_at) (auto simp: message_ok_def i_at_def)
  have "take (unat (frame_plength (frame_bytes m))) (frame_payload (frame_bytes m)) = ?ids @ ?pl"
    unfolding frame_bytes_def frame_fields_of_header [OF ok] len by simp
  then show ?thesis
    unfolding message_of_frame_def Let_def
    by (simp add: ids meta_message_new_def) (simp add: frame_bytes_def frame_fields_of_header [OF ok])
qed

text \<open>
  C10: A message whose version and fragment number fit their fields, whose identifiers can be
  encoded and whose payload is below \<open>2 ^ 16\<close> octets becomes a frame that is accepted as a whole
  frame, and the message constructed from that frame is the same message, metadata
  included, ready to be read from the start of its payload.
\<close>

theorem message_frame_roundtrip:
  fixes m :: meta_message
  assumes "message_ok m" "mm_local m = (mm_ip m = ''127.0.0.1'' \<or> mm_ip m = ''::1'')"
  shows "\<exists>fm. get_frame m = Inr fm \<and> frame_cast fm = Some fm \<and> length fm = frame_length fm
    \<and> meta_message_of (mm_ip m) (mm_scope m) (mm_port m) fm = Inr (m\<lparr>m_payload := (m_payload m)\<lparr>a_pos := 0\<rparr>\<rparr>)"
  using assms
  by (simp add: get_frame_bytes frame_bytes_fields message_of_frame_bytes meta_message_of_def)

theorem message_frame_roundtrip_witness:
  "\<exists>fm. get_frame (meta_message_new\<lparr>m_mid := request Link_actions, m_tid := 300, m_src := ''mihf1'', m_dst := ''mihf2'',
        m_payload := \<lparr>a_buf = [3, 1, 0], a_pos = 3\<rparr>, mm_ip := ''10.0.0.1''\<rparr>) = Inr fm
    \<and> meta_message_of ''10.0.0.1'' 0 0 fm = Inr (meta_message_new\<lparr>m_mid := request Link_actions, m_tid := 300,
        m_src := ''mihf1'', m_dst := ''mihf2'', m_payload := \<lparr>a_buf = [3, 1, 0], a_pos = 0\<rparr>, mm_ip := ''10.0.0.1''\<rparr>)"
proof -
  let ?m = "meta_message_new\<lparr>m_mid := request Link_actions, m_tid := 300, m_src := ''mihf1'', m_dst := ''mihf2'',
        m_payload := \<lparr>a_buf = [3, 1, 0], a_pos = 3\<rparr>, mm_ip := ''10.0.0.1''\<rparr>"
  have "message_ok ?m"
    by (simp add: message_ok_def header_ok_def meta_message_new_def enc_ids_def id_codec_def
        tlv_codec_def octet_string_codec_def tlv_wf_def enc_tlv_def enc_bytes_def enc_len_def len_ok_def)
  from message_frame_roundtrip [OF this] show ?thesis by (auto simp: meta_message_new_def)
qed

text \<open>
  C27: The message identifiers decode to the service, the operation and the action they are
  composed of, for every primitive and each of the four operations, and replacing one of the
  three parts leaves the others as they were.
\<close>

theorem message_ids_decode:
  "msg_sid (m\<lparr>m_mid := request p\<rparr>) = fst (prim_id p) \<and> msg_opcode (m\<lparr>m_mid := request p\<rparr>) = 1
     \<and> msg_aid (m\<lparr>m_mid := request p\<rparr>) = snd (prim_id p)
   \<and> msg_sid (m\<lparr>m_mid := response p\<rparr>) = fst (prim_id p) \<and> msg_opcode (m\<lparr>m_mid := response p\<rparr>) = 2
     \<and> msg_aid (m\<lparr>m_mid := response p\<rparr>) = snd (prim_id p)
   \<and> msg_sid (m\<lparr>m_mid := indication p\<rparr>) = fst (prim_id p) \<and> msg_opcode (m\<lparr>m_mid := indication p\<rparr>) = 3
     \<and> msg_aid (m\<lparr>m_mid := indication p\<rparr>) = snd (prim_id p)
   \<and> msg_sid (m\<lparr>m_mid := confirm p\<rparr>) = fst (prim_id p) \<and> msg_opcode (m\<lparr>m_mid := confirm p\<rparr>) = 0
     \<and> msg_aid (m\<lparr>m_mid := confirm p\<rparr>) = snd (prim_id p)
   \<and> msg_set_opcode 0 (m\<lparr>m_mid := response p\<rparr>) = m\<lparr>m_mid := confirm p\<rparr>
   \<and> msg_set_opcode 3 (m\<lparr>m_mid := request p\<rparr>) = m\<lparr>m_mid := indication p\<rparr>"
  by (cases p)
    (simp_all add: request_def response_def indication_def confirm_def msg_id_def msg_sid_def msg_opcode_def
      msg_aid_def msg_set_opcode_def)

lemma u8_4: "v AND NOT 3 = 0 \<Longrightarrow> v \<in> set [0, 1, 2, 3 :: u8]"
proof -
  assume v: "v AND NOT 3 = 0"
  have "v AND NOT 0x0f = (v AND NOT 3) AND NOT 0x0f" by (simp add: and.assoc)
  then have "v AND NOT 0x0f = 0" using v by simp
  from u8_16 [OF this] v show ?thesis by auto
qed

lemma opcode_hdr:
  assumes "v AND NOT 3 = 0"
  shows "(h AND NOT 0x0d OR push_bit 2 v) AND 0x03 = h AND (0x02 :: u8)"
    "(h AND NOT 0x0d OR push_bit 2 v) AND 0xf0 = h AND (0xf0 :: u8)"
    "drop_bit 2 ((h AND NOT 0x0d OR push_bit 2 v) AND 0x0d) = v"
  using u8_4 [OF assms]
  by (auto simp: bit.conj_disj_distrib2 and.assoc)

lemma aid_bit8:
  "push_bit 8 (ucast (h AND 2)) OR ucast b = (push_bit 8 (ucast (h AND 3)) OR ucast b) AND (0xfeff :: u16)"
  for h b :: u8
proof -
  have m: "(0xfeff :: u16) = NOT (push_bit 8 1)" "(2 :: u8) = push_bit 1 1" "(3 :: u8) = mask 2"
    by (simp_all add: mask_eq_exp_minus_1)
  show ?thesis unfolding m
    by (rule bit_word_eqI) (simp only: bit_simps o_apply, auto dest: bit_imp_le_length)
qed

text \<open>
  Setting the operation code of a frame header loses a bit of the action identifier: the
  mask of the operation code covers bit 8 of the action, which is cleared. The operation and
  the service are as expected.
\<close>

theorem frame_opcode_setter_clears_action_bit:
  assumes "8 \<le> length fm" "v AND NOT 3 = 0" "frame_set_opcode v fm = (r, fm')"
  shows "r = Inr () \<and> frame_opcode fm' = v \<and> frame_sid fm' = frame_sid fm
    \<and> frame_aid fm' = frame_aid fm AND 0xfeff"
proof -
  have r: "r = Inr ()" and fm': "fm' = fm[2 := fm ! 2 AND NOT 0x0d OR push_bit 2 v]"
    using assms(2,3) by (auto simp: frame_set_opcode_def set_hdr_def mask_defs)
  have n: "fm' ! 2 = fm ! 2 AND NOT 0x0d OR push_bit 2 v" "fm' ! 3 = fm ! 3"
    using assms(1) by (simp_all add: fm')
  show ?thesis
    using r opcode_hdr [OF assms(2), of "fm ! 2"]
    by (simp only: frame_opcode_def frame_sid_def frame_aid_def n mask_defs aid_bit8)
qed

theorem frame_opcode_setter_clears_action_bit_witness:
  "frame_aid [0x10, 0, 0x11, 5, 0, 1, 0, 0] = 0x105
    \<and> frame_aid (snd (frame_set_opcode 2 [0x10, 0, 0x11, 5, 0, 1, 0, 0])) = 5"
proof -
  let ?fm = "[0x10, 0, 0x11, 5, 0, 1, 0, 0] :: u8 list"
  have "frame_set_opcode 2 ?fm = (fst (frame_set_opcode 2 ?fm), snd (frame_set_opcode 2 ?fm))" by simp
  from frame_opcode_setter_clears_action_bit [OF _ _ this]
  show ?thesis by (simp add: frame_aid_def mask_defs)
qed

end
