(* ===== verification/Mihf_Pools.thy ===== *)
theory Mihf_Pools
  imports Mih_Message
begin

text \<open>
  The two lists of pending local work: transactions forwarded for local users
  (\<open>src/mihf/local_transaction_pool.cpp\<close>) and collected answers of Link SAPs
  (\<open>src/mihf/link_response_pool.cpp\<close>). Both search with a loop that stops at the first match.
\<close>

section \<open>The first match in a list\<close>

fun update_first :: "('a \<Rightarrow> bool) \<Rightarrow> ('a \<Rightarrow> 'a) \<Rightarrow> 'a list \<Rightarrow> 'a list" where
  "update_first P f [] = []"
| "update_first P f (x # xs) = (if P x then f x # xs else x # update_first P f xs)"

fun remove_first :: "('a \<Rightarrow> bool) \<Rightarrow> 'a list \<Rightarrow> 'a list" where
  "remove_first P [] = []"
| "remove_first P (x # xs) = (if P x then xs else x # remove_first P xs)"

section \<open>Local transactions\<close>

record pending_transaction =
  pt_user :: mihf_id
  pt_destination :: mihf_id
  pt_ltid :: u16
  pt_rtid :: u16

type_synonym local_transaction_pool = "pending_transaction list"

definition lpool_add :: "'a message_scheme \<Rightarrow> local_transaction_pool \<Rightarrow> local_transaction_pool" where
  "lpool_add m p = p @ [\<lparr>pt_user = m_src m, pt_destination = m_dst m, pt_ltid = m_tid m, pt_rtid = m_tid m\<rparr>]"

definition lpool_match :: "mihf_id \<Rightarrow> u16 \<Rightarrow> pending_transaction \<Rightarrow> bool" where
  "lpool_match from tid p \<longleftrightarrow> pt_destination p = from \<and> pt_rtid p = tid"

definition lpool_find :: "mihf_id \<Rightarrow> u16 \<Rightarrow> local_transaction_pool \<Rightarrow> pending_transaction option" where
  "lpool_find from tid p = List.find (lpool_match from tid) p"

definition lpool_set_remote_tid :: "mihf_id \<Rightarrow> u16 \<Rightarrow> u16 \<Rightarrow> local_transaction_pool \<Rightarrow> local_transaction_pool" where
  "lpool_set_remote_tid dst ltid rtid p = update_first (lpool_match dst ltid) (\<lambda>t. t\<lparr>pt_rtid := rtid\<rparr>) p"

definition lpool_del :: "mihf_id \<Rightarrow> u16 \<Rightarrow> local_transaction_pool \<Rightarrow> bool \<times> local_transaction_pool" where
  "lpool_del user tid p =
     (case lpool_find user tid p of
        None \<Rightarrow> (False, p)
      | Some t \<Rightarrow> if pt_ltid t = tid then (True, remove_first (lpool_match user tid) p) else (False, p))"

text \<open>\<open>set_user_tid\<close> restores the user and its transaction identifier in a message from a peer.\<close>

definition lpool_set_user_tid ::
    "'a message_scheme \<Rightarrow> local_transaction_pool \<Rightarrow> bool \<times> 'a message_scheme \<times> local_transaction_pool" where
  "lpool_set_user_tid m p =
     (case lpool_find (m_src m) (m_tid m) p of
        None \<Rightarrow> (False, m, p)
      | Some t \<Rightarrow> (True, m\<lparr>m_tid := pt_ltid t, m_dst := pt_user t\<rparr>,
                  remove_first (lpool_match (m_src m) (m_tid m)) p))"

section \<open>Link responses\<close>

record action =
  ac_link_ac_result :: u8
  ac_link_scan_rsp_list :: "link_scan_rsp list option"

datatype link_response = Status_response (lr_status: link_status_rsp) | Action_response (lr_action: action)

record pending_link_response =
  plr_user :: mihf_id
  plr_tid :: u16
  plr_response :: link_response

type_synonym link_response_pool = "pending_link_response list"

definition lrpool_add_status :: "mihf_id \<Rightarrow> u16 \<Rightarrow> link_status_rsp \<Rightarrow> link_response_pool \<Rightarrow> link_response_pool" where
  "lrpool_add_status user tid st p = p @ [\<lparr>plr_user = user, plr_tid = tid, plr_response = Status_response st\<rparr>]"

definition lrpool_add_action ::
    "mihf_id \<Rightarrow> u16 \<Rightarrow> link_scan_rsp list option \<Rightarrow> u8 \<Rightarrow> link_response_pool \<Rightarrow> link_response_pool" where
  "lrpool_add_action user tid scan result p = p @ [\<lparr>plr_user = user, plr_tid = tid,
     plr_response = Action_response \<lparr>ac_link_ac_result = result, ac_link_scan_rsp_list = scan\<rparr>\<rparr>]"

definition lrpool_match :: "u16 \<Rightarrow> mihf_id \<Rightarrow> pending_link_response \<Rightarrow> bool" where
  "lrpool_match tid ident r \<longleftrightarrow> plr_tid r = tid \<and> plr_user r = ident"

definition lrpool_del :: "u16 \<Rightarrow> mihf_id \<Rightarrow> link_response_pool \<Rightarrow> link_response_pool" where
  "lrpool_del tid ident p = remove_first (lrpool_match tid ident) p"

text \<open>\<open>find\<close> dereferences the iterator also when it is the end of the list.\<close>

definition lrpool_find :: "u16 \<Rightarrow> mihf_id \<Rightarrow> link_response_pool \<Rightarrow> exn + pending_link_response" where
  "lrpool_find tid ident p = (case List.find (lrpool_match tid ident) p of
     None \<Rightarrow> Inl undefined_behaviour | Some r \<Rightarrow> Inr r)"

definition lrpool_check :: "u16 \<Rightarrow> mihf_id \<Rightarrow> link_response_pool \<Rightarrow> bool" where
  "lrpool_check tid ident p = list_ex (lrpool_match tid ident) p"

section \<open>Lemmas\<close>

lemma find_append: "List.find P (xs @ ys) = (case List.find P xs of None \<Rightarrow> List.find P ys | Some x \<Rightarrow> Some x)"
  by (induction xs) auto

lemma update_first_append:
  "\<forall>x \<in> set xs. \<not> P x \<Longrightarrow> update_first P f (xs @ ys) = xs @ update_first P f ys"
  by (induction xs) auto

lemma remove_first_append:
  "\<forall>x \<in> set xs. \<not> P x \<Longrightarrow> remove_first P (xs @ ys) = xs @ remove_first P ys"
  by (induction xs) auto

lemma find_none: "\<forall>x \<in> set xs. \<not> P x \<Longrightarrow> List.find P xs = None"
  by (simp add: find_None_iff)

lemma find_update_first:
  "List.find P xs = Some t \<Longrightarrow> (\<forall>x \<in> set xs. \<not> Q x) \<Longrightarrow> Q (f t) \<Longrightarrow> List.find Q (update_first P f xs @ ys) = Some (f t)"
  by (induction xs) (auto split: if_splits)

lemma lpool_find_None: "lpool_find d x p = None \<longleftrightarrow> (\<forall>t \<in> set p. \<not> lpool_match d x t)"
  by (auto simp: lpool_find_def find_None_iff)

text \<open>
  C31: A request of a local user that is forwarded to a peer under a remote transaction identifier
  is answered to that user. As long as no other transaction with that peer is pending under
  the user's or the remote identifier, the answer carrying the remote identifier gets the
  user's identifier and the user as destination, and exactly that pending transaction is
  removed, whatever was added in between.
\<close>

theorem local_transaction_answered:
  assumes "lpool_find (m_dst m) (m_tid m) p = None" "lpool_find (m_dst m) rtid p = None"
    "m_src r = m_dst m" "m_tid r = rtid"
  shows "lpool_set_user_tid r (lpool_set_remote_tid (m_dst m) (m_tid m) rtid (lpool_add m p) @ q)
    = (True, r\<lparr>m_tid := m_tid m, m_dst := m_src m\<rparr>, p @ q)"
proof -
  let ?e = "\<lparr>pt_user = m_src m, pt_destination = m_dst m, pt_ltid = m_tid m, pt_rtid = rtid\<rparr>"
  have pool: "lpool_set_remote_tid (m_dst m) (m_tid m) rtid (lpool_add m p) = p @ [?e]"
    using assms(1) by (simp add: lpool_find_None lpool_set_remote_tid_def lpool_add_def update_first_append lpool_match_def)
  have no: "\<forall>t \<in> set p. \<not> lpool_match (m_src r) (m_tid r) t"
    using assms(2-4) by (simp add: lpool_find_None)
  have "lpool_find (m_src r) (m_tid r) (p @ [?e] @ q) = Some ?e"
    using no assms(3,4) by (simp add: lpool_find_def find_append find_none lpool_match_def)
  moreover have "remove_first (lpool_match (m_src r) (m_tid r)) (p @ [?e] @ q) = p @ q"
    using no assms(3,4) by (simp add: remove_first_append) (simp add: lpool_match_def)
  ultimately show ?thesis by (simp add: pool lpool_set_user_tid_def)
qed

theorem local_transaction_answered_witness:
  "lpool_set_user_tid (meta_message_new\<lparr>m_src := ''peer'', m_tid := 77, m_dst := ''mihf''\<rparr>)
     (lpool_set_remote_tid ''peer'' 5 77 (lpool_add (meta_message_new\<lparr>m_src := ''user'', m_dst := ''peer'', m_tid := 5\<rparr>) []))
   = (True, meta_message_new\<lparr>m_src := ''peer'', m_tid := 5, m_dst := ''user''\<rparr>, [])"
  using local_transaction_answered [of "meta_message_new\<lparr>m_src := ''user'', m_dst := ''peer'', m_tid := 5\<rparr>" "[]" 77
      "meta_message_new\<lparr>m_src := ''peer'', m_tid := 77, m_dst := ''mihf''\<rparr>" "[]"]
  by (simp add: lpool_find_def meta_message_new_def)

text \<open>
  C32: When an older transaction with the peer is pending under a remote identifier equal to the
  identifier the new request has with its user, the remote identifier of the new request is
  recorded for the older one, and the answer to the new request goes to the user of the older
  transaction.
\<close>

theorem local_transaction_misdelivered:
  assumes "lpool_find (m_dst m) (m_tid m) p = Some older" "lpool_find (m_dst m) rtid p = None"
    "rtid \<noteq> m_tid m" "m_src r = m_dst m" "m_tid r = rtid"
  shows "\<exists>p'. lpool_set_user_tid r (lpool_set_remote_tid (m_dst m) (m_tid m) rtid (lpool_add m p))
    = (True, r\<lparr>m_tid := pt_ltid older, m_dst := pt_user older\<rparr>, p')"
proof -
  let ?n = "\<lparr>pt_user = m_src m, pt_destination = m_dst m, pt_ltid = m_tid m, pt_rtid = m_tid m\<rparr>"
  let ?P = "lpool_match (m_dst m) (m_tid m)" and ?f = "\<lambda>t. t\<lparr>pt_rtid := rtid\<rparr>"
  have upd: "update_first ?P ?f (p @ [?n]) = update_first ?P ?f p @ [?n]"
    using assms(1) unfolding lpool_find_def by (induction p) auto
  have "?P older" using assms(1) unfolding lpool_find_def by (induction p) (auto split: if_splits)
  then have "List.find (lpool_match (m_dst m) rtid) (update_first ?P ?f p @ [?n]) = Some (?f older)"
    using assms(1,2) unfolding lpool_find_None
    by (intro find_update_first) (auto simp: lpool_find_def lpool_match_def)
  then show ?thesis
    using assms(4,5) by (simp add: lpool_set_user_tid_def lpool_set_remote_tid_def lpool_add_def upd lpool_find_def)
qed

theorem local_transaction_misdelivered_witness:
  "fst (snd (lpool_set_user_tid (meta_message_new\<lparr>m_src := ''peer'', m_tid := 6\<rparr>)
     (lpool_set_remote_tid ''peer'' 5 6 (lpool_add (meta_message_new\<lparr>m_src := ''new'', m_dst := ''peer'', m_tid := 5\<rparr>)
       [\<lparr>pt_user = ''old'', pt_destination = ''peer'', pt_ltid = 9, pt_rtid = 5\<rparr>]))))
   = meta_message_new\<lparr>m_src := ''peer'', m_tid := 9, m_dst := ''old''\<rparr>"
  using local_transaction_misdelivered [of "meta_message_new\<lparr>m_src := ''new'', m_dst := ''peer'', m_tid := 5\<rparr>"
      "[\<lparr>pt_user = ''old'', pt_destination = ''peer'', pt_ltid = 9, pt_rtid = 5\<rparr>]"
      "\<lparr>pt_user = ''old'', pt_destination = ''peer'', pt_ltid = 9, pt_rtid = 5\<rparr>" 6
      "meta_message_new\<lparr>m_src := ''peer'', m_tid := 6\<rparr>"]
  by (auto simp: lpool_find_def lpool_match_def meta_message_new_def)

end
