(* ===== verification/Mih_Tlv_Types.thy ===== *)
theory Mih_Tlv_Types
  imports Mih_Message
begin

text \<open>
  The TLVs the MIHF services read and write, with their numbers and data types, from
  \<open>tlv_types.hpp\<close>, and the IP configuration data types of \<open>ipconfig.hpp\<close> that they carry.
\<close>

section \<open>IP configuration\<close>

record ip_subnet_info =
  sn_ipprefixlen :: u8
  sn_ipaddr :: transport_addr

definition ip_subnet_info_codec :: "ip_subnet_info codec" where
  "ip_subnet_info_codec = struct_codec
     (\<lambda>s. (sn_ipprefixlen s, sn_ipaddr s)) (\<lambda>(l, a). \<lparr>sn_ipprefixlen = l, sn_ipaddr = a\<rparr>)
     (pair_codec u8_codec ip_addr_codec)"

record ip_info =
  ipi_gateway :: transport_addr
  ipi_subnet :: ip_subnet_info

definition ip_info_codec :: "ip_info codec" where
  "ip_info_codec = struct_codec
     (\<lambda>i. (ipi_gateway i, ipi_subnet i)) (\<lambda>(g, s). \<lparr>ipi_gateway = g, ipi_subnet = s\<rparr>)
     (pair_codec ip_addr_codec ip_subnet_info_codec)"

section \<open>TLV names\<close>

text \<open>
  A name is a number with a data type. It is used for a mandatory value or, with a
  \<open>boost::optional\<close> argument, for one that may be absent.
\<close>

type_synonym 'a tlv_name = "u8 \<times> 'a codec"

definition mand :: "'a tlv_name \<Rightarrow> 'a codec" where
  "mand t = tlv_codec (fst t) (snd t)"

definition opti :: "'a tlv_name \<Rightarrow> 'a option codec" where
  "opti t = tlv_opt_codec (fst t) (snd t)"

definition tlv_status :: "u8 tlv_name" where "tlv_status = (3, enumeration_codec)"
definition tlv_event_list :: "bitmap tlv_name" where "tlv_event_list = (5, bitmap_codec 32)"
definition tlv_command_list :: "bitmap tlv_name" where "tlv_command_list = (6, bitmap_codec 32)"
definition tlv_query_type_list :: "bitmap tlv_name" where "tlv_query_type_list = (7, bitmap_codec 64)"
definition tlv_transport_option_list :: "bitmap tlv_name" where "tlv_transport_option_list = (8, bitmap_codec 16)"
definition tlv_net_type_addr_list :: "net_type_addr list tlv_name" where
  "tlv_net_type_addr_list = (9, vector_codec net_type_addr_codec)"
definition tlv_mbb_ho_supp_list :: "mbb_ho_supp list tlv_name" where
  "tlv_mbb_ho_supp_list = (10, vector_codec mbb_ho_supp_codec)"
definition tlv_link_identifier :: "link_tuple_id tlv_name" where "tlv_link_identifier = (13, link_tuple_id_codec)"
definition tlv_new_link_identifier :: "link_tuple_id tlv_name" where "tlv_new_link_identifier = (14, link_tuple_id_codec)"
definition tlv_old_access_router :: "link_addr tlv_name" where "tlv_old_access_router = (15, link_addr_codec)"
definition tlv_new_access_router :: "link_addr tlv_name" where "tlv_new_access_router = (16, link_addr_codec)"
definition tlv_ip_cfg_methods :: "bitmap tlv_name" where "tlv_ip_cfg_methods = (19, bitmap_codec 32)"
definition tlv_time_interval :: "u16 tlv_name" where "tlv_time_interval = (21, u16_codec)"
definition tlv_dev_states_req :: "bitmap tlv_name" where "tlv_dev_states_req = (24, bitmap_codec 16)"
definition tlv_link_id_list :: "link_id list tlv_name" where "tlv_link_id_list = (25, vector_codec link_id_codec)"
definition tlv_get_status_req_set :: "link_status_req tlv_name" where "tlv_get_status_req_set = (27, link_status_req_codec)"
definition tlv_get_status_rsp_list :: "(u8 \<Rightarrow> link_desc_rsp) \<Rightarrow> status_rsp list tlv_name" where
  "tlv_get_status_rsp_list pick = (28, vector_codec (status_rsp_codec pick))"
definition tlv_link_cfg_param_list :: "link_cfg_param list tlv_name" where
  "tlv_link_cfg_param_list = (29, vector_codec link_cfg_param_codec)"
definition tlv_link_cfg_status_list :: "link_cfg_status list tlv_name" where
  "tlv_link_cfg_status_list = (30, vector_codec link_cfg_status_codec)"
definition tlv_link_action_list :: "link_action_req list tlv_name" where
  "tlv_link_action_list = (38, vector_codec link_action_req_codec)"
definition tlv_link_action_rsp_list :: "link_action_rsp list tlv_name" where
  "tlv_link_action_rsp_list = (39, vector_codec link_action_rsp_codec)"
definition tlv_link_det_info_list :: "link_det_info list tlv_name" where
  "tlv_link_det_info_list = (58, vector_codec link_det_info_codec)"
definition tlv_poa :: "link_addr tlv_name" where "tlv_poa = (60, link_addr_codec)"
definition tlv_link_evt_list :: "bitmap tlv_name" where "tlv_link_evt_list = (101, bitmap_codec 32)"
definition tlv_link_cmd_list :: "bitmap tlv_name" where "tlv_link_cmd_list = (102, bitmap_codec 32)"
definition tlv_link_parameters_req :: "link_param_type list tlv_name" where
  "tlv_link_parameters_req = (103, vector_codec link_param_type_codec)"
definition tlv_link_parameters_status_list :: "link_param list tlv_name" where
  "tlv_link_parameters_status_list = (104, vector_codec link_param_codec)"
definition tlv_link_states_req :: "bitmap tlv_name" where "tlv_link_states_req = (105, bitmap_codec 16)"
definition tlv_link_states_rsp :: "link_states_rsp list tlv_name" where
  "tlv_link_states_rsp = (106, vector_codec link_states_rsp_codec)"
definition tlv_link_descriptor_req :: "bitmap tlv_name" where "tlv_link_descriptor_req = (107, bitmap_codec 16)"
definition tlv_link_descriptor_rsp :: "(u8 \<Rightarrow> link_desc_rsp) \<Rightarrow> link_desc_rsp list tlv_name" where
  "tlv_link_descriptor_rsp pick = (108, vector_codec (link_desc_rsp_codec pick))"
definition tlv_link_action :: "link_action tlv_name" where "tlv_link_action = (109, link_action_codec)"
definition tlv_link_ac_result :: "u8 tlv_name" where "tlv_link_ac_result = (110, enumeration_codec)"
definition tlv_link_scan_rsp_list :: "link_scan_rsp list tlv_name" where
  "tlv_link_scan_rsp_list = (111, vector_codec link_scan_rsp_codec)"
definition tlv_link_det_info :: "link_det_info tlv_name" where "tlv_link_det_info = (112, link_det_info_codec)"
definition tlv_interface_type_addr :: "link_id tlv_name" where "tlv_interface_type_addr = (113, link_id_codec)"
definition tlv_mos_dscv :: "mos_dscv tlv_name" where "tlv_mos_dscv = (114, mos_dscv_codec)"
definition tlv_configuration_list :: "configuration list tlv_name" where
  "tlv_configuration_list = (115, vector_codec configuration_codec)"
definition tlv_ip_addr_list :: "ip_info list tlv_name" where "tlv_ip_addr_list = (116, vector_codec ip_info_codec)"
definition tlv_ip_route_list :: "ip_info list tlv_name" where "tlv_ip_route_list = (117, vector_codec ip_info_codec)"
definition tlv_ip_dns_list :: "transport_addr list tlv_name" where "tlv_ip_dns_list = (118, vector_codec ip_addr_codec)"
definition tlv_fqdn_list :: "octet_string list tlv_name" where "tlv_fqdn_list = (119, vector_codec octet_string_codec)"

text \<open>Reading into a fresh variable, and writing.\<close>

definition rd :: "'a tlv_name \<Rightarrow> (iarchive, 'a) eff" where
  "rd t = get (mand t) (dflt (snd t))"

definition rd_opt :: "'a tlv_name \<Rightarrow> (iarchive, 'a option) eff" where
  "rd_opt t = get (opti t) None"

definition wr :: "'a tlv_name \<Rightarrow> 'a \<Rightarrow> (oarchive, unit) eff" where
  "wr t = put (mand t)"

definition wr_opt :: "'a tlv_name \<Rightarrow> 'a option \<Rightarrow> (oarchive, unit) eff" where
  "wr_opt t = put (opti t)"

section \<open>Serialization\<close>

lemma ip_laws1 [codec_intros]: "codec_law1 ip_subnet_info_codec"
  unfolding ip_subnet_info_codec_def by (intro codec_intros; auto)

lemma ip_info_law1 [codec_intros]: "codec_law1 ip_info_codec"
  unfolding ip_info_codec_def using ip_laws1 [THEN codec_law_of1] by (intro codec_intros; auto)

end
