(* ===== verification/Mihf_Net.thy ===== *)
theory Mihf_Net
  imports Mihf_Books Mihf_Pools Mih_Tlv_Types
begin

text \<open>
  The network side of the MIHF: \<open>meta_message\<close> objects behind shared pointers, the socket
  helpers and the capability summary of \<open>utils.cpp\<close>, and the choice of a route in
  \<open>net_sap.cpp\<close>. Messages live in a store because several owners change them through the same
  \<open>boost::shared_ptr\<close>. What the boost libraries do is a parameter, the record \<open>platform\<close>.
\<close>

section \<open>State\<close>

type_synonym mptr = nat

datatype protocol = Tcp | Udp

record packet =
  pk_protocol :: protocol
  pk_ip :: octet_string
  pk_port :: u16
  pk_src_port :: u16
  pk_interface :: "nat option"
  pk_frame :: frame

text \<open>
  What the operating system accepts: connecting to an endpoint, setting the broadcast option
  of a TCP socket that is not open yet, opening and binding a UDP socket for an address, and
  choosing the n-th interface for multicast. A refusal is an exception of \<open>boost::asio\<close>. The
  last field is the alternative a \<open>boost::variant\<close> of two equal types takes on assignment.
\<close>

record platform =
  pf_tcp :: "octet_string \<Rightarrow> u16 \<Rightarrow> bool"
  pf_tcp_broadcast :: bool
  pf_udp :: "octet_string \<Rightarrow> u16 \<Rightarrow> bool"
  pf_interface :: "nat \<Rightarrow> bool"
  pf_desc :: "u8 \<Rightarrow> link_desc_rsp"

record net =
  n_heap :: "mptr \<Rightarrow> meta_message"
  n_next :: mptr
  n_mihfid :: mihf_id
  n_abook :: address_book
  n_rport :: u16
  n_sent :: "packet list"

definition msg :: "mptr \<Rightarrow> ('a net_scheme, meta_message) eff" where
  "msg p = gets (\<lambda>n. n_heap n p)"

definition msg_do :: "mptr \<Rightarrow> (meta_message, 'b) eff \<Rightarrow> ('a net_scheme, 'b) eff" where
  "msg_do p f n = (case f (n_heap n p) of (r, m) \<Rightarrow> (r, n\<lparr>n_heap := (n_heap n)(p := m)\<rparr>))"

definition msg_upd :: "mptr \<Rightarrow> (meta_message \<Rightarrow> meta_message) \<Rightarrow> ('a net_scheme, unit) eff" where
  "msg_upd p f = upd (\<lambda>n. n\<lparr>n_heap := (n_heap n)(p := f (n_heap n p))\<rparr>)"

definition msg_new :: "meta_message \<Rightarrow> ('a net_scheme, mptr) eff" where
  "msg_new m n = (Inr (n_next n), n\<lparr>n_heap := (n_heap n)(n_next n := m), n_next := Suc (n_next n)\<rparr>)"

definition of_sum :: "exn + 'b \<Rightarrow> ('s, 'b) eff" where
  "of_sum r s = (r, s)"

section \<open>utils.cpp\<close>

definition default_local_mihfid :: mihf_id where
  "default_local_mihfid = ''local-mihf''"

definition this_mihf_is_destination :: "mihf_id \<Rightarrow> 'a message_scheme \<Rightarrow> bool" where
  "this_mihf_is_destination mihfid m \<longleftrightarrow> mihfid = m_dst m \<or> default_local_mihfid = m_dst m"

definition is_multicast :: "'a message_scheme \<Rightarrow> bool" where
  "is_multicast m \<longleftrightarrow> length (m_dst m) = 0"

definition c_str :: "octet_string \<Rightarrow> octet_string" where
  "c_str s = takeWhile (\<lambda>c. c \<noteq> CHR 0x00) s"

definition sent :: "packet \<Rightarrow> ('a net_scheme, unit) eff" where
  "sent pk = upd (\<lambda>n. n\<lparr>n_sent := n_sent n @ [pk]\<rparr>)"

text \<open>
  Both functions hand the frame to an asynchronous operation and return: the model records the frame
  at that moment as sent. The source keeps the frame in a local buffer and closes the socket at once,
  so whether the octets leave the host is up to the platform and outside the model.
\<close>

definition tcp_send :: "platform \<Rightarrow> mptr \<Rightarrow> octet_string \<Rightarrow> u16 \<Rightarrow> u16 \<Rightarrow> ('a net_scheme, unit) eff" where
  "tcp_send pf p dst_ip dst_port src_port =
     bnd (msg p) (\<lambda>m.
     if is_multicast m \<and> \<not> pf_tcp_broadcast pf then throw system_error
     else if \<not> pf_tcp pf dst_ip dst_port then throw system_error
     else bnd (of_sum (get_frame m)) (\<lambda>fm.
       sent \<lparr>pk_protocol = Tcp, pk_ip = dst_ip, pk_port = dst_port, pk_src_port = src_port,
             pk_interface = None, pk_frame = fm\<rparr>))"

text \<open>
  The multicast branch sends on the interfaces 1 to 5 and gives up at the first one that is
  refused. The scope of the message is set on a temporary and has no effect.
\<close>

definition udp_send :: "platform \<Rightarrow> mptr \<Rightarrow> octet_string \<Rightarrow> u16 \<Rightarrow> u16 \<Rightarrow> ('a net_scheme, unit) eff" where
  "udp_send pf p dst_ip dst_port src_port =
     bnd (msg p) (\<lambda>m. bnd (of_sum (get_frame m)) (\<lambda>fm.
     if \<not> pf_udp pf dst_ip src_port then throw system_error
     else let pk = \<lparr>pk_protocol = Udp, pk_ip = dst_ip, pk_port = dst_port, pk_src_port = src_port,
                    pk_interface = None, pk_frame = fm\<rparr> in
       if dst_ip = ''ff02::1''
       then for_each (\<lambda>i. sent (pk\<lparr>pk_interface := Some i\<rparr>)) (takeWhile (pf_interface pf) [1, 2, 3, 4, 5])
       else sent pk))"

text \<open>The loops over the 32 events copy the set bits of one bitmap to an empty one.\<close>

definition copy_bits :: "nat list \<Rightarrow> bitmap \<Rightarrow> bitmap \<Rightarrow> bitmap" where
  "copy_bits is b c = fold (\<lambda>i c. if bm_get b i then bm_set i c else c) is c"

definition sap_commands :: "link_entry \<Rightarrow> bitmap" where
  "sap_commands e =
     (let c = bm_new 32;
          c = (if bm_get (le_cmd_list e) 3 then bm_set 0 c else c);
          c = (if bm_get (le_cmd_list e) 4 then bm_set 1 c else c) in
      if bm_get (le_cmd_list e) 5 then bm_set 2 c else c)"

definition link_net_type_addr :: "link_id \<Rightarrow> net_type_addr" where
  "link_net_type_addr l = \<lparr>nta_nettype = \<lparr>nt_link = Some (lid_type l), nt_subtype = None, nt_typeext = None\<rparr>,
     nta_addr = lid_addr l\<rparr>"

fun link_capabilities ::
  "link_book \<Rightarrow> mihf_id list \<Rightarrow> net_type_addr list \<times> bitmap \<times> bitmap \<Rightarrow> exn + net_type_addr list \<times> bitmap \<times> bitmap" where
  "link_capabilities lbook [] acc = Inr acc"
| "link_capabilities lbook (ident # ids) (ntas, evts, cmds) =
     (case lbook_get lbook ident of
        Inl e \<Rightarrow> Inl e
      | Inr sap \<Rightarrow> link_capabilities lbook ids
          (if le_status sap
           then (ntas @ [link_net_type_addr (le_link_id sap)],
                 bm_common evts (copy_bits [0..<32] (le_event_list sap) (bm_new 32)),
                 bm_common cmds (sap_commands sap))
           else (ntas, evts, cmds)))"

text \<open>The flags \<open>has_cmd\<close> and \<open>has_iq\<close> with the merged lists of the MIH-Users.\<close>

fun user_capabilities ::
  "user_book \<Rightarrow> mihf_id list \<Rightarrow> (bool \<times> bitmap) \<times> (bool \<times> bitmap) \<Rightarrow> exn + (bool \<times> bitmap) \<times> (bool \<times> bitmap)" where
  "user_capabilities ubook [] acc = Inr acc"
| "user_capabilities ubook (ident # ids) ((has_cmd, cmds), (has_iq, qs)) =
     (case ubook_get ubook ident of
        Inl e \<Rightarrow> Inl e
      | Inr u \<Rightarrow> user_capabilities ubook ids
          (let (hc, c) = (case ue_supp_cmd u of None \<Rightarrow> (False, bm_new 32)
                          | Some l \<Rightarrow> (\<exists>i \<in> set [3..<32]. bm_get l i, copy_bits [3..<32] l (bm_new 32)));
               (hq, q) = (case ue_supp_iq u of None \<Rightarrow> (False, bm_new 64)
                          | Some l \<Rightarrow> (\<exists>i \<in> set [0..<32]. bm_get l i, copy_bits [0..<32] l (bm_new 64))) in
           ((has_cmd \<or> hc, bm_merge cmds c), (has_iq \<or> hq, bm_merge qs q))))"

definition update_local_capabilities :: "mihf_id \<Rightarrow> link_book \<Rightarrow> user_book \<Rightarrow> (address_book, unit) eff" where
  "update_local_capabilities mihfid lbook ubook =
     bnd (of_sum (link_capabilities lbook (lbook_get_ids lbook) ([], bm_full (bm_new 32), bm_full (bm_new 32)))) (\<lambda>(ntas, evts, cmds).
     seq (if length ntas = 0
          then seq (upd (abook_set_link_address_list mihfid None)) (seq (upd (abook_set_event_list mihfid None))
                 (upd (abook_set_command_list mihfid None)))
          else seq (upd (abook_set_link_address_list mihfid (Some ntas))) (seq (upd (abook_set_event_list mihfid (Some evts)))
                 (upd (abook_set_command_list mihfid (Some cmds)))))
     (bnd (of_sum (user_capabilities ubook (ubook_get_ids ubook) ((False, cmds), (False, bm_new 64)))) (\<lambda>((has_cmd, cmds), (has_iq, qs)).
     seq (upd (abook_set_command_list mihfid (if has_cmd then Some cmds else None)))
       (upd (abook_set_query_list mihfid (if has_iq then Some qs else None))))))"

section \<open>net_sap.cpp\<close>

definition net_sap_send :: "platform \<Rightarrow> mptr \<Rightarrow> ('a net_scheme, unit) eff" where
  "net_sap_send pf p = bnd (gets n_rport) (\<lambda>port. try_catch
     (bnd (gets (\<lambda>n. abook_get (n_abook n) (n_mihfid n))) (\<lambda>src. bnd (of_sum src) (\<lambda>src.
      bnd (gets (\<lambda>n. abook_get (n_abook n) (m_dst (n_heap n p)))) (\<lambda>dst. bnd (of_sum dst) (\<lambda>dst.
      case ae_trans_list dst of
        Some l \<Rightarrow> if bm_get l 1
          then (case ae_trans_list src of
                  None \<Rightarrow> throw undefined_behaviour
                | Some l' \<Rightarrow> if bm_get l' 1 then tcp_send pf p (c_str (ae_ip dst)) (ae_port dst) port
                             else udp_send pf p (c_str (ae_ip dst)) (ae_port dst) port)
          else udp_send pf p (c_str (ae_ip dst)) (ae_port dst) port
      | None \<Rightarrow> udp_send pf p (c_str (ae_ip dst)) (ae_port dst) port)))))
     catchable
     (bnd (msg p) (\<lambda>m.
      if mm_ip m \<noteq> [] \<and> mm_ip m \<noteq> ''127.0.0.1''
      then udp_send pf p (c_str (mm_ip m)) (if mm_port m \<noteq> 0 then mm_port m else 4551) port
      else if is_multicast m then udp_send pf p ''ff02::1'' 4551 port
      else ret ())))"

section \<open>Sending changes nothing but the packets sent\<close>

lemma of_sum_run [simp, eff_simps]: "of_sum r s = (r, s)"
  by (simp add: of_sum_def)

lemma msg_run [simp, eff_simps]: "msg p n = (Inr (n_heap n p), n)"
  by (simp add: msg_def)

lemma sent_run [simp, eff_simps]: "sent pk n = (Inr (), n\<lparr>n_sent := n_sent n @ [pk]\<rparr>)"
  by (simp add: sent_def)

lemma for_each_sent: "for_each (\<lambda>x. sent (f x)) xs n = (Inr (), n\<lparr>n_sent := n_sent n @ map f xs\<rparr>)"
  by (induction xs arbitrary: n) simp_all

definition udp_packets :: "platform \<Rightarrow> packet \<Rightarrow> packet list" where
  "udp_packets pf pk = (if pk_ip pk = ''ff02::1''
     then map (\<lambda>i. pk\<lparr>pk_interface := Some i\<rparr>) (takeWhile (pf_interface pf) [1, 2, 3, 4, 5]) else [pk])"

lemma udp_send_result:
  "udp_send pf p ip port src n =
     (case get_frame (n_heap n p) of
        Inl e \<Rightarrow> (Inl e, n)
      | Inr fm \<Rightarrow> if pf_udp pf ip src
          then (Inr (), n\<lparr>n_sent := n_sent n @ udp_packets pf \<lparr>pk_protocol = Udp, pk_ip = ip, pk_port = port,
                  pk_src_port = src, pk_interface = None, pk_frame = fm\<rparr>\<rparr>)
          else (Inl system_error, n))"
  by (simp add: udp_send_def bnd_def for_each_sent udp_packets_def Let_def split: sum.split)

lemma tcp_send_result:
  "tcp_send pf p ip port src n =
     (if is_multicast (n_heap n p) \<and> \<not> pf_tcp_broadcast pf \<or> \<not> pf_tcp pf ip port then (Inl system_error, n)
      else case get_frame (n_heap n p) of
        Inl e \<Rightarrow> (Inl e, n)
      | Inr fm \<Rightarrow> (Inr (), n\<lparr>n_sent := n_sent n @ [\<lparr>pk_protocol = Tcp, pk_ip = ip, pk_port = port,
                  pk_src_port = src, pk_interface = None, pk_frame = fm\<rparr>]\<rparr>))"
  by (auto simp: tcp_send_def bnd_def split: sum.split)

lemma no_packets: "n\<lparr>n_sent := n_sent n @ []\<rparr> = n"
  by simp

definition sends :: "('a net_scheme, 'b) eff \<Rightarrow> bool" where
  "sends f \<longleftrightarrow> (\<forall>n. \<exists>r pks. f n = (r, n\<lparr>n_sent := n_sent n @ pks\<rparr>))"

named_theorems sends_intros \<open>operations that only send packets\<close>

lemma sends_quiet [sends_intros]: "sends (ret x)" "sends (throw e)" "sends (gets f)" "sends (msg p)" "sends (of_sum r)"
  by (simp_all add: sends_def) (metis no_packets)+

lemma sends_udp [sends_intros]: "sends (udp_send pf p ip port src)"
  unfolding sends_def udp_send_result by (auto split: sum.split) (metis no_packets)+

lemma sends_tcp [sends_intros]: "sends (tcp_send pf p ip port src)"
  unfolding sends_def tcp_send_result by (auto split: sum.split) (metis no_packets)+

lemma sends_more:
  assumes "sends f"
  obtains r pks where "f (n\<lparr>n_sent := xs\<rparr>) = (r, n\<lparr>n_sent := xs @ pks\<rparr>)"
  using assms [unfolded sends_def, rule_format, of "n\<lparr>n_sent := xs\<rparr>"] by auto

lemma sends_bnd [sends_intros]:
  assumes m: "sends m" and f: "\<And>x. sends (f x)"
  shows "sends (bnd m f)"
  unfolding sends_def
proof
  fix n
  obtain r pks where 1: "m n = (r, n\<lparr>n_sent := n_sent n @ pks\<rparr>)"
    using m unfolding sends_def by blast
  show "\<exists>r pks. bnd m f n = (r, n\<lparr>n_sent := n_sent n @ pks\<rparr>)"
  proof (cases r)
    case (Inl e)
    with 1 show ?thesis by auto
  next
    case (Inr x)
    obtain r' pks' where "f x (n\<lparr>n_sent := n_sent n @ pks\<rparr>) = (r', n\<lparr>n_sent := n_sent n @ pks @ pks'\<rparr>)"
      using sends_more [OF f [of x], where n = n and xs = "n_sent n @ pks"] by auto
    with 1 Inr show ?thesis by auto
  qed
qed

lemma sends_try [sends_intros]:
  assumes m: "sends m" and h: "sends h"
  shows "sends (try_catch m c h)"
  unfolding sends_def
proof
  fix n
  obtain r pks where 1: "m n = (r, n\<lparr>n_sent := n_sent n @ pks\<rparr>)"
    using m unfolding sends_def by blast
  obtain r' pks' where "h (n\<lparr>n_sent := n_sent n @ pks\<rparr>) = (r', n\<lparr>n_sent := n_sent n @ pks @ pks'\<rparr>)"
    using sends_more [OF h, where n = n and xs = "n_sent n @ pks"] by auto
  with 1 show "\<exists>r pks. try_catch m c h n = (r, n\<lparr>n_sent := n_sent n @ pks\<rparr>)"
    by (cases r) auto
qed

lemma sends_if [sends_intros]: "sends a \<Longrightarrow> sends b \<Longrightarrow> sends (if c then a else b)"
  by simp

lemma sends_option [sends_intros]:
  "sends a \<Longrightarrow> (\<And>x. sends (f x)) \<Longrightarrow> sends (case v of None \<Rightarrow> a | Some x \<Rightarrow> f x)"
  by (cases v) simp_all

lemma sends_net_sap: "sends (net_sap_send pf p)"
  unfolding net_sap_send_def
  by (intro sends_intros)

section \<open>Routes\<close>

definition supports_tcp :: "address_entry \<Rightarrow> bool" where
  "supports_tcp e \<longleftrightarrow> (case ae_trans_list e of None \<Rightarrow> False | Some l \<Rightarrow> bm_get l 1)"

text \<open>Where a message goes: a specification over the address book as a finite map.\<close>

definition route :: "(mihf_id \<rightharpoonup> address_entry) \<Rightarrow> mihf_id \<Rightarrow> meta_message \<Rightarrow> (protocol \<times> octet_string \<times> u16) option" where
  "route book me m =
     (case (book me, book (m_dst m)) of
        (Some s, Some d) \<Rightarrow> Some (if supports_tcp s \<and> supports_tcp d then Tcp else Udp, c_str (ae_ip d), ae_port d)
      | _ \<Rightarrow> if mm_ip m \<notin> {[], ''127.0.0.1''} then Some (Udp, c_str (mm_ip m), if mm_port m = 0 then 4551 else mm_port m)
             else if m_dst m = [] then Some (Udp, ''ff02::1'', 4551)
             else None)"

fun route_packets :: "platform \<Rightarrow> u16 \<Rightarrow> frame \<Rightarrow> (protocol \<times> octet_string \<times> u16) option \<Rightarrow> packet list" where
  "route_packets pf src fm None = []"
| "route_packets pf src fm (Some (pr, ip, port)) =
     (let pk = \<lparr>pk_protocol = pr, pk_ip = ip, pk_port = port, pk_src_port = src, pk_interface = None, pk_frame = fm\<rparr> in
      case pr of Tcp \<Rightarrow> [pk] | Udp \<Rightarrow> udp_packets pf pk)"

definition platform_up :: "platform \<Rightarrow> bool" where
  "platform_up pf \<longleftrightarrow> (\<forall>ip port. pf_udp pf ip port) \<and> (\<forall>ip port. pf_tcp pf ip port) \<and> pf_tcp_broadcast pf"

text \<open>
  C36: Sending a message to a peer puts exactly the encoded message on the route its address
  book entry gives: TCP if both sides support it, UDP otherwise; without an entry the address
  the message came from, port 4551 if it has none; without that, the multicast group for a
  message with no destination, once per interface; and nowhere otherwise. Nothing else of the
  state changes. This holds for a message that can be encoded, on a platform that refuses no
  send, when the MIHF itself is in the address book with its list of transports.
\<close>

theorem net_sap_send_routes:
  assumes "platform_up pf" "get_frame (n_heap n p) = Inr fm"
    and "map_of (n_abook n) (n_mihfid n) = Some me" "ae_trans_list me = Some l"
  shows "net_sap_send pf p n = (Inr (), n\<lparr>n_sent := n_sent n
      @ route_packets pf (n_rport n) fm (route (map_of (n_abook n)) (n_mihfid n) (n_heap n p))\<rparr>)"
proof -
  have up: "pf_udp pf ip port" "pf_tcp pf ip port" "pf_tcp_broadcast pf" for ip port
    using assms(1) by (simp_all add: platform_up_def)
  note defs = net_sap_send_def route_def try_catch_def udp_send_result tcp_send_result up abook_get_def
    supports_tcp_def is_multicast_def bnd_def assms
  show ?thesis
  proof (cases "map_of (n_abook n) (m_dst (n_heap n p))")
    case None
    then show ?thesis by (simp add: defs)
  next
    case (Some e)
    then show ?thesis by (cases "ae_trans_list e") (simp_all add: defs)
  qed
qed

definition all_up :: platform where
  "all_up = \<lparr>pf_tcp = \<lambda>_ _. True, pf_tcp_broadcast = True, pf_udp = \<lambda>_ _. True, pf_interface = \<lambda>i. i < 3, pf_desc = Num_cos\<rparr>"

definition hello :: meta_message where
  "hello = meta_message_new\<lparr>m_mid := request Event_subscribe, m_tid := 7, m_src := ''mihf1'', m_dst := ''mihf2''\<rparr>"

definition net_two :: net where
  "net_two = \<lparr>n_heap = \<lambda>_. hello, n_next = 1, n_mihfid = ''mihf1'',
     n_abook = [(''mihf1'', peer_entry\<lparr>ae_trans_list := Some [3, 0]\<rparr>), (''mihf2'', peer_entry\<lparr>ae_trans_list := Some [2, 0]\<rparr>)],
     n_rport = 4551, n_sent = []\<rparr>"

lemma hello_frame: "\<exists>fm. get_frame hello = Inr fm"
proof -
  have "message_ok hello"
    by (simp add: hello_def message_ok_def header_ok_def meta_message_new_def enc_ids_def id_codec_def archive_new_def
        tlv_codec_def octet_string_codec_def tlv_wf_def enc_tlv_def enc_bytes_def enc_len_def len_ok_def)
  from get_frame_result [OF this] show ?thesis by blast
qed

theorem net_sap_send_routes_witness:
  "\<exists>fm. get_frame hello = Inr fm \<and> net_sap_send all_up 0 net_two
     = (Inr (), net_two\<lparr>n_sent := [\<lparr>pk_protocol = Tcp, pk_ip = ''10.0.0.2'', pk_port = 4551, pk_src_port = 4551,
          pk_interface = None, pk_frame = fm\<rparr>]\<rparr>)"
proof -
  obtain fm where fm: "get_frame hello = Inr fm" using hello_frame by blast
  from net_sap_send_routes [of all_up net_two 0 fm "peer_entry\<lparr>ae_trans_list := Some [3, 0]\<rparr>" "[3, 0]"] fm show ?thesis
    by (simp add: net_two_def platform_up_def all_up_def route_def supports_tcp_def bm_get_def hello_def
        peer_entry_def c_str_def Let_def)
qed

text \<open>
  C39: A peer that is registered with TCP but refuses the connection is treated like an unknown
  one: a message that was not received from the network, so that it carries no address, and has
  a destination is not sent at all, and the caller is not told; only the log mentions it.
\<close>

theorem net_sap_tcp_refused_lost:
  assumes "map_of (n_abook n) (n_mihfid n) = Some me" "map_of (n_abook n) (m_dst (n_heap n p)) = Some e"
    and "supports_tcp me" "supports_tcp e" "\<not> pf_tcp pf (c_str (ae_ip e)) (ae_port e)"
    and "mm_ip (n_heap n p) = []" "m_dst (n_heap n p) \<noteq> []"
  shows "net_sap_send pf p n = (Inr (), n)"
  using assms
  by (cases "ae_trans_list me"; cases "ae_trans_list e")
    (simp_all add: net_sap_send_def try_catch_def tcp_send_result abook_get_def bnd_def supports_tcp_def is_multicast_def)

theorem net_sap_tcp_refused_lost_witness:
  "net_sap_send (all_up\<lparr>pf_tcp := \<lambda>_ _. False\<rparr>) 0 net_two = (Inr (), net_two)"
  using net_sap_tcp_refused_lost [of net_two "peer_entry\<lparr>ae_trans_list := Some [3, 0]\<rparr>" 0
      "peer_entry\<lparr>ae_trans_list := Some [2, 0]\<rparr>" "all_up\<lparr>pf_tcp := \<lambda>_ _. False\<rparr>"]
  by (simp add: net_two_def hello_def meta_message_new_def supports_tcp_def bm_get_def)

section \<open>Local capabilities\<close>

definition active_saps :: "link_book \<Rightarrow> link_entry list" where
  "active_saps lbook = filter le_status (map snd lbook)"

lemma copy_bits_length [simp]: "length (copy_bits is b c) = length c"
  by (induction "is" arbitrary: c) (simp_all add: copy_bits_def)

lemma copy_bits_get:
  "\<forall>i \<in> set is. i < 8 * length c \<Longrightarrow> q < 8 * length c
     \<Longrightarrow> bm_get (copy_bits is b c) q \<longleftrightarrow> q \<in> set is \<and> bm_get b q \<or> bm_get c q"
proof (induction "is" arbitrary: c)
  case Nil
  then show ?case by (simp add: copy_bits_def)
next
  case (Cons i ix)
  have "copy_bits (i # ix) b c = copy_bits ix b (if bm_get b i then bm_set i c else c)"
    by (simp add: copy_bits_def)
  with Cons show ?case by (auto simp: bm_get_set)
qed

lemma length_new: "length (bm_new 32) = 4"
  by (simp add: bm_new_def)

lemma sap_commands_length [simp]: "length (sap_commands e) = 4"
  by (simp add: sap_commands_def Let_def bm_new_def)

lemma link_capabilities_result:
  assumes "\<forall>(k, e) \<in> set xs. map_of lb k = Some e"
  shows "link_capabilities lb (map fst xs) (ntas, evts, cmds) =
     Inr (ntas @ map (link_net_type_addr \<circ> le_link_id) (active_saps xs),
          fold (\<lambda>e b. bm_common b (copy_bits [0..<32] (le_event_list e) (bm_new 32))) (active_saps xs) evts,
          fold (\<lambda>e b. bm_common b (sap_commands e)) (active_saps xs) cmds)"
  using assms
  by (induction xs arbitrary: ntas evts cmds)
    (auto simp: active_saps_def lbook_get_def split: prod.splits simp del: upt_rec_numeral)

lemma fold_common_get:
  assumes "\<forall>e. length (f e) = length b" "q < 8 * length b"
  shows "bm_get (fold (\<lambda>e b. bm_common b (f e)) es b) q \<longleftrightarrow> bm_get b q \<and> (\<forall>e \<in> set es. bm_get (f e) q)"
  using assms
proof (induction es arbitrary: b)
  case Nil
  then show ?case by simp
next
  case (Cons e es)
  then have "length (bm_common b (f e)) = length b" by simp
  with Cons.IH [of "bm_common b (f e)"] Cons.prems show ?case by (auto simp: bm_get_map2)
qed

definition offers_commands :: "user_entry \<Rightarrow> bool" where
  "offers_commands u \<longleftrightarrow> (case ue_supp_cmd u of None \<Rightarrow> False | Some l \<Rightarrow> \<exists>i \<in> set [3..<32]. bm_get l i)"

definition offers_queries :: "user_entry \<Rightarrow> bool" where
  "offers_queries u \<longleftrightarrow> (case ue_supp_iq u of None \<Rightarrow> False | Some l \<Rightarrow> \<exists>i \<in> set [0..<32]. bm_get l i)"

definition user_bits :: "nat list \<Rightarrow> nat \<Rightarrow> bitmap option \<Rightarrow> bitmap" where
  "user_bits is n l = (case l of None \<Rightarrow> bm_new n | Some l \<Rightarrow> copy_bits is l (bm_new n))"

lemma user_capabilities_result:
  assumes "\<forall>(k, e) \<in> set xs. map_of ub k = Some e"
  shows "user_capabilities ub (map fst xs) ((hc, cmds), (hq, qs)) = Inr
    ((hc \<or> list_ex (offers_commands \<circ> snd) xs, fold (\<lambda>u b. bm_merge b (user_bits [3..<32] 32 (ue_supp_cmd u))) (map snd xs) cmds),
     (hq \<or> list_ex (offers_queries \<circ> snd) xs, fold (\<lambda>u b. bm_merge b (user_bits [0..<32] 64 (ue_supp_iq u))) (map snd xs) qs))"
  using assms
proof (induction xs arbitrary: hc cmds hq qs)
  case Nil
  then show ?case by simp
next
  case (Cons x xs)
  obtain k u where x: "x = (k, u)" by (cases x)
  with Cons.prems have "map_of ub k = Some u" and xs: "\<forall>(k, e) \<in> set xs. map_of ub k = Some e" by auto
  then show ?case
    using Cons.IH [OF xs]
    by (cases "ue_supp_cmd u"; cases "ue_supp_iq u")
      (simp_all add: x ubook_get_def offers_commands_def offers_queries_def user_bits_def Let_def disj_assoc
        del: upt_rec_numeral set_upt)
qed

text \<open>What a Link SAP and a user contribute to the lists, by the number of the command or query.\<close>

definition sap_offers :: "nat \<Rightarrow> link_entry \<Rightarrow> bool" where
  "sap_offers q s \<longleftrightarrow> q < 3 \<and> bm_get (le_cmd_list s) (q + 3)"

definition user_offers :: "nat \<Rightarrow> user_entry \<Rightarrow> bool" where
  "user_offers q u \<longleftrightarrow> 3 \<le> q \<and> (case ue_supp_cmd u of None \<Rightarrow> False | Some l \<Rightarrow> bm_get l q)"

definition user_answers :: "nat \<Rightarrow> user_entry \<Rightarrow> bool" where
  "user_answers q u \<longleftrightarrow> q < 32 \<and> (case ue_supp_iq u of None \<Rightarrow> False | Some l \<Rightarrow> bm_get l q)"

lemma fold_merge_get:
  assumes "\<forall>e. length (f e) = length b" "q < 8 * length b"
  shows "bm_get (fold (\<lambda>e b. bm_merge b (f e)) es b) q \<longleftrightarrow> bm_get b q \<or> (\<exists>e \<in> set es. bm_get (f e) q)"
  using assms
proof (induction es arbitrary: b)
  case Nil
  then show ?case by simp
next
  case (Cons e es)
  then have "length (bm_merge b (f e)) = length b" by simp
  with Cons.IH [of "bm_merge b (f e)"] Cons.prems show ?case by (auto simp: bm_get_map2)
qed

lemma fold_merge_length: "\<forall>e. length (f e) = length b \<Longrightarrow> length (fold (\<lambda>e b. bm_merge b (f e)) es b) = length b"
  by (induction es arbitrary: b) simp_all

lemma fold_common_length: "\<forall>e. length (f e) = length b \<Longrightarrow> length (fold (\<lambda>e b. bm_common b (f e)) es b) = length b"
  by (induction es arbitrary: b) simp_all

lemma sap_commands_get: "q < 32 \<Longrightarrow> bm_get (sap_commands s) q = sap_offers q s"
proof -
  have *: "sap_offers q s \<longleftrightarrow> q = 0 \<and> bm_get (le_cmd_list s) 3 \<or> q = 1 \<and> bm_get (le_cmd_list s) 4 \<or> q = 2 \<and> bm_get (le_cmd_list s) 5"
  proof -
    have "q < 3 \<longleftrightarrow> q = 0 \<or> q = 1 \<or> q = 2" by linarith
    then show ?thesis by (auto simp: sap_offers_def simp del: One_nat_def)
  qed
  show "q < 32 \<Longrightarrow> bm_get (sap_commands s) q = sap_offers q s"
    unfolding * by (auto simp: sap_commands_def Let_def bm_get_set bm_get_new length_new)
qed

lemma length_new_64: "length (bm_new 64) = 8"
  by (simp add: bm_new_def)

definition all_commands :: "link_book \<Rightarrow> user_book \<Rightarrow> bitmap" where
  "all_commands lb ub = fold (\<lambda>u b. bm_merge b (user_bits [3..<32] 32 (ue_supp_cmd u))) (map snd ub)
     (fold (\<lambda>e b. bm_common b (sap_commands e)) (active_saps lb) (bm_full (bm_new 32)))"

definition all_queries :: "user_book \<Rightarrow> bitmap" where
  "all_queries ub = fold (\<lambda>u b. bm_merge b (user_bits [0..<32] 64 (ue_supp_iq u))) (map snd ub) (bm_new 64)"

lemma user_bits_length: "length (user_bits is 32 l) = 4" "length (user_bits is 64 l) = 8"
  by (simp_all add: user_bits_def length_new length_new_64 split: option.split)

lemma user_bits_get:
  "q < 32 \<Longrightarrow> bm_get (user_bits [3..<32] 32 (ue_supp_cmd u)) q = user_offers q u"
  "q < 64 \<Longrightarrow> bm_get (user_bits [0..<32] 64 (ue_supp_iq u)) q = user_answers q u"
  by (auto simp: user_bits_def user_offers_def user_answers_def copy_bits_get bm_get_new length_new length_new_64
      simp del: upt_rec_numeral split: option.split)

lemma all_commands_get:
  assumes "q < 32"
  shows "bm_get (all_commands lb ub) q \<longleftrightarrow> list_all (sap_offers q) (active_saps lb) \<or> list_ex (user_offers q \<circ> snd) ub"
proof -
  have "length (fold (\<lambda>e b. bm_common b (sap_commands e)) (active_saps lb) (bm_full (bm_new 32))) = 4"
    by (subst fold_common_length) (simp_all add: length_new)
  then show ?thesis
    using assms
    by (simp add: all_commands_def fold_merge_get fold_common_get user_bits_length user_bits_get sap_commands_get
        bm_get_full length_new list_all_iff list_ex_iff del: upt_rec_numeral)
qed

lemma all_queries_get: "q < 64 \<Longrightarrow> bm_get (all_queries ub) q \<longleftrightarrow> list_ex (user_answers q \<circ> snd) ub"
  by (simp add: all_queries_def fold_merge_get user_bits_length user_bits_get bm_get_new length_new_64 list_ex_iff
      del: upt_rec_numeral)

lemma all_bitmaps_ok: "bm_ok 32 (all_commands lb ub)" "bm_ok 64 (all_queries ub)"
  by (simp_all add: bm_ok_def all_commands_def all_queries_def fold_merge_length fold_common_length user_bits_length
      length_new length_new_64 del: upt_rec_numeral)

lemma map_ok_looks: "map_ok m \<Longrightarrow> \<forall>(k, e) \<in> set m. map_of m k = Some e"
  by (auto simp: map_ok_def strict_sorted_iff intro: map_of_is_SomeI)

definition common_events :: "link_book \<Rightarrow> bitmap" where
  "common_events lb = fold (\<lambda>e b. bm_common b (copy_bits [0..<32] (le_event_list e) (bm_new 32))) (active_saps lb) (bm_full (bm_new 32))"

lemma common_events_ok: "bm_ok 32 (common_events lb)"
proof -
  have "length (fold (\<lambda>e b. bm_common b (f e)) es b) = 4" if "\<forall>e. length (f e) = 4" "length b = 4"
    for f :: "link_entry \<Rightarrow> bitmap" and es b
    using that by (induction es arbitrary: b) simp_all
  then show ?thesis by (simp add: bm_ok_def common_events_def length_new del: upt_rec_numeral)
qed

lemma common_events_get:
  "q < 32 \<Longrightarrow> bm_get (common_events lb) q = list_all (\<lambda>s. bm_get (le_event_list s) q) (active_saps lb)"
  using fold_common_get [of "\<lambda>e. copy_bits [0..<32] (le_event_list e) (bm_new 32)" "bm_full (bm_new 32)" q]
  by (simp add: common_events_def copy_bits_get bm_get_full bm_get_new list_all_iff length_new del: upt_rec_numeral)

lemma update_local_capabilities_result:
  assumes "map_ok lb" "map_ok ub"
  obtains cmds where
    "update_local_capabilities me lb ub ab = (Inr (),
      abook_set_query_list me (if list_ex (offers_queries \<circ> snd) ub then Some (all_queries ub) else None)
      (abook_set_command_list me (if list_ex (offers_commands \<circ> snd) ub then Some (all_commands lb ub) else None)
      (if active_saps lb = [] then abook_set_command_list me None (abook_set_event_list me None (abook_set_link_address_list me None ab))
       else abook_set_command_list me (Some cmds) (abook_set_event_list me (Some (common_events lb))
          (abook_set_link_address_list me (Some (map (link_net_type_addr \<circ> le_link_id) (active_saps lb))) ab)))))"
proof -
  let ?cmds = "fold (\<lambda>e b. bm_common b (sap_commands e)) (active_saps lb) (bm_full (bm_new 32))"
  show thesis
    using that [of ?cmds]
      user_capabilities_result [OF map_ok_looks [OF assms(2)], of False ?cmds False "bm_new 64"]
      link_capabilities_result [OF map_ok_looks [OF assms(1)], of "[]" "bm_full (bm_new 32)" "bm_full (bm_new 32)"]
    by (simp add: update_local_capabilities_def lbook_get_ids_def ubook_get_ids_def map_keys_def common_events_def
        all_commands_def all_queries_def del: upt_rec_numeral)
qed

lemmas abook_capability_setters =
  abook_queries.set_look abook_commands.set_look abook_events.set_look abook_link_addresses.set_look
  abook_queries.set_ok abook_commands.set_ok abook_events.set_ok abook_link_addresses.set_ok

text \<open>
  C37: The capabilities the MIHF announces for itself. The addresses are those of the active Link
  SAPs, in the order of their identifiers, and the events those that every one of them supports;
  there are none without an active Link SAP. A command list is announced exactly if some user
  offers one of the commands from number 3 on: it has the commands all active Link SAPs offer and
  those some user offers, and so all 32 commands when no Link SAP is active. A query list is
  announced exactly if some user answers a query, with the queries some user answers. No other
  entry of the address book changes.
\<close>

theorem local_capabilities_correct:
  assumes "map_ok ab" "map_ok lb" "map_ok ub" "map_of ab me = Some e"
  shows "\<exists>ab' e'. update_local_capabilities me lb ub ab = (Inr (), ab') \<and> map_of ab' me = Some e'
     \<and> ae_list_net_type_addr e' = (if active_saps lb = [] then None
          else Some (map (link_net_type_addr \<circ> le_link_id) (active_saps lb)))
     \<and> (if active_saps lb = [] then ae_event_list e' = None
        else \<exists>l. ae_event_list e' = Some l \<and> bm_ok 32 l
          \<and> (\<forall>q. q < 32 \<longrightarrow> bm_get l q = list_all (\<lambda>s. bm_get (le_event_list s) q) (active_saps lb)))
     \<and> (if list_ex (offers_commands \<circ> snd) ub
        then \<exists>l. ae_cmd_list e' = Some l \<and> bm_ok 32 l
          \<and> (\<forall>q. q < 32 \<longrightarrow> bm_get l q = (list_all (sap_offers q) (active_saps lb) \<or> list_ex (user_offers q \<circ> snd) ub))
        else ae_cmd_list e' = None)
     \<and> (if list_ex (offers_queries \<circ> snd) ub
        then \<exists>l. ae_query_type e' = Some l \<and> bm_ok 64 l
          \<and> (\<forall>q. q < 64 \<longrightarrow> bm_get l q = list_ex (user_answers q \<circ> snd) ub)
        else ae_query_type e' = None)
     \<and> (\<forall>j. j \<noteq> me \<longrightarrow> map_of ab' j = map_of ab j)"
  using assms(1,4) common_events_ok [of lb] common_events_get [of _ lb] all_bitmaps_ok all_commands_get all_queries_get
  by (rule_tac update_local_capabilities_result [OF assms(2,3), of me ab]) (simp add: abook_capability_setters)

theorem local_capabilities_correct_witness:
  "\<exists>ab' e' l. update_local_capabilities ''m1''
        [(''link1'', sap_wifi\<lparr>le_event_list := [6, 0, 0, 0]\<rparr>), (''link2'', sap_wifi\<lparr>le_event_list := [2, 0, 0, 0]\<rparr>)] [] [(''m1'', peer_entry)]
      = (Inr (), ab') \<and> map_of ab' ''m1'' = Some e' \<and> ae_event_list e' = Some l \<and> bm_get l 1 \<and> \<not> bm_get l 2"
proof -
  let ?lb = "[(''link1'', sap_wifi\<lparr>le_event_list := [6, 0, 0, 0]\<rparr>), (''link2'', sap_wifi\<lparr>le_event_list := [2, 0, 0, 0]\<rparr>)]"
  obtain ab' e' l where "update_local_capabilities ''m1'' ?lb [] [(''m1'', peer_entry)] = (Inr (), ab')"
      "map_of ab' ''m1'' = Some e'" "ae_event_list e' = Some l"
    and q: "\<forall>q. q < 32 \<longrightarrow> bm_get l q = list_all (\<lambda>s. bm_get (le_event_list s) q) (active_saps ?lb)"
    using local_capabilities_correct [of "[(''m1'', peer_entry)]" ?lb "[]" "''m1''" peer_entry]
    by (auto simp: map_ok_def active_saps_def sap_wifi_def)
  moreover have "bm_get l 1 \<and> \<not> bm_get l 2"
    using q [rule_format, of 1] q [rule_format, of 2] by (simp add: active_saps_def sap_wifi_def bm_get_def)
  ultimately show ?thesis by blast
qed

text \<open>
  Without a MIH-User that offers one of the commands from number 3 on, the MIHF announces no
  command list at all: the commands of its Link SAPs, stored a few statements earlier, are
  erased again.
\<close>

theorem link_commands_erased:
  assumes "map_ok ab" "map_ok lb" "map_ok ub" "map_of ab me = Some e" "\<not> list_ex (offers_commands \<circ> snd) ub"
  shows "\<exists>ab' e'. update_local_capabilities me lb ub ab = (Inr (), ab') \<and> map_of ab' me = Some e' \<and> ae_cmd_list e' = None"
  using assms(1,4,5)
  by (rule_tac update_local_capabilities_result [OF assms(2,3), of me ab]) (simp add: abook_capability_setters)

theorem link_commands_erased_witness:
  "\<exists>ab' e'. update_local_capabilities ''m1'' [(''link1'', sap_wifi\<lparr>le_cmd_list := [63, 0, 0, 0]\<rparr>)] [] [(''m1'', peer_entry)] = (Inr (), ab')
     \<and> map_of ab' ''m1'' = Some e' \<and> ae_cmd_list e' = None"
  by (rule link_commands_erased) (simp_all add: map_ok_def)

end
