(* ===== verification/Mihf_Transaction.thy ===== *)
theory Mihf_Transaction
  imports Mihf_Net
begin

text \<open>
  Transactions with peer MIHFs: the acknowledgement requestor and responder of
  \<open>transaction.hpp\<close> and the source and destination state machines of \<open>src_transaction.cpp\<close> and
  \<open>dst_transaction.cpp\<close>. Each machine is a function body of labelled blocks; a block ends with
  a jump or a return. The message handler is a parameter of the machines.
\<close>

section \<open>Transaction objects\<close>

datatype status_t = ONGOING | SUCCESS | FAILURE

datatype ack_responder_state_t = ACK_RSP_INIT | ACK_RSP_RETURN_ACK | ACK_RSP_PIGGYBACKING | ACK_RSP_RETURN_DUPLICATE

datatype ack_requestor_state_t = ACK_REQ_INIT | ACK_REQ_WAIT_ACK | ACK_REQ_RETRANSMIT | ACK_REQ_SUCCESS | ACK_REQ_FAILURE

datatype src_transaction_state_t =
  SRC_INIT | SRC_WAIT_RESPONSE_MSG | SRC_PROCESS_MSG | SRC_WAIT_ACK | SRC_FAILURE | SRC_SUCCESS

datatype dst_transaction_state_t = DST_INIT | DST_WAIT_RESPONSE_PRM | DST_SEND_RESPONSE | DST_FAILURE | DST_SUCCESS

record transaction =
  t_opcode :: u16
  t_mid :: u16
  ack_requestor_status :: status_t
  transaction_stop_when :: u32
  retransmission_when :: u32
  t_tid :: u16
  my_mihf_id :: mihf_id
  peer_mihf_id :: mihf_id
  t_in :: "mptr option"
  msg_in_avail :: bool
  t_out :: "mptr option"
  msg_out_avail :: bool
  transaction_status :: status_t
  start_ack_requestor :: bool
  start_ack_responder :: bool
  t_multicast :: bool
  response_received :: bool
  ack_req_state :: ack_requestor_state_t
  ack_rsp_state :: ack_responder_state_t
  t_dup :: "mptr option"
  t_ack :: mptr
  rtxctr :: u32

record src_transaction = transaction +
  src_state :: src_transaction_state_t

record dst_transaction = transaction +
  dst_state :: dst_transaction_state_t

text \<open>
  The constructors. \<open>rtxctr\<close> is not initialized by the code; it is read only after
  \<open>ack_requestor\<close> has set it.
\<close>

definition transaction_new :: "mptr \<Rightarrow> transaction" where
  "transaction_new ack = \<lparr>t_opcode = 0, t_mid = 0, ack_requestor_status = ONGOING, transaction_stop_when = 0,
     retransmission_when = 0, t_tid = 0, my_mihf_id = [], peer_mihf_id = [], t_in = None, msg_in_avail = False,
     t_out = None, msg_out_avail = False, transaction_status = ONGOING, start_ack_requestor = False,
     start_ack_responder = False, t_multicast = False, response_received = False, ack_req_state = ACK_REQ_INIT,
     ack_rsp_state = ACK_RSP_INIT, t_dup = None, t_ack = ack, rtxctr = 0\<rparr>"

definition src_transaction_new :: "mptr \<Rightarrow> src_transaction" where
  "src_transaction_new ack = transaction.extend (transaction_new ack) (src_transaction.fields SRC_INIT)"

definition dst_transaction_new :: "mptr \<Rightarrow> dst_transaction" where
  "dst_transaction_new ack = transaction.extend (transaction_new ack) (dst_transaction.fields DST_INIT)"

text \<open>
  A member function runs on its object together with the network state. \<open>self\<close> reads the
  object, \<open>assign\<close> changes it, \<open>deref\<close> follows a shared pointer that may be null.
\<close>

definition self :: "('t \<Rightarrow> 'b) \<Rightarrow> ('t \<times> 'n, 'b) eff" where
  "self f = gets (\<lambda>(t, n). f t)"

definition assign :: "('t \<Rightarrow> 't) \<Rightarrow> ('t \<times> 'n, unit) eff" where
  "assign f = upd (\<lambda>(t, n). (f t, n))"

definition on_net :: "('n, 'b) eff \<Rightarrow> ('t \<times> 'n, 'b) eff" where
  "on_net m s = (case m (snd s) of (r, n) \<Rightarrow> (r, fst s, n))"

definition deref :: "'p option \<Rightarrow> ('s, 'p) eff" where
  "deref p = (case p of None \<Rightarrow> throw undefined_behaviour | Some x \<Rightarrow> ret x)"

type_synonym ('t, 'n, 'b) member_fn = "('t transaction_scheme \<times> 'n net_scheme, 'b) eff"

definition the_in :: "('t, 'n, meta_message) member_fn" where
  "the_in = bnd (self t_in) (\<lambda>p. bnd (deref p) (\<lambda>p. on_net (msg p)))"

definition the_out :: "('t, 'n, meta_message) member_fn" where
  "the_out = bnd (self t_out) (\<lambda>p. bnd (deref p) (\<lambda>p. on_net (msg p)))"

definition send_ptr :: "platform \<Rightarrow> mptr option \<Rightarrow> ('t, 'n, unit) member_fn" where
  "send_ptr pf p = bnd (deref p) (\<lambda>p. on_net (net_sap_send pf p))"

section \<open>Acknowledgement responder\<close>

fun ack_responder_block :: "platform \<Rightarrow> ack_responder_state_t \<Rightarrow> ('t, 'n, ack_responder_state_t option) member_fn" where
  "ack_responder_block pf ACK_RSP_INIT =
     bnd (self (\<lambda>t. t)) (\<lambda>t. bnd the_in (\<lambda>i.
     seq (on_net (msg_upd (t_ack t) (\<lambda>ack. (msg_set_opcode (t_opcode t) (ack\<lparr>m_ackreq := False, m_ackrsp := True\<rparr>))
            \<lparr>m_tid := t_tid t, m_mid := m_mid i, m_src := my_mihf_id t, m_dst := peer_mihf_id t,
             mm_ip := mm_ip i, mm_port := mm_port i\<rparr>)))
     (if msg_out_avail t then ret (Some ACK_RSP_PIGGYBACKING)
      else seq (send_ptr pf (Some (t_ack t))) (seq (assign (\<lambda>t. t\<lparr>msg_in_avail := False\<rparr>))
             (ret (Some ACK_RSP_RETURN_ACK))))))"
| "ack_responder_block pf ACK_RSP_RETURN_ACK =
     seq (assign (\<lambda>t. t\<lparr>ack_rsp_state := ACK_RSP_RETURN_ACK\<rparr>))
     (bnd (self (\<lambda>t. t)) (\<lambda>t.
      if msg_in_avail t then seq (send_ptr pf (Some (t_ack t))) (seq (assign (\<lambda>t. t\<lparr>msg_in_avail := False\<rparr>)) (ret None))
      else if msg_out_avail t then ret (Some ACK_RSP_PIGGYBACKING)
      else ret None))"
| "ack_responder_block pf ACK_RSP_PIGGYBACKING =
     seq (assign (\<lambda>t. t\<lparr>ack_rsp_state := ACK_RSP_PIGGYBACKING\<rparr>))
     (bnd (self (\<lambda>t. t)) (\<lambda>t. bnd (deref (t_out t)) (\<lambda>out.
      seq (on_net (msg_upd out (\<lambda>m. m\<lparr>m_ackrsp := True\<rparr>)))
      (seq (assign (\<lambda>t. t\<lparr>t_dup := Some out\<rparr>))
      (ret (if msg_in_avail t then Some ACK_RSP_RETURN_DUPLICATE else None))))))"
| "ack_responder_block pf ACK_RSP_RETURN_DUPLICATE =
     seq (assign (\<lambda>t. t\<lparr>ack_rsp_state := ACK_RSP_RETURN_DUPLICATE\<rparr>))
     (bnd (self (\<lambda>t. t)) (\<lambda>t.
      if msg_in_avail t then seq (send_ptr pf (t_dup t)) (seq (assign (\<lambda>t. t\<lparr>msg_in_avail := False\<rparr>)) (ret None))
      else ret None))"

definition ack_responder :: "platform \<Rightarrow> ('t, 'n, unit) member_fn" where
  "ack_responder pf = bnd (self ack_rsp_state) (goto 4 (ack_responder_block pf))"

section \<open>Acknowledgement requestor\<close>

datatype req_label = Req_init | Req_wait_ack_begin | Req_wait_ack | Req_retransmit | Req_failure | Req_success

fun ack_requestor_block :: "platform \<Rightarrow> req_label \<Rightarrow> ('t, 'n, req_label option) member_fn" where
  "ack_requestor_block pf Req_init =
     seq (assign (\<lambda>t. t\<lparr>ack_requestor_status := ONGOING, rtxctr := 0\<rparr>)) (ret (Some Req_wait_ack_begin))"
| "ack_requestor_block pf Req_wait_ack_begin =
     seq (assign (\<lambda>t. t\<lparr>ack_req_state := ACK_REQ_WAIT_ACK, retransmission_when := 5\<rparr>)) (ret (Some Req_wait_ack))"
| "ack_requestor_block pf Req_wait_ack =
     bnd (self (\<lambda>t. t)) (\<lambda>t.
     if retransmission_when t = 0 then ret (Some (if rtxctr t < 2 then Req_retransmit else Req_failure))
     else if msg_in_avail t then bnd the_in (\<lambda>i. ret (if m_ackrsp i then Some Req_success else None))
     else ret None)"
| "ack_requestor_block pf Req_retransmit =
     seq (assign (\<lambda>t. t\<lparr>ack_req_state := ACK_REQ_RETRANSMIT\<rparr>))
     (bnd (self t_out) (\<lambda>out. seq (send_ptr pf out)
     (seq (assign (\<lambda>t. t\<lparr>rtxctr := rtxctr t + 1\<rparr>)) (ret (Some Req_wait_ack_begin)))))"
| "ack_requestor_block pf Req_failure =
     seq (assign (\<lambda>t. t\<lparr>ack_req_state := ACK_REQ_FAILURE, ack_requestor_status := FAILURE\<rparr>)) (ret None)"
| "ack_requestor_block pf Req_success =
     seq (assign (\<lambda>t. t\<lparr>ack_req_state := ACK_REQ_SUCCESS, ack_requestor_status := SUCCESS\<rparr>)) (ret None)"

fun req_entry :: "ack_requestor_state_t \<Rightarrow> req_label" where
  "req_entry ACK_REQ_INIT = Req_init"
| "req_entry ACK_REQ_WAIT_ACK = Req_wait_ack"
| "req_entry ACK_REQ_RETRANSMIT = Req_retransmit"
| "req_entry ACK_REQ_SUCCESS = Req_success"
| "req_entry ACK_REQ_FAILURE = Req_failure"

definition ack_requestor :: "platform \<Rightarrow> ('t, 'n, unit) member_fn" where
  "ack_requestor pf = bnd (self ack_req_state) (\<lambda>st. goto 5 (ack_requestor_block pf) (req_entry st))"

section \<open>Source and destination state machines\<close>

text \<open>
  Transactions are shared objects too: while the handler runs for a transaction, the transaction
  can be found in the pool. They live in stores; \<open>on_src\<close> and \<open>on_dst\<close> run a member function on
  the object behind a pointer. A handler gets the pointers of the input and the output message
  and says whether it has produced a response; no handler of the MIHF assigns to the pointers
  it is given.
\<close>

type_synonym tptr = nat

record tworld = net +
  src_obj :: "tptr \<Rightarrow> src_transaction"
  dst_obj :: "tptr \<Rightarrow> dst_transaction"
  t_next :: tptr

type_synonym 'w handler = "mptr \<Rightarrow> mptr \<Rightarrow> ('w, bool) eff"

definition on_src :: "tptr \<Rightarrow> (src_transaction \<times> 'w tworld_scheme, 'b) eff \<Rightarrow> ('w tworld_scheme, 'b) eff" where
  "on_src p m w = (case m (src_obj w p, w) of (r, t, w') \<Rightarrow> (r, w'\<lparr>src_obj := (src_obj w')(p := t)\<rparr>))"

definition on_dst :: "tptr \<Rightarrow> (dst_transaction \<times> 'w tworld_scheme, 'b) eff \<Rightarrow> ('w tworld_scheme, 'b) eff" where
  "on_dst p m w = (case m (dst_obj w p, w) of (r, t, w') \<Rightarrow> (r, w'\<lparr>dst_obj := (dst_obj w')(p := t)\<rparr>))"

text \<open>Operation codes: confirm 0, request 1, response 2, indication 3.\<close>

definition src_init :: "platform \<Rightarrow> (src_transaction \<times> 'n net_scheme, src_transaction_state_t option) eff" where
  "src_init pf = bnd the_out (\<lambda>out.
     seq (assign (\<lambda>t. t\<lparr>transaction_status := ONGOING, response_received := False, transaction_stop_when := 15,
            t_opcode := msg_opcode out, t_multicast := is_multicast out,
            start_ack_requestor := (m_ackreq out \<and> \<not> is_multicast out), t_tid := m_tid out,
            my_mihf_id := m_src out, peer_mihf_id := m_dst out\<rparr>))
     (bnd (self t_out) (\<lambda>p. seq (send_ptr pf p)
     (bnd (self start_ack_requestor) (\<lambda>b. seq (on_cond b (ack_requestor pf))
     (bnd (self (\<lambda>t. t)) (\<lambda>t.
      if t_opcode t = 3 then
        if start_ack_requestor t
        then seq (assign (\<lambda>t. t\<lparr>ack_requestor_status := ONGOING\<rparr>)) (ret (Some SRC_WAIT_ACK))
        else ret (Some SRC_SUCCESS)
      else if t_opcode t = 2 then ret (Some SRC_SUCCESS)
      else if t_opcode t = 1 then ret (Some SRC_WAIT_RESPONSE_MSG)
      else throw bug_assert)))))))"

definition src_wait_ack :: "(src_transaction \<times> 'n net_scheme, src_transaction_state_t option) eff" where
  "src_wait_ack = seq (assign (\<lambda>t. t\<lparr>src_state := SRC_WAIT_ACK\<rparr>))
     (bnd (self ack_requestor_status) (\<lambda>st.
      ret (case st of SUCCESS \<Rightarrow> Some SRC_SUCCESS | FAILURE \<Rightarrow> Some SRC_FAILURE | ONGOING \<Rightarrow> None)))"

definition src_wait_response_msg :: "(src_transaction \<times> 'n net_scheme, src_transaction_state_t option) eff" where
  "src_wait_response_msg = seq (assign (\<lambda>t. t\<lparr>src_state := SRC_WAIT_RESPONSE_MSG\<rparr>))
     (bnd (self (\<lambda>t. t)) (\<lambda>t.
      ret (if transaction_stop_when t = 0 then Some (if response_received t then SRC_SUCCESS else SRC_FAILURE)
           else if msg_in_avail t then Some SRC_PROCESS_MSG else None)))"

definition src_failure :: "(src_transaction \<times> 'n net_scheme, src_transaction_state_t option) eff" where
  "src_failure = seq (assign (\<lambda>t. t\<lparr>transaction_status := FAILURE, src_state := SRC_FAILURE\<rparr>)) (ret None)"

definition src_success :: "(src_transaction \<times> 'n net_scheme, src_transaction_state_t option) eff" where
  "src_success = seq (assign (\<lambda>t. t\<lparr>transaction_status := SUCCESS, src_state := SRC_SUCCESS\<rparr>)) (ret None)"

definition src_process_begin :: "platform \<Rightarrow> (src_transaction \<times> 'n net_scheme, mptr \<times> mptr) eff" where
  "src_process_begin pf =
     seq (assign (\<lambda>t. t\<lparr>src_state := SRC_PROCESS_MSG\<rparr>))
     (bnd the_in (\<lambda>i.
     seq (assign (\<lambda>t. t\<lparr>start_ack_responder := m_ackreq i, msg_out_avail := False\<rparr>))
     (seq (on_cond (m_ackreq i) (ack_responder pf))
     (bnd (self t_in) (\<lambda>p. bnd (deref p) (\<lambda>p. bnd (self t_out) (\<lambda>q. bnd (deref q) (\<lambda>q. ret (p, q)))))))))"

definition src_process_end :: "(src_transaction \<times> 'n net_scheme, src_transaction_state_t option) eff" where
  "src_process_end =
     seq (assign (\<lambda>t. t\<lparr>msg_in_avail := False, response_received := True\<rparr>))
     (bnd (self t_multicast) (\<lambda>b. ret (Some (if b then SRC_WAIT_RESPONSE_MSG else SRC_SUCCESS))))"

fun src_block ::
  "platform \<Rightarrow> 'w tworld_scheme handler \<Rightarrow> tptr \<Rightarrow> src_transaction_state_t \<Rightarrow> ('w tworld_scheme, src_transaction_state_t option) eff" where
  "src_block pf h t SRC_INIT = on_src t (src_init pf)"
| "src_block pf h t SRC_WAIT_ACK = on_src t src_wait_ack"
| "src_block pf h t SRC_WAIT_RESPONSE_MSG = on_src t src_wait_response_msg"
| "src_block pf h t SRC_PROCESS_MSG =
     bnd (on_src t (src_process_begin pf)) (\<lambda>(p, q). seq (h p q) (on_src t src_process_end))"
| "src_block pf h t SRC_FAILURE = on_src t src_failure"
| "src_block pf h t SRC_SUCCESS = on_src t src_success"

definition src_run :: "platform \<Rightarrow> 'w tworld_scheme handler \<Rightarrow> tptr \<Rightarrow> ('w tworld_scheme, unit) eff" where
  "src_run pf h t = bnd (gets (\<lambda>w. src_state (src_obj w t))) (goto 5 (src_block pf h t))"

datatype dst_label = Dst_init | Dst_wait_response_prm | Dst_send_response_begin | Dst_send_response | Dst_failure | Dst_success

definition dst_init_begin :: "(dst_transaction \<times> 'n net_scheme, mptr \<times> mptr) eff" where
  "dst_init_begin = bnd the_in (\<lambda>i.
     seq (assign (\<lambda>t. t\<lparr>transaction_status := ONGOING, t_opcode := msg_opcode i, t_tid := m_tid i,
            transaction_stop_when := 15, t_multicast := is_multicast i, peer_mihf_id := m_src i,
            my_mihf_id := m_dst i, start_ack_responder := (m_ackreq i \<and> \<not> is_multicast i),
            msg_in_avail := False\<rparr>))
     (bnd (on_net (msg_new meta_message_new)) (\<lambda>q. seq (assign (\<lambda>t. t\<lparr>t_out := Some q\<rparr>))
     (bnd (self t_in) (\<lambda>p. bnd (deref p) (\<lambda>p. ret (p, q)))))))"

definition dst_init_end :: "platform \<Rightarrow> bool \<Rightarrow> (dst_transaction \<times> 'n net_scheme, dst_label option) eff" where
  "dst_init_end pf rsp =
     seq (assign (\<lambda>t. t\<lparr>msg_out_avail := rsp\<rparr>))
     (bnd (self start_ack_responder) (\<lambda>b. seq (on_cond b (ack_responder pf))
     (bnd (self t_opcode) (\<lambda>opc. ret (Some (if opc = 1 then Dst_wait_response_prm
        else if opc = 3 \<or> opc = 2 then Dst_success else Dst_wait_response_prm))))))"

definition dst_wait_response_prm :: "(dst_transaction \<times> 'n net_scheme, dst_label option) eff" where
  "dst_wait_response_prm = seq (assign (\<lambda>t. t\<lparr>dst_state := DST_WAIT_RESPONSE_PRM\<rparr>))
     (bnd (self (\<lambda>t. t)) (\<lambda>t.
      if transaction_stop_when t = 0 then ret (Some Dst_failure)
      else if \<not> msg_out_avail t then ret None
      else if \<not> start_ack_responder t then ret (Some Dst_send_response_begin)
      else bnd the_out (\<lambda>out. ret (if m_ackrsp out then Some Dst_send_response_begin else None))))"

definition dst_send_response_begin :: "platform \<Rightarrow> (dst_transaction \<times> 'n net_scheme, dst_label option) eff" where
  "dst_send_response_begin pf = seq (assign (\<lambda>t. t\<lparr>dst_state := DST_SEND_RESPONSE\<rparr>))
     (bnd the_out (\<lambda>out. seq (assign (\<lambda>t. t\<lparr>start_ack_requestor := m_ackreq out\<rparr>))
     (seq (on_cond (m_ackreq out) (ack_requestor pf))
     (seq (assign (\<lambda>t. t\<lparr>ack_requestor_status := ONGOING\<rparr>))
     (bnd (self t_out) (\<lambda>p. seq (send_ptr pf p) (ret (Some Dst_send_response))))))))"

definition dst_send_response :: "(dst_transaction \<times> 'n net_scheme, dst_label option) eff" where
  "dst_send_response = bnd (self (\<lambda>t. t)) (\<lambda>t.
     ret (if \<not> start_ack_requestor t \<or> ack_requestor_status t = SUCCESS then Some Dst_success
          else if ack_requestor_status t = FAILURE then Some Dst_failure else None))"

definition dst_failure :: "(dst_transaction \<times> 'n net_scheme, dst_label option) eff" where
  "dst_failure = seq (assign (\<lambda>t. t\<lparr>dst_state := DST_FAILURE, transaction_status := FAILURE\<rparr>)) (ret None)"

definition dst_success :: "(dst_transaction \<times> 'n net_scheme, dst_label option) eff" where
  "dst_success = seq (assign (\<lambda>t. t\<lparr>dst_state := DST_SUCCESS, transaction_status := SUCCESS\<rparr>)) (ret None)"

fun dst_block ::
  "platform \<Rightarrow> 'w tworld_scheme handler \<Rightarrow> tptr \<Rightarrow> dst_label \<Rightarrow> ('w tworld_scheme, dst_label option) eff" where
  "dst_block pf h t Dst_init =
     bnd (on_dst t dst_init_begin) (\<lambda>(p, q). bnd (h p q) (\<lambda>rsp. on_dst t (dst_init_end pf rsp)))"
| "dst_block pf h t Dst_wait_response_prm = on_dst t dst_wait_response_prm"
| "dst_block pf h t Dst_send_response_begin = on_dst t (dst_send_response_begin pf)"
| "dst_block pf h t Dst_send_response = on_dst t dst_send_response"
| "dst_block pf h t Dst_failure = on_dst t dst_failure"
| "dst_block pf h t Dst_success = on_dst t dst_success"

fun dst_entry :: "dst_transaction_state_t \<Rightarrow> dst_label" where
  "dst_entry DST_INIT = Dst_init"
| "dst_entry DST_WAIT_RESPONSE_PRM = Dst_wait_response_prm"
| "dst_entry DST_SEND_RESPONSE = Dst_send_response"
| "dst_entry DST_FAILURE = Dst_failure"
| "dst_entry DST_SUCCESS = Dst_success"

definition dst_run :: "platform \<Rightarrow> 'w tworld_scheme handler \<Rightarrow> tptr \<Rightarrow> ('w tworld_scheme, unit) eff" where
  "dst_run pf h t = bnd (gets (\<lambda>w. dst_state (dst_obj w t))) (\<lambda>st. goto 5 (dst_block pf h t) (dst_entry st))"

section \<open>Comparing transactions\<close>

definition transaction_compare :: "'a transaction_scheme \<Rightarrow> 'a transaction_scheme \<Rightarrow> bool" where
  "transaction_compare a b = (if peer_mihf_id a = peer_mihf_id b then t_tid a \<noteq> t_tid b else True)"

section \<open>Evaluation\<close>

lemma self_run [simp, eff_simps]: "self f (t, n) = (Inr (f t), (t, n))"
  by (simp add: self_def)

lemma assign_run [simp, eff_simps]: "assign f (t, n) = (Inr (), (f t, n))"
  by (simp add: assign_def)

lemma on_net_run [eff_simps]: "on_net m (t, n) = (fst (m n), (t, snd (m n)))"
  by (simp add: on_net_def split: prod.split)

lemma deref_simps [simp]: "deref None = throw undefined_behaviour" "deref (Some p) = ret p"
  by (simp_all add: deref_def)

lemma on_src_run: "on_src p m w = (let (r, t, w') = m (src_obj w p, w) in (r, w'\<lparr>src_obj := (src_obj w')(p := t)\<rparr>))"
  by (simp add: on_src_def Let_def)

lemma msg_upd_run [simp, eff_simps]: "msg_upd p f n = (Inr (), n\<lparr>n_heap := (n_heap n)(p := f (n_heap n p))\<rparr>)"
  by (simp add: msg_upd_def)

lemma msg_new_run [simp, eff_simps]:
  "msg_new m n = (Inr (n_next n), n\<lparr>n_heap := (n_heap n)(n_next n := m), n_next := Suc (n_next n)\<rparr>)"
  by (simp add: msg_new_def)

section \<open>The machines return\<close>

lemma goto_numeral: "goto (numeral k) f l = bnd (f l) (\<lambda>r. case r of None \<Rightarrow> ret () | Some l' \<Rightarrow> goto (pred_numeral k) f l')"
  by (simp add: numeral_eq_Suc)

text \<open>
  A ranking of the labels that every jump decreases gives the number of blocks that are enough.
  A jump may depend on the state the block leaves.
\<close>

lemma goto_enough:
  assumes rank: "\<And>l s l' s'. f l s = (Inr (Some l'), s') \<Longrightarrow> rank l' s' < (rank l s :: nat)"
    and "rank l s < n"
  shows "goto n f l s = goto (Suc (rank l s)) f l s"
  using assms(2)
proof (induction "rank l s" arbitrary: l s n rule: less_induct)
  case less
  obtain n' where n: "n = Suc n'" using less.prems by (cases n) auto
  show ?case
  proof (cases "\<exists>l' s'. f l s = (Inr (Some l'), s')")
    case True
    then obtain l' s' where f: "f l s = (Inr (Some l'), s')" by blast
    with rank have r: "rank l' s' < rank l s" by blast
    then have "goto n' f l' s' = goto (rank l s) f l' s'"
      using less.hyps [OF r, of n'] less.hyps [OF r, of "rank l s"] less.prems n by simp
    then show ?thesis by (simp add: n f)
  next
    case False
    then have "(\<exists>e s'. f l s = (Inl e, s')) \<or> (\<exists>s'. f l s = (Inr None, s'))"
      by (metis old.sum.exhaust option.exhaust prod.exhaust)
    then show ?thesis by (auto simp: n)
  qed
qed

lemma goto_stable:
  assumes "\<And>l s l' s'. f l s = (Inr (Some l'), s') \<Longrightarrow> rank l' s' < (rank l s :: nat)" "\<And>l s. rank l s < k" "k \<le> n"
  shows "goto n f l s = goto k f l s"
  using goto_enough [of f rank l s n] goto_enough [of f rank l s k] assms by (metis order.strict_trans2)

fun rsp_rank :: "ack_responder_state_t \<Rightarrow> nat" where
  "rsp_rank ACK_RSP_INIT = 3"
| "rsp_rank ACK_RSP_RETURN_ACK = 2"
| "rsp_rank ACK_RSP_PIGGYBACKING = 1"
| "rsp_rank ACK_RSP_RETURN_DUPLICATE = 0"

lemma seq_eq: "seq m n s = r \<longleftrightarrow> (\<exists>e s'. m s = (Inl e, s') \<and> r = (Inl e, s')) \<or> (\<exists>x s'. m s = (Inr x, s') \<and> n s' = r)"
  by (auto simp: seq_def bnd_def split: prod.splits sum.splits)

lemma bnd_eq: "bnd m f s = r \<longleftrightarrow> (\<exists>e s'. m s = (Inl e, s') \<and> r = (Inl e, s')) \<or> (\<exists>x s'. m s = (Inr x, s') \<and> f x s' = r)"
  by (auto simp: bnd_def split: prod.splits sum.splits)

lemma rsp_jump: "ack_responder_block pf l s = (Inr (Some l'), s') \<Longrightarrow> rsp_rank l' < rsp_rank l"
  by (cases s; cases l) (auto simp: bnd_eq seq_eq split: if_splits)

fun req_rank :: "req_label \<Rightarrow> 't transaction_scheme \<Rightarrow> nat" where
  "req_rank Req_init t = 3"
| "req_rank Req_wait_ack_begin t = 2"
| "req_rank Req_wait_ack t = (if retransmission_when t = 0 then 4 else 1)"
| "req_rank Req_retransmit t = 3"
| "req_rank Req_failure t = 0"
| "req_rank Req_success t = 0"

lemma req_jump: "ack_requestor_block pf l s = (Inr (Some l'), s') \<Longrightarrow> req_rank l' (fst s') < req_rank l (fst s)"
  by (cases s; cases l) (auto simp: bnd_eq seq_eq split: if_splits)

fun src_rank :: "src_transaction_state_t \<Rightarrow> src_transaction \<Rightarrow> nat" where
  "src_rank SRC_INIT t = 4"
| "src_rank SRC_WAIT_RESPONSE_MSG t = (if msg_in_avail t then 3 else 1)"
| "src_rank SRC_PROCESS_MSG t = 2"
| "src_rank SRC_WAIT_ACK t = 1"
| "src_rank SRC_FAILURE t = 0"
| "src_rank SRC_SUCCESS t = 0"

lemma on_src_eq: "on_src p m w = (r, w') \<longleftrightarrow>
    (\<exists>t v. m (src_obj w p, w) = (r, t, v) \<and> w' = v\<lparr>src_obj := (src_obj v)(p := t)\<rparr>)"
  by (auto simp: on_src_def split: prod.splits)

lemma on_dst_eq: "on_dst p m w = (r, w') \<longleftrightarrow>
    (\<exists>t v. m (dst_obj w p, w) = (r, t, v) \<and> w' = v\<lparr>dst_obj := (dst_obj v)(p := t)\<rparr>)"
  by (auto simp: on_dst_def split: prod.splits)

lemma src_jump:
  "src_block pf h p l w = (Inr (Some l'), w') \<Longrightarrow> src_rank l' (src_obj w' p) < src_rank l (src_obj w p)"
  by (cases l)
    (auto simp: on_src_eq src_wait_ack_def src_wait_response_msg_def src_success_def src_failure_def
      src_process_end_def src_init_def bnd_eq seq_eq split: if_splits status_t.splits)

fun dst_rank :: "dst_label \<Rightarrow> nat" where
  "dst_rank Dst_init = 4"
| "dst_rank Dst_wait_response_prm = 3"
| "dst_rank Dst_send_response_begin = 2"
| "dst_rank Dst_send_response = 1"
| "dst_rank Dst_failure = 0"
| "dst_rank Dst_success = 0"

text \<open>Where a block can jump to, read off its last operation.\<close>

definition jumps :: "('l \<Rightarrow> bool) \<Rightarrow> ('s, 'l option) eff \<Rightarrow> bool" where
  "jumps P m \<longleftrightarrow> (\<forall>s l s'. m s = (Inr (Some l), s') \<longrightarrow> P l)"

named_theorems jumps_intros \<open>jump targets of a block\<close>

lemma jumps_rules [jumps_intros]:
  "(\<And>x. jumps P (f x)) \<Longrightarrow> jumps P (bnd m f)" "jumps P n \<Longrightarrow> jumps P (seq k n)"
  "jumps P a \<Longrightarrow> jumps P b \<Longrightarrow> jumps P (if c then a else b)"
  "(\<And>l. r = Some l \<Longrightarrow> P l) \<Longrightarrow> jumps P (ret r)"
  by (auto simp: jumps_def bnd_eq seq_eq)

lemma jumps_on_dst [jumps_intros]: "jumps P m \<Longrightarrow> jumps P (on_dst p m)"
  unfolding jumps_def on_dst_eq by blast

lemma dst_jumps: "jumps (\<lambda>l'. dst_rank l' < dst_rank l) (dst_block pf h p l)"
  by (cases l; simp add: dst_init_end_def dst_wait_response_prm_def dst_send_response_begin_def
      dst_send_response_def dst_success_def dst_failure_def split_beta)
    (intro jumps_intros; auto split: if_splits)+

lemma dst_jump: "dst_block pf h p l w = (Inr (Some l'), w') \<Longrightarrow> dst_rank l' < dst_rank l"
  using dst_jumps [of l pf h p] unfolding jumps_def by blast

lemma machine_ranks: "rsp_rank la < 4" "req_rank lb t < 5" "src_rank lc u < 5" "dst_rank ld < 5"
  by (cases la; cases lb; cases lc; cases ld; simp)+

text \<open>
  No run visits more than four blocks of the acknowledgement responder and five of each other
  machine, from any label and in any state: a larger bound gives the same run.
\<close>

lemma more_blocks_same:
  fixes s :: "'t transaction_scheme \<times> 'n net_scheme" and w :: "'w tworld_scheme"
  shows "goto (4 + k) (ack_responder_block pf) la s = goto 4 (ack_responder_block pf) la s
     \<and> goto (5 + k) (ack_requestor_block pf) lb s = goto 5 (ack_requestor_block pf) lb s
     \<and> goto (5 + k) (src_block pf h p) lc w = goto 5 (src_block pf h p) lc w
     \<and> goto (5 + k) (dst_block pf h p) ld w = goto 5 (dst_block pf h p) ld w"
  by (intro conjI goto_stable [OF rsp_jump machine_ranks(1) le_add1] goto_stable [OF req_jump machine_ranks(2) le_add1]
      goto_stable [OF src_jump machine_ranks(3) le_add1] goto_stable [OF dst_jump machine_ranks(4) le_add1])

end
