(* ===== verification/Mihf_Messages.thy ===== *)
theory Mihf_Messages
  imports Mihf_Transaction
begin

text \<open>
  The transaction pool with its timer, and the two modules that find or create the transaction a
  message belongs to: \<open>transaction_pool.cpp\<close>, \<open>message_in.cpp\<close> and \<open>message_out.cpp\<close>. The pool is
  a \<open>std::set\<close> of pointers; the model has what the library promises of a set, one element per
  class of equivalent ones. This is an idealisation: the comparison of two different transactions
  is true in both directions, so it is no strict weak ordering, the precondition of that promise,
  and an implementation by a search tree need not find every element it looks for. The two mutexes
  are kept, because the timer runs transactions while it holds one.
\<close>

section \<open>Transaction pool\<close>

record pools = tworld +
  src_pool :: "tptr list"
  dst_pool :: "tptr list"
  src_lock :: bool
  dst_lock :: bool
  o_tid :: u16
  w_lpool :: local_transaction_pool

definition with_src_lock :: "('w pools_scheme, 'b) eff \<Rightarrow> ('w pools_scheme, 'b) eff" where
  "with_src_lock m w = (if src_lock w then (Inl deadlock, w)
     else case m (w\<lparr>src_lock := True\<rparr>) of (r, w') \<Rightarrow> (r, w'\<lparr>src_lock := False\<rparr>))"

definition with_dst_lock :: "('w pools_scheme, 'b) eff \<Rightarrow> ('w pools_scheme, 'b) eff" where
  "with_dst_lock m w = (if dst_lock w then (Inl deadlock, w)
     else case m (w\<lparr>dst_lock := True\<rparr>) of (r, w') \<Rightarrow> (r, w'\<lparr>dst_lock := False\<rparr>))"

text \<open>\<open>std::set::insert\<close> and \<open>erase\<close>: elements are equivalent if neither compares before the other.\<close>

definition equivalent :: "(tptr \<Rightarrow> 'a transaction_scheme) \<Rightarrow> tptr \<Rightarrow> tptr \<Rightarrow> bool" where
  "equivalent obj p q \<longleftrightarrow> \<not> transaction_compare (obj p) (obj q) \<and> \<not> transaction_compare (obj q) (obj p)"

definition set_insert :: "(tptr \<Rightarrow> 'a transaction_scheme) \<Rightarrow> tptr \<Rightarrow> tptr list \<Rightarrow> tptr list" where
  "set_insert obj p ps = (if list_ex (equivalent obj p) ps then ps else p # ps)"

definition set_erase :: "(tptr \<Rightarrow> 'a transaction_scheme) \<Rightarrow> tptr \<Rightarrow> tptr list \<Rightarrow> tptr list" where
  "set_erase obj p ps = filter (\<lambda>q. \<not> equivalent obj p q) ps"

definition tpool_add_src :: "tptr \<Rightarrow> ('w pools_scheme, unit) eff" where
  "tpool_add_src t = with_src_lock (upd (\<lambda>w. w\<lparr>src_pool := set_insert (src_obj w) t (src_pool w)\<rparr>))"

definition tpool_add_dst :: "tptr \<Rightarrow> ('w pools_scheme, unit) eff" where
  "tpool_add_dst t = with_dst_lock (upd (\<lambda>w. w\<lparr>dst_pool := set_insert (dst_obj w) t (dst_pool w)\<rparr>))"

definition tpool_del_src :: "tptr \<Rightarrow> ('w pools_scheme, unit) eff" where
  "tpool_del_src t = with_src_lock (upd (\<lambda>w. w\<lparr>src_pool := set_erase (src_obj w) t (src_pool w)\<rparr>))"

definition tpool_del_dst :: "tptr \<Rightarrow> ('w pools_scheme, unit) eff" where
  "tpool_del_dst t = with_dst_lock (upd (\<lambda>w. w\<lparr>dst_pool := set_erase (dst_obj w) t (dst_pool w)\<rparr>))"

definition tpool_find_src :: "mihf_id \<Rightarrow> u16 \<Rightarrow> ('w pools_scheme, tptr option) eff" where
  "tpool_find_src ident tid = with_src_lock
     (gets (\<lambda>w. List.find (\<lambda>p. peer_mihf_id (src_obj w p) = ident \<and> t_tid (src_obj w p) = tid) (src_pool w)))"

definition tpool_find_dst :: "mihf_id \<Rightarrow> u16 \<Rightarrow> ('w pools_scheme, tptr option) eff" where
  "tpool_find_dst ident tid = with_dst_lock
     (gets (\<lambda>w. List.find (\<lambda>p. peer_mihf_id (dst_obj w p) = ident \<and> t_tid (dst_obj w p) = tid) (dst_pool w)))"

text \<open>
  The body of the loop of \<open>dec\<close>, a template over the kind of transaction: \<open>read\<close> and \<open>write\<close>
  access the fields they share, \<open>ack\<close> and \<open>run\<close> are the member functions. It returns whether the
  transaction is to be deleted.
\<close>

definition dec_one :: "('w \<Rightarrow> 'a transaction_scheme) \<Rightarrow> (('a transaction_scheme \<Rightarrow> 'a transaction_scheme) \<Rightarrow> 'w \<Rightarrow> 'w)
    \<Rightarrow> ('w, unit) eff \<Rightarrow> ('w, unit) eff \<Rightarrow> ('w, bool) eff" where
  "dec_one read write ack run =
     seq (upd (write (\<lambda>t. t\<lparr>transaction_stop_when := transaction_stop_when t - 1\<rparr>)))
     (bnd (gets read) (\<lambda>t.
      bnd (if transaction_stop_when t = 0
           then seq run (bnd (gets read) (\<lambda>t. ret (transaction_status t = ONGOING)))
           else ret False) (\<lambda>del1.
      bnd (gets read) (\<lambda>t.
      seq (on_cond (ack_requestor_status t = ONGOING)
            (seq (upd (write (\<lambda>t. t\<lparr>retransmission_when := retransmission_when t - 1\<rparr>)))
            (bnd (gets read) (\<lambda>t. on_cond (retransmission_when t = 0) (seq ack run)))))
      (bnd (gets read) (\<lambda>t. ret (del1 \<or> transaction_status t \<noteq> ONGOING)))))))"

definition src_write :: "tptr \<Rightarrow> (src_transaction \<Rightarrow> src_transaction) \<Rightarrow> 'w tworld_scheme \<Rightarrow> 'w tworld_scheme" where
  "src_write p f w = w\<lparr>src_obj := (src_obj w)(p := f (src_obj w p))\<rparr>"

definition dst_write :: "tptr \<Rightarrow> (dst_transaction \<Rightarrow> dst_transaction) \<Rightarrow> 'w tworld_scheme \<Rightarrow> 'w tworld_scheme" where
  "dst_write p f w = w\<lparr>dst_obj := (dst_obj w)(p := f (dst_obj w p))\<rparr>"

definition src_dec_one :: "platform \<Rightarrow> 'w pools_scheme handler \<Rightarrow> tptr \<Rightarrow> ('w pools_scheme, bool) eff" where
  "src_dec_one pf h p = dec_one (\<lambda>w. src_obj w p) (src_write p) (on_src p (ack_requestor pf)) (src_run pf h p)"

definition dst_dec_one :: "platform \<Rightarrow> 'w pools_scheme handler \<Rightarrow> tptr \<Rightarrow> ('w pools_scheme, bool) eff" where
  "dst_dec_one pf h p = dec_one (\<lambda>w. dst_obj w p) (dst_write p) (on_dst p (ack_requestor pf)) (dst_run pf h p)"

fun collect :: "('w \<Rightarrow> tptr \<Rightarrow> tptr list \<Rightarrow> tptr list) \<Rightarrow> (tptr \<Rightarrow> ('w, bool) eff) \<Rightarrow> tptr list \<Rightarrow> tptr list \<Rightarrow> ('w, tptr list) eff" where
  "collect ins f [] ds = ret ds"
| "collect ins f (p # ps) ds = bnd (f p) (\<lambda>b. bnd (gets (\<lambda>w. if b then ins w p ds else ds)) (\<lambda>ds. collect ins f ps ds))"

definition dec_src :: "platform \<Rightarrow> 'w pools_scheme handler \<Rightarrow> ('w pools_scheme, unit) eff" where
  "dec_src pf h = bnd (with_src_lock (bnd (gets src_pool) (\<lambda>ps.
       collect (\<lambda>w. set_insert (src_obj w)) (src_dec_one pf h) ps []))) (for_each tpool_del_src)"

definition dec_dst :: "platform \<Rightarrow> 'w pools_scheme handler \<Rightarrow> ('w pools_scheme, unit) eff" where
  "dec_dst pf h = bnd (with_dst_lock (bnd (gets dst_pool) (\<lambda>ps.
       collect (\<lambda>w. set_insert (dst_obj w)) (dst_dec_one pf h) ps []))) (for_each tpool_del_dst)"

definition tpool_tick :: "platform \<Rightarrow> 'w pools_scheme handler \<Rightarrow> ('w pools_scheme, unit) eff" where
  "tpool_tick pf h =
     seq (bnd (gets src_pool) (\<lambda>ps. on_cond (0 < length ps) (dec_src pf h)))
     (bnd (gets dst_pool) (\<lambda>ps. on_cond (0 < length ps) (dec_dst pf h)))"

section \<open>Acknowledgements and removal\<close>

text \<open>Steps \<open>message_in\<close> and \<open>message_out\<close> share, for a transaction they have found.\<close>

definition src_requests :: "platform \<Rightarrow> tptr \<Rightarrow> ('w pools_scheme, unit) eff" where
  "src_requests pf t = bnd (gets (\<lambda>w. start_ack_requestor (src_obj w t))) (\<lambda>b. on_cond b (on_src t (ack_requestor pf)))"

definition src_responds :: "platform \<Rightarrow> tptr \<Rightarrow> ('w pools_scheme, unit) eff" where
  "src_responds pf t = bnd (gets (\<lambda>w. start_ack_responder (src_obj w t))) (\<lambda>b. on_cond b (on_src t (ack_responder pf)))"

definition src_finishes :: "tptr \<Rightarrow> ('w pools_scheme, unit) eff" where
  "src_finishes t = bnd (gets (\<lambda>w. src_obj w t)) (\<lambda>x.
     on_cond (transaction_status x \<noteq> ONGOING \<and> ack_requestor_status x \<noteq> ONGOING) (tpool_del_src t))"

definition dst_requests :: "platform \<Rightarrow> tptr \<Rightarrow> ('w pools_scheme, unit) eff" where
  "dst_requests pf t = bnd (gets (\<lambda>w. start_ack_requestor (dst_obj w t))) (\<lambda>b. on_cond b (on_dst t (ack_requestor pf)))"

definition dst_finishes :: "tptr \<Rightarrow> ('w pools_scheme, unit) eff" where
  "dst_finishes t = bnd (gets (\<lambda>w. dst_obj w t)) (\<lambda>x.
     on_cond (transaction_status x \<noteq> ONGOING \<and> ack_requestor_status x \<noteq> ONGOING) (tpool_del_dst t))"

section \<open>message_in.cpp\<close>

definition new_dst_transaction :: "platform \<Rightarrow> 'w pools_scheme handler \<Rightarrow> mptr \<Rightarrow> ('w pools_scheme, unit) eff" where
  "new_dst_transaction pf h m =
     bnd (msg_new meta_message_new) (\<lambda>ack. bnd (gets t_next) (\<lambda>t. bnd (msg m) (\<lambda>mm.
     seq (upd (\<lambda>w. w\<lparr>t_next := Suc t, dst_obj := (dst_obj w)(t := (dst_transaction_new ack)
            \<lparr>t_in := Some m, t_mid := m_mid mm, msg_in_avail := True\<rparr>)\<rparr>))
     (seq (dst_run pf h t)
     (bnd (gets (\<lambda>w. transaction_status (dst_obj w t))) (\<lambda>st. on_cond (st = ONGOING) (tpool_add_dst t)))))))"

definition for_src_transaction :: "'a message_scheme \<Rightarrow> bool" where
  "for_src_transaction i \<longleftrightarrow>
     m_ackrsp i \<and> (msg_opcode i = 1 \<or> msg_opcode i = 3)
     \<or> \<not> m_ackrsp i \<and> msg_opcode i = 2
     \<or> m_ackrsp i \<and> msg_opcode i = 2 \<and> has_service_specific_tlv i"

definition in_src_transaction :: "platform \<Rightarrow> 'w pools_scheme handler \<Rightarrow> mptr \<Rightarrow> tptr \<Rightarrow> ('w pools_scheme, unit) eff" where
  "in_src_transaction pf h i t =
     seq (upd (src_write t (\<lambda>x. x\<lparr>t_in := Some i, msg_in_avail := True\<rparr>)))
     (seq (src_requests pf t) (seq (src_responds pf t)
     (seq (bnd (gets (\<lambda>w. transaction_status (src_obj w t))) (\<lambda>st. bnd (msg i) (\<lambda>im.
            on_cond (st = ONGOING \<and> \<not> (m_ackrsp im \<and> msg_opcode im = 1)) (src_run pf h t))))
     (src_finishes t))))"

definition in_dst_transaction :: "platform \<Rightarrow> 'w pools_scheme handler \<Rightarrow> mptr \<Rightarrow> tptr \<Rightarrow> ('w pools_scheme, unit) eff" where
  "in_dst_transaction pf h i t =
     seq (upd (dst_write t (\<lambda>x. x\<lparr>t_in := Some i, msg_in_avail := True\<rparr>)))
     (seq (dst_requests pf t)
     (seq (bnd (gets (\<lambda>w. transaction_status (dst_obj w t))) (\<lambda>st. on_cond (st = ONGOING) (dst_run pf h t)))
     (seq (bnd (gets (\<lambda>w. dst_obj w t)) (\<lambda>x.
            on_cond (start_ack_responder x \<and> transaction_status x = ONGOING) (on_dst t (ack_responder pf))))
     (dst_finishes t))))"

definition message_in :: "platform \<Rightarrow> 'w pools_scheme handler \<Rightarrow> mptr \<Rightarrow> ('w pools_scheme, unit) eff" where
  "message_in pf h i = bnd (msg i) (\<lambda>im.
     if for_src_transaction im then
       bnd (tpool_find_src (m_src im) (m_tid im)) (\<lambda>r. case r of
         Some t \<Rightarrow> in_src_transaction pf h i t
       | None \<Rightarrow> new_dst_transaction pf h i)
     else
       bnd (tpool_find_dst (m_src im) (m_tid im)) (\<lambda>r. case r of
         Some t \<Rightarrow> in_dst_transaction pf h i t
       | None \<Rightarrow> new_dst_transaction pf h i))"

section \<open>message_out.cpp\<close>

definition new_src_transaction :: "platform \<Rightarrow> 'w pools_scheme handler \<Rightarrow> mptr \<Rightarrow> ('w pools_scheme, unit) eff" where
  "new_src_transaction pf h m =
     bnd (msg_new meta_message_new) (\<lambda>ack. bnd (gets t_next) (\<lambda>t.
     seq (upd (\<lambda>w. w\<lparr>t_next := Suc t, src_obj := (src_obj w)(t := src_transaction_new ack)\<rparr>))
     (seq (upd (\<lambda>w. w\<lparr>o_tid := (if o_tid w + 1 = 0 then 1 else o_tid w + 1)\<rparr>))
     (bnd (gets o_tid) (\<lambda>tid. bnd (msg m) (\<lambda>mm.
     seq (upd (\<lambda>w. w\<lparr>w_lpool := lpool_set_remote_tid (m_dst mm) (m_tid mm) tid (w_lpool w)\<rparr>))
     (seq (msg_upd m (\<lambda>x. x\<lparr>m_tid := tid\<rparr>))
     (seq (upd (src_write t (\<lambda>x. x\<lparr>t_out := Some m, t_mid := m_mid mm, msg_out_avail := True\<rparr>)))
     (seq (src_run pf h t)
     (bnd (gets (\<lambda>w. transaction_status (src_obj w t))) (\<lambda>st. on_cond (st = ONGOING) (tpool_add_src t))))))))))))"

definition out_dst_transaction :: "platform \<Rightarrow> 'w pools_scheme handler \<Rightarrow> mptr \<Rightarrow> tptr \<Rightarrow> ('w pools_scheme, unit) eff" where
  "out_dst_transaction pf h p t =
     seq (upd (dst_write t (\<lambda>x. x\<lparr>t_out := Some p, msg_out_avail := True\<rparr>)))
     (seq (dst_requests pf t)
     (seq (bnd (gets (\<lambda>w. start_ack_responder (dst_obj w t))) (\<lambda>b. on_cond b (on_dst t (ack_responder pf))))
     (seq (bnd (gets (\<lambda>w. transaction_status (dst_obj w t))) (\<lambda>st. on_cond (st = ONGOING) (dst_run pf h t)))
     (dst_finishes t))))"

definition out_src_transaction :: "platform \<Rightarrow> 'w pools_scheme handler \<Rightarrow> mptr \<Rightarrow> tptr \<Rightarrow> ('w pools_scheme, unit) eff" where
  "out_src_transaction pf h p t =
     seq (upd (src_write t (\<lambda>x. x\<lparr>t_out := Some p, msg_out_avail := True\<rparr>)))
     (seq (src_requests pf t) (seq (src_responds pf t)
     (seq (bnd (gets (\<lambda>w. transaction_status (src_obj w t))) (\<lambda>st. on_cond (st = ONGOING) (src_run pf h t)))
     (src_finishes t))))"

definition message_out :: "platform \<Rightarrow> 'w pools_scheme handler \<Rightarrow> mptr \<Rightarrow> ('w pools_scheme, unit) eff" where
  "message_out pf h p =
     seq (msg_upd p (\<lambda>x. x\<lparr>m_ackreq := True\<rparr>))
     (bnd (msg p) (\<lambda>out.
     if msg_opcode out = 2 then
       bnd (tpool_find_dst (m_dst out) (m_tid out)) (\<lambda>r. case r of
         Some t \<Rightarrow> out_dst_transaction pf h p t
       | None \<Rightarrow> new_src_transaction pf h p)
     else if msg_opcode out = 3 \<or> msg_opcode out = 1 then
       bnd (tpool_find_src (m_dst out) (m_tid out)) (\<lambda>r. case r of
         Some t \<Rightarrow> out_src_transaction pf h p t
       | None \<Rightarrow> new_src_transaction pf h p)
     else ret ()))"

end
