(* ===== verification/Mihf_System.thy ===== *)
theory Mihf_System
  imports Mihf_Messages
begin

text \<open>
  The state of a whole MIHF, the transmit module (\<open>transmit.cpp\<close>), request forwarding
  (\<open>utils.cpp\<close>), the service access controller (\<open>service_access_controller.cpp\<close>), the reception
  of a datagram (\<open>udp_listener.cpp\<close>, \<open>tcp_listener.cpp\<close>) and the small operations the services
  share. The handler \<open>h\<close> of the transactions and the table of callbacks are parameters here; the
  knot is tied in theory \<open>Mihf_Daemon\<close>.
\<close>

section \<open>State\<close>

record event_registration_t =
  er_user :: mihf_id
  er_link :: link_tuple_id
  er_event :: nat

definition event_registration_eq :: "event_registration_t \<Rightarrow> event_registration_t \<Rightarrow> bool" where
  "event_registration_eq a b \<longleftrightarrow> er_user a = er_user b \<and> link_tuple_id_eq (er_link a) (er_link b) \<and> er_event a = er_event b"

datatype timeout = Event_subscribe_timeout | Get_parameters_timeout | Configure_thresholds_timeout
  | Link_actions_timeout | Link_conf_timeout | L3_conf_timeout

text \<open>
  A timer of the map \<open>_timer\<close> of a service: what it calls with which message, and whether it has
  not fired yet. Replacing or erasing a timer cancels it.
\<close>

record timer =
  tm_calls :: timeout
  tm_in :: mptr
  tm_pending :: bool

type_synonym timers = "(u16, timer) stdmap"

record world = pools +
  w_lport :: u16
  w_lbook :: link_book
  w_ubook :: user_book
  w_lrpool :: link_response_pool
  w_subscriptions :: "event_registration_t list"
  w_event_timer :: timers
  w_command_timer :: timers
  w_link_delete :: u16
  w_dscv_order :: "octet_string list"
  w_unsolicited :: bool

section \<open>transmit.cpp\<close>

definition transmit :: "platform \<Rightarrow> world handler \<Rightarrow> mptr \<Rightarrow> (world, unit) eff" where
  "transmit pf h p = bnd (gets w_lport) (\<lambda>port. try_catch
     (bnd (msg p) (\<lambda>m.
      if msg_opcode m \<noteq> 1
      then bnd (gets (\<lambda>w. ubook_get (w_ubook w) (m_dst m))) (\<lambda>r. bnd (of_sum r) (\<lambda>user.
           seq (on_cond (msg_opcode m = 2) (msg_upd p (msg_set_opcode 0)))
           (udp_send pf p (c_str (ue_ip user)) (ue_port user) port)))
      else bnd (gets (\<lambda>w. lbook_get (w_lbook w) (m_dst m))) (\<lambda>r. bnd (of_sum r) (\<lambda>link.
           udp_send pf p (c_str (le_ip link)) (le_port link) port))))
     catchable
     (bnd (msg p) (\<lambda>m. seq (on_cond (msg_opcode m = 0) (msg_upd p (msg_set_opcode 2))) (message_out pf h p))))"

definition lpool_add_msg :: "mptr \<Rightarrow> (world, unit) eff" where
  "lpool_add_msg p = upd (\<lambda>w. w\<lparr>w_lpool := lpool_add (n_heap w p) (w_lpool w)\<rparr>)"

definition set_source_mihfid :: "mptr \<Rightarrow> (world, unit) eff" where
  "set_source_mihfid p = bnd (gets n_mihfid) (\<lambda>i. msg_upd p (\<lambda>m. m\<lparr>m_src := i\<rparr>))"

definition forward_request :: "platform \<Rightarrow> world handler \<Rightarrow> mptr \<Rightarrow> (world, unit) eff" where
  "forward_request pf h p = seq (lpool_add_msg p) (seq (set_source_mihfid p) (transmit pf h p))"

section \<open>service_access_controller.cpp\<close>

type_synonym callbacks = "u16 \<Rightarrow> world handler option"

definition sac_caught :: "exn \<Rightarrow> bool" where
  "sac_caught e \<longleftrightarrow> e = bad_tlv \<or> e = unknown_link_sap \<or> e = unknown_mih_user"

definition sac_dispatch :: "platform \<Rightarrow> world handler \<Rightarrow> callbacks \<Rightarrow> mptr \<Rightarrow> (world, unit) eff" where
  "sac_dispatch pf h cb i = bnd (msg i) (\<lambda>im. case cb (m_mid im) of
     Some process_message \<Rightarrow>
       bnd (msg_new meta_message_new) (\<lambda>out. seq (msg_upd out (\<lambda>m. m\<lparr>m_tid := m_tid im\<rparr>))
       (try_catch (bnd (process_message i out) (\<lambda>b. on_cond b (transmit pf h out))) sac_caught (ret ())))
   | None \<Rightarrow> ret ())"

definition sac_process_message :: "callbacks \<Rightarrow> world handler" where
  "sac_process_message cb i out = bnd (msg i) (\<lambda>im. bnd (gets n_mihfid) (\<lambda>mihfid.
     if m_src im = mihfid then ret False
     else if \<not> this_mihf_is_destination mihfid im \<and> \<not> is_multicast im then ret False
     else case cb (m_mid im) of
       Some process_message \<Rightarrow>
         bnd (try_catch (bnd (process_message i out) (\<lambda>b. ret (Some b))) (\<lambda>e. e = bad_tlv) (ret None)) (\<lambda>r. case r of
           None \<Rightarrow> ret False
         | Some rsp \<Rightarrow> bnd (msg i) (\<lambda>im.
             seq (msg_upd out (\<lambda>m. m\<lparr>mm_ip := mm_ip im, mm_scope := mm_scope im, mm_port := mm_port im,
                    m_tid := m_tid im\<rparr>)) (ret rsp)))
     | None \<Rightarrow> ret False))"

section \<open>Listeners\<close>

text \<open>
  \<open>udp_listener::handle_receive\<close> and \<open>session::handle_read\<close> without the socket calls: the octets
  received and the address of the sender are arguments.
\<close>

definition handle_receive ::
  "bool \<Rightarrow> (mptr \<Rightarrow> (world, unit) eff) \<Rightarrow> octet_string \<Rightarrow> u16 \<Rightarrow> u16 \<Rightarrow> u8 list \<Rightarrow> (world, unit) eff" where
  "handle_receive enable_multicast dispatch ip scope port buff =
     (case frame_cast buff of
        None \<Rightarrow> ret ()
      | Some pud \<Rightarrow> bnd (of_sum (meta_message_of ip scope port pud)) (\<lambda>m. bnd (msg_new m) (\<lambda>i.
          if is_multicast m \<and> \<not> enable_multicast then ret () else dispatch i)))"

section \<open>Operations the services share\<close>

definition mih_read :: "mptr \<Rightarrow> u16 \<Rightarrow> (iarchive, 'b) eff \<Rightarrow> (world, 'b) eff" where
  "mih_read p mid tlvs = msg_do p (msg_read mid tlvs)"

definition mih_write :: "mptr \<Rightarrow> u16 \<Rightarrow> (oarchive, unit) eff \<Rightarrow> (world, unit) eff" where
  "mih_write p mid tlvs = msg_do p (msg_write mid None tlvs)"

definition set_user_tid :: "mptr \<Rightarrow> (world, bool) eff" where
  "set_user_tid p w = (case lpool_set_user_tid (n_heap w p) (w_lpool w) of
     (b, m, lp) \<Rightarrow> (Inr b, w\<lparr>n_heap := (n_heap w)(p := m), w_lpool := lp\<rparr>))"

definition on_lbook :: "(link_book, 'b) eff \<Rightarrow> (world, 'b) eff" where
  "on_lbook m w = (case m (w_lbook w) of (r, b) \<Rightarrow> (r, w\<lparr>w_lbook := b\<rparr>))"

definition on_abook :: "(address_book, 'b) eff \<Rightarrow> (world, 'b) eff" where
  "on_abook m w = (case m (n_abook w) of (r, b) \<Rightarrow> (r, w\<lparr>n_abook := b\<rparr>))"

definition update_capabilities :: "(world, unit) eff" where
  "update_capabilities = bnd (gets (\<lambda>w. (n_mihfid w, w_lbook w, w_ubook w)))
     (\<lambda>(i, lb, ub). on_abook (update_local_capabilities i lb ub))"

text \<open>
  A request to a Link SAP counts as failed until the SAP confirms something. A SAP with too many
  failed requests is switched off, otherwise the request is forwarded.
\<close>

definition if_link_active :: "mihf_id \<Rightarrow> (world, unit) eff \<Rightarrow> (world, unit) eff" where
  "if_link_active dst k =
     bnd (on_lbook (lbook_fail dst)) (\<lambda>fails. bnd (gets w_link_delete) (\<lambda>limit.
     if limit < fails then seq (on_lbook (upd (lbook_inactive dst))) update_capabilities
     else k))"

definition search_interface :: "u8 \<Rightarrow> link_addr \<Rightarrow> (world, mihf_id) eff" where
  "search_interface ty addr = gets (\<lambda>w. lbook_search_interface ty addr (w_lbook w))"

definition respond_to :: "mptr \<Rightarrow> mptr \<Rightarrow> (world, unit) eff" where
  "respond_to i out = bnd (msg i) (\<lambda>im. bnd (gets n_mihfid) (\<lambda>mihfid.
     msg_upd out (\<lambda>m. m\<lparr>m_tid := m_tid im, m_src := mihfid, m_dst := m_src im\<rparr>)))"

definition is_dest :: "mptr \<Rightarrow> (world, bool) eff" where
  "is_dest p = gets (\<lambda>w. this_mihf_is_destination (n_mihfid w) (n_heap w p))"

text \<open>\<open>BOOST_FOREACH\<close> over a copy of the user identifiers.\<close>

definition for_users :: "(mihf_id \<Rightarrow> (world, unit) eff) \<Rightarrow> (world, unit) eff" where
  "for_users f = bnd (gets (\<lambda>w. ubook_get_ids (w_ubook w))) (for_each f)"

definition user_of :: "mihf_id \<Rightarrow> (world, user_entry) eff" where
  "user_of i = bnd (gets (\<lambda>w. ubook_get (w_ubook w) i)) of_sum"

definition set_dst :: "mptr \<Rightarrow> mihf_id \<Rightarrow> (world, unit) eff" where
  "set_dst p i = msg_upd p (\<lambda>m. m\<lparr>m_dst := i\<rparr>)"

definition set_opcode :: "mptr \<Rightarrow> u16 \<Rightarrow> (world, unit) eff" where
  "set_opcode p c = msg_upd p (msg_set_opcode c)"

definition source_if_local :: "mptr \<Rightarrow> (world, unit) eff" where
  "source_if_local i = bnd (msg i) (\<lambda>im. on_cond (mm_local im) (set_source_mihfid i))"

end
