(* ===== verification/Mih_Wp.thy ===== *)
theory Mih_Wp
  imports Mih_Prelude
begin

text \<open>
  Three ways to reason about operations that may throw: the weakest precondition of one run, the
  exceptions an operation can throw, and the state predicates it keeps. Each has a collection of
  rules, one per combinator, so that a handler is treated by following its text.
\<close>

section \<open>Weakest preconditions\<close>

text \<open>\<open>Q\<close> holds of result and state if the operation returns, \<open>E\<close> of exception and state if it throws.\<close>

definition wp :: "('s, 'a) eff \<Rightarrow> ('a \<Rightarrow> 's \<Rightarrow> bool) \<Rightarrow> (exn \<Rightarrow> 's \<Rightarrow> bool) \<Rightarrow> 's \<Rightarrow> bool" where
  "wp m Q E s = (case m s of (Inr x, s') \<Rightarrow> Q x s' | (Inl e, s') \<Rightarrow> E e s')"

named_theorems wp_simps \<open>weakest preconditions of the combinators\<close>

lemma wp_basic [wp_simps]:
  "wp (ret x) Q E s = Q x s" "wp (throw e) Q1 E s = E e s" "wp (upd f) Q2 E s = Q2 () (f s)" "wp (gets g) Q3 E s = Q3 (g s) s"
  by (simp_all add: wp_def)

lemma wp_pair [wp_simps]: "wp (Pair (Inr x)) Q E s = Q x s" "wp (Pair (Inl e)) Q1 E s = E e s"
  by (simp_all add: wp_def)

lemma wp_bnd [wp_simps]: "wp (bnd m f) Q E s = wp m (\<lambda>x. wp (f x) Q E) E s"
  by (simp add: wp_def bnd_def split: prod.split sum.split)

lemma wp_seq [wp_simps]: "wp (seq m n) Q E s = wp m (\<lambda>_. wp n Q E) E s"
  by (simp add: seq_def wp_bnd)

lemma wp_try_catch [wp_simps]:
  "wp (try_catch m c h) Q E s = wp m Q (\<lambda>e s'. if c e then wp h Q E s' else E e s') s"
  by (simp add: wp_def try_catch_def split: prod.split sum.split)

lemma wp_on_cond [wp_simps]: "wp (on_cond b m) Q E s = (if b then wp m Q E s else Q () s)"
  by (simp add: on_cond_def wp_basic)

lemma wp_if [wp_simps]: "wp (if b then m else n) Q E s = (if b then wp m Q E s else wp n Q E s)"
  by simp

lemma wp_mono:
  assumes "wp m Q E s" "\<And>x s'. Q x s' \<Longrightarrow> Q' x s'" "\<And>e s'. E e s' \<Longrightarrow> E' e s'"
  shows "wp m Q' E' s"
  using assms by (auto simp: wp_def split: prod.splits sum.splits)

lemma wpI:
  assumes "\<And>x s'. m s = (Inr x, s') \<Longrightarrow> Q x s'" "\<And>e s'. m s = (Inl e, s') \<Longrightarrow> E e s'"
  shows "wp m Q E s"
  using assms by (auto simp: wp_def split: prod.split sum.split)

lemma wp_Inr: "wp m Q E s \<Longrightarrow> m s = (Inr x, s') \<Longrightarrow> Q x s'"
  by (simp add: wp_def)

lemma wp_Inl: "wp m Q E s \<Longrightarrow> m s = (Inl e, s') \<Longrightarrow> E e s'"
  by (simp add: wp_def)

lemma wp_conj: "wp m Q E s \<Longrightarrow> wp m Q' E' s \<Longrightarrow> wp m (\<lambda>x s'. Q x s' \<and> Q' x s') (\<lambda>e s'. E e s' \<and> E' e s') s"
  by (simp add: wp_def split: prod.splits sum.splits)

text \<open>
  Labelled blocks: a predicate per label that every block establishes for the label it jumps to.
  Running out of blocks is an exception, unless a rank bounds the jumps.
\<close>

lemma wp_goto:
  assumes block: "\<And>l s. R l s \<Longrightarrow> wp (f l) (\<lambda>r s'. case r of None \<Rightarrow> Q () s' | Some l' \<Rightarrow> R l' s') E s"
    and fuel: "\<And>s. E out_of_fuel s" and "R l s"
  shows "wp (goto n f l) Q E s"
  using \<open>R l s\<close>
proof (induction n arbitrary: l s)
  case 0
  then show ?case by (simp add: wp_simps fuel)
next
  case (Suc n)
  show ?case
    unfolding goto.simps wp_bnd
    by (rule wp_mono [OF block [OF Suc.prems]]) (auto simp: wp_simps Suc.IH split: option.splits)
qed

lemma wp_goto_ranked:
  assumes block: "\<And>l s. R l s \<Longrightarrow> wp (f l) (\<lambda>r s'. case r of None \<Rightarrow> Q () s' | Some l' \<Rightarrow> R l' s') E s"
    and rank: "\<And>l s l' s'. f l s = (Inr (Some l'), s') \<Longrightarrow> rank l' s' < (rank l s :: nat)"
    and "R l s" "rank l s < n"
  shows "wp (goto n f l) Q E s"
  using assms(3,4)
proof (induction n arbitrary: l s)
  case (Suc n)
  have "wp (f l) (\<lambda>r s'. case r of None \<Rightarrow> True | Some l' \<Rightarrow> rank l' s' < rank l s) (\<lambda>_ _. True) s"
    by (rule wpI) (auto dest: rank split: option.split)
  from wp_conj [OF block [OF Suc.prems(1)] this] show ?case
    unfolding goto.simps wp_bnd
    by (rule wp_mono) (use Suc in \<open>auto simp: wp_simps split: option.splits\<close>)
qed simp

section \<open>Exceptions\<close>

definition throws :: "(exn \<Rightarrow> bool) \<Rightarrow> ('s, 'a) eff \<Rightarrow> bool" where
  "throws T m \<longleftrightarrow> (\<forall>s e s'. m s = (Inl e, s') \<longrightarrow> T e)"

lemma throwsD: "throws T m \<Longrightarrow> m s = (Inl e, s') \<Longrightarrow> T e"
  unfolding throws_def by blast

named_theorems throws_intros \<open>exceptions of the combinators\<close>

lemma throws_basic [throws_intros]:
  "throws T (ret x)" "T e \<Longrightarrow> throws T (throw e)" "throws T (upd f)" "throws T (gets g)"
  "(\<And>e. r = Inl e \<Longrightarrow> T e) \<Longrightarrow> throws T (\<lambda>s. (r, f s))"
  by (simp_all add: throws_def)

lemma throws_bnd [throws_intros]: "throws T m \<Longrightarrow> (\<And>x. throws T (f x)) \<Longrightarrow> throws T (bnd m f)"
  by (force simp: throws_def bnd_def split: prod.splits sum.splits)

lemma throws_seq [throws_intros]: "throws T m \<Longrightarrow> throws T n \<Longrightarrow> throws T (seq m n)"
  by (simp add: seq_def throws_bnd)

lemma throws_if [throws_intros]: "(b \<Longrightarrow> throws T m) \<Longrightarrow> (\<not> b \<Longrightarrow> throws T n) \<Longrightarrow> throws T (if b then m else n)"
  by simp

lemma throws_on_throw [throws_intros]: "throws T m \<Longrightarrow> throws T (on_throw m h)"
  by (auto simp: throws_def on_throw_def split: prod.splits sum.splits)

lemma throws_option [throws_intros]:
  "throws T m \<Longrightarrow> (\<And>x. throws T (f x)) \<Longrightarrow> throws T (case v of None \<Rightarrow> m | Some x \<Rightarrow> f x)"
  by (cases v) simp_all

lemma throws_try [throws_intros]:
  assumes "throws (\<lambda>e. c e \<or> T e) m" "throws T h"
  shows "throws T (try_catch m c h)"
  unfolding throws_def
proof (intro allI impI)
  fix s e s' assume t: "try_catch m c h s = (Inl e, s')"
  obtain r s1 where m: "m s = (r, s1)" by fastforce
  show "T e"
  proof (cases r)
    case (Inl e1)
    then have "c e1 \<or> T e1" using throwsD [OF assms(1)] m by blast
    with t m Inl throwsD [OF assms(2)] show ?thesis by (auto split: if_splits)
  qed (use t m in auto)
qed

lemma throws_mono: "throws T m \<Longrightarrow> (\<And>e. T e \<Longrightarrow> T' e) \<Longrightarrow> throws T' m"
  by (auto simp: throws_def)


lemma throws_on_cond [throws_intros]: "(b \<Longrightarrow> throws T m) \<Longrightarrow> throws T (on_cond b m)"
  by (simp add: on_cond_def throws_basic)

lemma throws_for_each [throws_intros]: "(\<And>x. throws T (f x)) \<Longrightarrow> throws T (for_each f xs)"
  by (induction xs) (simp_all add: throws_basic throws_seq)

lemma throws_prod [throws_intros]: "(\<And>a b. throws T (f a b)) \<Longrightarrow> throws T (case x of (a, b) \<Rightarrow> f a b)"
  by (simp split: prod.split)

lemma throws_prod_fun [throws_intros]: "(\<And>a b. throws T (f a b y)) \<Longrightarrow> throws T ((case x of (a, b) \<Rightarrow> f a b) y)"
  by (simp split: prod.split)

lemma throws_any [throws_intros]: "throws (\<lambda>_. True) m"
  by (simp add: throws_def)

lemma throws_goto:
  assumes "\<And>l. throws T (f l)" "\<And>l s l' s'. f l s = (Inr (Some l'), s') \<Longrightarrow> rank l' s' < (rank l s :: nat)"
    "\<And>l s. rank l s < n"
  shows "throws T (goto n f l)"
proof -
  have ranked: "wp (goto n f l) (\<lambda>_ _. True) (\<lambda>e _. T e) s" for s
    by (rule wp_goto_ranked [where R = "\<lambda>_ _. True", OF _ assms(2)])
      (auto intro!: wpI throwsD [OF assms(1)] assms(3) split: option.split)
  show ?thesis
    unfolding throws_def
  proof (intro allI impI)
    fix s e s' assume "goto n f l s = (Inl e, s')"
    with ranked [of s] show "T e" by (simp add: wp_def)
  qed
qed

section \<open>Predicates an operation keeps\<close>

text \<open>
  \<open>obeys N T P m\<close>: if \<open>P\<close> holds before \<open>m\<close>, it holds after it, also when \<open>m\<close> throws an exception of
  \<open>T\<close>, and \<open>m\<close> throws no exception outside \<open>N\<close>. \<open>T\<close> are the exceptions after which the program goes
  on. \<open>keeps\<close> leaves open what is thrown.
\<close>

definition obeys :: "(exn \<Rightarrow> bool) \<Rightarrow> (exn \<Rightarrow> bool) \<Rightarrow> ('s \<Rightarrow> bool) \<Rightarrow> ('s, 'a) eff \<Rightarrow> bool" where
  "obeys N T P m \<longleftrightarrow> (\<forall>s. P s \<longrightarrow> wp m (\<lambda>_. P) (\<lambda>e s'. N e \<and> (T e \<longrightarrow> P s')) s)"

abbreviation keeps :: "(exn \<Rightarrow> bool) \<Rightarrow> ('s \<Rightarrow> bool) \<Rightarrow> ('s, 'a) eff \<Rightarrow> bool" where
  "keeps \<equiv> obeys (\<lambda>_. True)"

text \<open>\<open>completes\<close>: no bound of the model is reached.\<close>

abbreviation completes :: "(exn \<Rightarrow> bool) \<Rightarrow> ('s \<Rightarrow> bool) \<Rightarrow> ('s, 'a) eff \<Rightarrow> bool" where
  "completes \<equiv> obeys (\<lambda>e. e \<noteq> out_of_fuel)"

named_theorems keeps_intros \<open>predicates the combinators keep\<close>

lemma obeysI: "(\<And>s. P s \<Longrightarrow> wp m (\<lambda>_. P) (\<lambda>e s'. N e \<and> (T e \<longrightarrow> P s')) s) \<Longrightarrow> obeys N T P m"
  by (simp add: obeys_def)

lemma keeps_def: "keeps T P m \<longleftrightarrow> (\<forall>s. P s \<longrightarrow> wp m (\<lambda>_. P) (\<lambda>e s'. T e \<longrightarrow> P s') s)"
  by (simp add: obeys_def)

lemma keepsI: "(\<And>s. P s \<Longrightarrow> wp m (\<lambda>_. P) (\<lambda>e s'. T e \<longrightarrow> P s') s) \<Longrightarrow> keeps T P m"
  by (simp add: obeys_def)

lemma obeysD: "obeys N T P m \<Longrightarrow> P s \<Longrightarrow> wp m (\<lambda>_. P) (\<lambda>e s'. N e \<and> (T e \<longrightarrow> P s')) s"
  by (simp add: obeys_def)

lemma keepsD: "keeps T P m \<Longrightarrow> P s \<Longrightarrow> wp m (\<lambda>_. P) (\<lambda>e s'. T e \<longrightarrow> P s') s"
  by (simp add: obeys_def)

text \<open>What is kept and what is thrown can be shown apart.\<close>

lemma obeys_throws: "throws N m \<Longrightarrow> keeps T P m \<Longrightarrow> obeys N T P m"
  by (auto simp: obeys_def wp_def dest: throwsD split: prod.splits sum.splits)

lemma obeys_weaken: "obeys N T P m \<Longrightarrow> (\<And>e. N e \<Longrightarrow> N' e) \<Longrightarrow> obeys N' T P m"
  unfolding obeys_def by (blast intro: wp_mono)

lemmas keeps_anything [keeps_intros] = TrueI

lemma keeps_basic [keeps_intros]:
  "obeys N T P (ret x)" "N e \<Longrightarrow> obeys N T P (throw e)" "obeys N T P (gets g)"
  "(\<And>s. P s \<Longrightarrow> P (f s)) \<Longrightarrow> obeys N T P (upd f)"
  by (simp_all add: obeys_def wp_simps)

lemma keeps_pair [keeps_intros]: "(\<And>e. r = Inl e \<Longrightarrow> N e) \<Longrightarrow> obeys N T P (Pair r)"
  by (simp add: obeys_def wp_def split: sum.split)

lemma keeps_bnd [keeps_intros]:
  assumes "obeys N T P m" "\<And>x. obeys N T P (f x)"
  shows "obeys N T P (bnd m f)"
proof (rule obeysI, unfold wp_bnd)
  fix s assume "P s"
  from obeysD [OF assms(1) this]
  show "wp m (\<lambda>x. wp (f x) (\<lambda>_. P) (\<lambda>e s'. N e \<and> (T e \<longrightarrow> P s'))) (\<lambda>e s'. N e \<and> (T e \<longrightarrow> P s')) s"
    by (rule wp_mono) (auto intro: obeysD [OF assms(2)])
qed

lemma keeps_seq [keeps_intros]: "obeys N T P m \<Longrightarrow> obeys N T P n \<Longrightarrow> obeys N T P (seq m n)"
  by (simp add: seq_def keeps_bnd)

lemma keeps_if [keeps_intros]: "(b \<Longrightarrow> obeys N T P m) \<Longrightarrow> (\<not> b \<Longrightarrow> obeys N T P n) \<Longrightarrow> obeys N T P (if b then m else n)"
  by simp

lemma keeps_on_cond [keeps_intros]: "(b \<Longrightarrow> obeys N T P m) \<Longrightarrow> obeys N T P (on_cond b m)"
  by (simp add: on_cond_def keeps_basic)

lemma keeps_option [keeps_intros]:
  "(v = None \<Longrightarrow> obeys N T P m) \<Longrightarrow> (\<And>x. v = Some x \<Longrightarrow> obeys N T P (f x))
     \<Longrightarrow> obeys N T P (case v of None \<Rightarrow> m | Some x \<Rightarrow> f x)"
  by (cases v) simp_all

lemma keeps_for_each [keeps_intros]: "(\<And>x. obeys N T P (f x)) \<Longrightarrow> obeys N T P (for_each f xs)"
  by (induction xs) (simp_all add: keeps_basic keeps_seq)

lemma keeps_try:
  assumes "obeys N (\<lambda>e. c e \<or> T e) P m" "obeys N T P h"
  shows "obeys N T P (try_catch m c h)"
proof (rule obeysI, unfold wp_try_catch)
  fix s assume "P s"
  from obeysD [OF assms(1) this]
  show "wp m (\<lambda>_. P) (\<lambda>e s'. if c e then wp h (\<lambda>_. P) (\<lambda>e s'. N e \<and> (T e \<longrightarrow> P s')) s'
      else N e \<and> (T e \<longrightarrow> P s')) s"
    by (rule wp_mono) (use assms(2) in \<open>auto simp: obeys_def\<close>)
qed

lemma keeps_mono:
  assumes "obeys N T P m" "\<And>e. T' e \<Longrightarrow> T e"
  shows "obeys N T' P m"
proof (rule obeysI)
  fix s assume "P s"
  from obeysD [OF assms(1) this] show "wp m (\<lambda>_. P) (\<lambda>e s'. N e \<and> (T' e \<longrightarrow> P s')) s"
    by (rule wp_mono) (auto dest: assms(2))
qed

lemma keeps_Inr: "obeys N T P m \<Longrightarrow> P s \<Longrightarrow> m s = (Inr x, s') \<Longrightarrow> P s'"
  using wp_Inr [OF obeysD] by fast

lemma obeys_Inl: "obeys N T P m \<Longrightarrow> P s \<Longrightarrow> m s = (Inl e, s') \<Longrightarrow> N e"
  using wp_Inl [OF obeysD] by fast

end
