(* ===== verification/Mih_Ends.thy ===== *)
theory Mih_Ends
  imports Mih_Tlv_Types Mih_Wp
begin

text \<open>
  Reading and writing end: no codec reaches a bound of the model, whatever octets it reads. The
  rules follow the constructors of the codecs.
\<close>

abbreviation ends :: "('s, 'a) eff \<Rightarrow> bool" where
  "ends \<equiv> throws (\<lambda>e. e \<noteq> out_of_fuel)"

named_theorems ends_intros \<open>codecs and TLVs that end\<close>

section \<open>Archives\<close>

lemma ends_take: "ends (i_take n)"
  by (simp add: throws_def i_take_def)

lemma ends_integers:
  "ends i_uint8" "ends i_bool" "ends i_uint16" "ends i_uint32" "ends i_uint64" "ends i_sint8"
  unfolding i_uint8_def i_bool_def i_uint16_def i_uint32_def i_uint64_def i_sint8_def
  by (intro throws_intros ends_take)+

lemma ends_list_length: "ends i_list_length"
  by (auto simp: throws_def i_list_length_def Let_def split: if_splits option.splits)

lemma ends_bytes: "ends i_bytes" "ends i_octet_string"
proof -
  show bytes: "ends i_bytes"
    unfolding i_bytes_def using ends_list_length
    by (auto simp: throws_def Let_def bnd_def split: if_splits prod.splits sum.splits)
  show "ends i_octet_string"
    unfolding i_octet_string_def by (intro throws_intros bytes)
qed

lemma ends_write:
  "ends (o_write bs)" "ends (o_uint8 a)" "ends (o_bool b)" "ends (o_uint16 c)" "ends (o_uint32 d)" "ends (o_uint64 e)"
  "ends (o_sint8 f)" "ends (o_list_length g)" "ends (o_bytes h)" "ends (o_octet_string i)"
proof -
  show w: "ends (o_write bs)" for bs by (auto simp: throws_def o_write_def)
  show "ends (o_uint8 a)" "ends (o_bool b)" "ends (o_uint16 c)" "ends (o_uint32 d)" "ends (o_uint64 e)" "ends (o_sint8 f)"
    unfolding o_uint8_def o_bool_def o_uint16_def o_uint32_def o_uint64_def o_sint8_def by (intro throws_intros w)+
  show len: "ends (o_list_length g)" for g
    unfolding o_list_length_def Let_def o_uint8_def by (intro throws_intros w; simp)
  show bytes: "ends (o_bytes h)" for h unfolding o_bytes_def by (intro throws_intros w len; simp)
  show "ends (o_octet_string i)" unfolding o_octet_string_def by (intro throws_intros bytes)
qed

section \<open>Codecs\<close>

definition codec_ends :: "'a codec \<Rightarrow> bool" where
  "codec_ends c \<longleftrightarrow> (\<forall>v. ends (put c v)) \<and> (\<forall>v. ends (get c v))"

lemma codec_endsI: "(\<And>v. ends (put c v)) \<Longrightarrow> (\<And>v. ends (get c v)) \<Longrightarrow> codec_ends c"
  by (simp add: codec_ends_def)

lemma codec_endsD: "codec_ends c \<Longrightarrow> ends (put c v)" "codec_ends c \<Longrightarrow> ends (get c v)"
  by (simp_all add: codec_ends_def)

lemma basic_codecs_end [ends_intros]:
  "codec_ends bool_codec" "codec_ends u8_codec" "codec_ends u16_codec" "codec_ends u32_codec" "codec_ends u64_codec"
  "codec_ends s8_codec" "codec_ends octet_string_codec" "codec_ends bytes_codec" "codec_ends null_codec"
  by (simp_all add: codec_ends_def bool_codec_def u8_codec_def u16_codec_def u32_codec_def u64_codec_def s8_codec_def
      octet_string_codec_def bytes_codec_def null_codec_def ends_integers ends_bytes ends_write throws_basic)

lemma pair_ends [ends_intros]: "codec_ends c \<Longrightarrow> codec_ends d \<Longrightarrow> codec_ends (pair_codec c d)"
  by (auto simp: codec_ends_def pair_codec_def intro!: throws_intros)

lemma struct_ends [ends_intros]: "codec_ends c \<Longrightarrow> codec_ends (struct_codec f g c)"
  by (auto simp: codec_ends_def struct_codec_def intro!: throws_intros)

lemma list_ends:
  assumes "codec_ends c"
  shows "ends (put_list c xs)" "ends (get_list c xs)"
  by (induction xs) (auto intro!: throws_intros codec_endsD assms)

lemma vector_ends [ends_intros]:
  assumes "codec_ends c"
  shows "codec_ends (vector_codec c)"
proof -
  have "e \<noteq> out_of_fuel" if "vector_get c v s = (Inl e, s')" for v s e s'
  proof -
    have "ends (bnd i_list_length (\<lambda>len. on_throw (get_list c (vec_resize len (dflt c) v)) (i_set_position (i_position s))))"
      by (intro throws_intros ends_list_length list_ends [OF assms])
    with that show ?thesis by (auto simp: vector_get_def Let_def dest: throwsD)
  qed
  moreover have "e \<noteq> out_of_fuel" if "vector_put c v s = (Inl e, s')" for v s e s'
  proof -
    have "ends (seq (o_list_length (of_nat (length v))) (on_throw (put_list c v) (o_set_position (o_position s))))"
      by (intro throws_intros ends_write list_ends [OF assms])
    with that show ?thesis by (auto simp: vector_put_def Let_def dest: throwsD split: if_splits)
  qed
  ultimately show ?thesis by (auto simp: codec_ends_def vector_codec_def throws_def)
qed

lemma array_ends [ends_intros]: "codec_ends c \<Longrightarrow> codec_ends (array_codec n c)"
  by (rule codec_endsI) (simp_all add: array_codec_def list_ends)

lemma alt_ends [ends_intros]: "codec_ends c \<Longrightarrow> codec_ends (snd (alt is prj wrap c))"
  by (auto simp: codec_ends_def alt_def intro!: throws_intros)

lemma variant_ends [ends_intros]:
  assumes "list_all (\<lambda>a. codec_ends (snd a)) alts"
  shows "codec_ends (variant_codec alts)"
proof -
  have "codec_ends (snd (alts ! i))" if "i < length alts" for i using assms that by (simp add: list_all_length)
  then show ?thesis
    by (intro codec_endsI)
      (auto simp: variant_codec_def variant_get_def variant_put_def Let_def
        intro!: throws_intros ends_integers ends_write codec_endsD)
qed

lemma alternatives_end [ends_intros]:
  "list_all (\<lambda>a. codec_ends (snd a)) []"
  "codec_ends (snd a) \<Longrightarrow> list_all (\<lambda>a. codec_ends (snd a)) alts \<Longrightarrow> list_all (\<lambda>a. codec_ends (snd a)) (a # alts)"
  by simp_all

lemma opt_ends [ends_intros]: "codec_ends c \<Longrightarrow> codec_ends (opt_codec c)"
  unfolding opt_codec_def by (intro ends_intros)

section \<open>TLVs\<close>

lemma nested_ends: "ends m \<Longrightarrow> ends (i_nested len m)"
  by (auto simp: throws_def i_nested_def split: prod.splits)

lemma base_tlv_ends:
  assumes "codec_ends tc" "codec_ends c"
  shows "ends (base_tlv_get tc t c v)" "ends (base_tlv_put tc t c v)"
proof -
  have "e \<noteq> out_of_fuel" if "base_tlv_get tc t c v s = (Inl e, s')" for s e s'
  proof -
    have "ends (bnd (get tc (dflt tc)) (\<lambda>tp.
        if tp \<noteq> t then bnd (upd (i_set_position (i_position s))) (\<lambda>_. ret None)
        else on_throw (bnd i_list_length (\<lambda>len. bnd (i_nested len (get c v)) (\<lambda>x. ret (Some x))))
               (i_set_position (i_position s))))"
      by (intro throws_intros ends_list_length nested_ends codec_endsD assms)
    with that show ?thesis by (auto simp: base_tlv_get_def Let_def dest: throwsD)
  qed
  then show "ends (base_tlv_get tc t c v)" by (auto simp: throws_def)
  have "e \<noteq> out_of_fuel" if "base_tlv_put tc t c v s = (Inl e, s')" for s e s'
  proof -
    have "ends (on_throw (seq (put tc t) (o_bytes bs)) (o_set_position (o_position s)))" for bs
      by (intro throws_intros ends_write codec_endsD assms)
    moreover have "ends (put c v)" by (intro codec_endsD assms)
    ultimately show ?thesis
      using that by (auto simp: base_tlv_put_def Let_def dest: throwsD split: prod.splits sum.splits)
  qed
  then show "ends (base_tlv_put tc t c v)" by (auto simp: throws_def)
qed

lemma tlv_ends [ends_intros]: "codec_ends c \<Longrightarrow> codec_ends (tlv_codec t c)"
  by (rule codec_endsI) (auto simp: tlv_codec_def intro!: throws_intros base_tlv_ends basic_codecs_end)

lemma tlv_opt_ends [ends_intros]:
  assumes "codec_ends c"
  shows "codec_ends (tlv_opt_codec t c)"
  using base_tlv_ends [OF basic_codecs_end(2) assms]
  by (auto simp: codec_ends_def tlv_opt_codec_def throws_def split: option.splits if_splits)

section \<open>The data types\<close>

lemma base_types_end [ends_intros]:
  "codec_ends (bitmap_codec n)" "codec_ends percentage_codec" "codec_ends enumeration_codec" "codec_ends id_codec"
  "codec_ends transport_addr_codec" "codec_ends ip_addr_codec" "codec_ends cell_2g_codec" "codec_ends cell_3g_codec"
  unfolding bitmap_codec_def percentage_codec_def enumeration_codec_def id_codec_def transport_addr_codec_def
    ip_addr_codec_def cell_2g_codec_def cell_3g_codec_def
  by (intro ends_intros)+

lemma mac_addr_ends [ends_intros]: "codec_ends mac_addr_codec"
  using base_types_end(5) by (simp add: codec_ends_def mac_addr_codec_def)

lemma link_addr_ends [ends_intros]: "codec_ends link_addr_codec"
  unfolding link_addr_codec_def by (intro ends_intros)

lemmas link_type_defs = sig_strength_codec_def link_states_rsp_codec_def link_desc_rsp_codec_def dev_states_rsp_codec_def
  threshold_codec_def link_action_codec_def link_id_codec_def link_tuple_id_codec_def link_scan_rsp_codec_def
  link_action_req_codec_def link_action_rsp_codec_def pk_delay_codec_def qos_param_val_codec_def
  link_param_type_codec_def link_status_req_codec_def link_param_codec_def link_cfg_param_codec_def
  link_cfg_status_codec_def link_det_info_codec_def link_status_rsp_codec_def status_rsp_codec_def
  configuration_codec_def network_type_codec_def net_type_addr_codec_def mbb_ho_supp_codec_def mos_info_codec_def
  mos_dscv_codec_def ip_subnet_info_codec_def ip_info_codec_def

lemma link_types_end [ends_intros]:
  "codec_ends link_action_codec" "codec_ends link_id_codec" "codec_ends link_tuple_id_codec" "codec_ends link_scan_rsp_codec"
  "codec_ends link_action_req_codec" "codec_ends link_action_rsp_codec" "codec_ends link_param_type_codec"
  "codec_ends link_status_req_codec" "codec_ends link_param_codec" "codec_ends link_cfg_param_codec"
  "codec_ends link_cfg_status_codec" "codec_ends link_det_info_codec" "codec_ends (status_rsp_codec pick)"
  "codec_ends link_states_rsp_codec" "codec_ends (link_desc_rsp_codec pick)" "codec_ends configuration_codec"
  "codec_ends net_type_addr_codec" "codec_ends mbb_ho_supp_codec" "codec_ends mos_dscv_codec" "codec_ends ip_info_codec"
  unfolding link_type_defs by (intro ends_intros)+

section \<open>Reading and writing a TLV by its name\<close>

definition tlv_name_ends :: "'a tlv_name \<Rightarrow> bool" where
  "tlv_name_ends t \<longleftrightarrow> codec_ends (snd t)"

lemma named_ends [throws_intros]:
  "tlv_name_ends t \<Longrightarrow> ends (rd t)" "tlv_name_ends t \<Longrightarrow> ends (rd_opt t)"
  "tlv_name_ends t \<Longrightarrow> ends (wr t v)" "tlv_name_ends t \<Longrightarrow> ends (wr_opt t u)"
  unfolding rd_def rd_opt_def wr_def wr_opt_def mand_def opti_def tlv_name_ends_def
  by (intro codec_endsD ends_intros; assumption)+

lemmas tlv_name_defs = tlv_status_def tlv_event_list_def tlv_command_list_def tlv_query_type_list_def
  tlv_transport_option_list_def tlv_net_type_addr_list_def tlv_mbb_ho_supp_list_def tlv_link_identifier_def
  tlv_new_link_identifier_def tlv_old_access_router_def tlv_new_access_router_def tlv_ip_cfg_methods_def
  tlv_time_interval_def tlv_dev_states_req_def tlv_link_id_list_def tlv_get_status_req_set_def
  tlv_get_status_rsp_list_def tlv_link_cfg_param_list_def tlv_link_cfg_status_list_def tlv_link_action_list_def
  tlv_link_action_rsp_list_def tlv_link_det_info_list_def tlv_poa_def tlv_link_evt_list_def tlv_link_cmd_list_def
  tlv_link_parameters_req_def tlv_link_parameters_status_list_def tlv_link_states_req_def tlv_link_states_rsp_def
  tlv_link_descriptor_req_def tlv_link_descriptor_rsp_def tlv_link_action_def tlv_link_ac_result_def
  tlv_link_scan_rsp_list_def tlv_link_det_info_def tlv_interface_type_addr_def tlv_mos_dscv_def
  tlv_configuration_list_def tlv_ip_addr_list_def tlv_ip_route_list_def tlv_ip_dns_list_def tlv_fqdn_list_def

lemma tlv_names_end [throws_intros]:
  "tlv_name_ends tlv_status" "tlv_name_ends tlv_event_list" "tlv_name_ends tlv_command_list"
  "tlv_name_ends tlv_query_type_list" "tlv_name_ends tlv_transport_option_list" "tlv_name_ends tlv_net_type_addr_list"
  "tlv_name_ends tlv_mbb_ho_supp_list" "tlv_name_ends tlv_link_identifier" "tlv_name_ends tlv_new_link_identifier"
  "tlv_name_ends tlv_old_access_router" "tlv_name_ends tlv_new_access_router" "tlv_name_ends tlv_ip_cfg_methods"
  "tlv_name_ends tlv_time_interval" "tlv_name_ends tlv_dev_states_req" "tlv_name_ends tlv_link_id_list"
  "tlv_name_ends tlv_get_status_req_set" "tlv_name_ends (tlv_get_status_rsp_list pick)"
  "tlv_name_ends tlv_link_cfg_param_list" "tlv_name_ends tlv_link_cfg_status_list" "tlv_name_ends tlv_link_action_list"
  "tlv_name_ends tlv_link_action_rsp_list" "tlv_name_ends tlv_link_det_info_list" "tlv_name_ends tlv_poa"
  "tlv_name_ends tlv_link_evt_list" "tlv_name_ends tlv_link_cmd_list" "tlv_name_ends tlv_link_parameters_req"
  "tlv_name_ends tlv_link_parameters_status_list" "tlv_name_ends tlv_link_states_req" "tlv_name_ends tlv_link_states_rsp"
  "tlv_name_ends tlv_link_descriptor_req" "tlv_name_ends (tlv_link_descriptor_rsp pick)" "tlv_name_ends tlv_link_action"
  "tlv_name_ends tlv_link_ac_result" "tlv_name_ends tlv_link_scan_rsp_list" "tlv_name_ends tlv_link_det_info"
  "tlv_name_ends tlv_interface_type_addr" "tlv_name_ends tlv_mos_dscv" "tlv_name_ends tlv_configuration_list"
  "tlv_name_ends tlv_ip_addr_list" "tlv_name_ends tlv_ip_route_list" "tlv_name_ends tlv_ip_dns_list"
  "tlv_name_ends tlv_fqdn_list"
  unfolding tlv_name_ends_def tlv_name_defs snd_conv by (intro ends_intros)+

end
