(* ===== verification/Mihf_Pool_Inv.thy ===== *)
theory Mihf_Pool_Inv
  imports Mihf_System Mih_Ends
begin

text \<open>
  The invariant of the two pools of transactions with peers, and what the operations below the
  message handlers do to a transaction: what sending can throw, what the acknowledgement
  responder and requestor change.
\<close>

section \<open>What sending can throw\<close>

text \<open>An exception of the code that no dispatcher catches.\<close>

definition fatal :: "exn \<Rightarrow> bool" where
  "fatal e \<longleftrightarrow> \<not> sac_caught e \<and> e \<noteq> out_of_fuel \<and> e \<noteq> deadlock"

lemma fatal_caught [dest]: "fatal e \<Longrightarrow> \<not> sac_caught e"
  by (simp add: fatal_def)

lemma fatal_real [dest]: "fatal e \<Longrightarrow> e \<noteq> out_of_fuel \<and> e \<noteq> deadlock"
  by (simp add: fatal_def)

lemma throws_write [throws_intros]: "throws fatal (o_write bs)"
  by (auto simp: throws_def o_write_def fatal_def sac_caught_def split: if_splits)

lemma throws_octet_string [throws_intros]:
  "throws fatal (o_bytes bs)" "throws fatal (o_octet_string s)"
  unfolding o_bytes_def o_octet_string_def o_list_length_def Let_def
  by (intro throws_intros; simp add: fatal_def sac_caught_def)+

lemma put_throws_tlv:
  assumes "\<And>v. throws T (put c v)" "throws T (o_uint8 n)" "\<And>bs. throws T (o_bytes bs)"
  shows "throws T (put (tlv_codec n c) v)"
proof -
  have "throws T (base_tlv_put u8_codec n c v)"
    unfolding throws_def
  proof (intro allI impI)
    fix s e s' assume *: "base_tlv_put u8_codec n c v s = (Inl e, s')"
    obtain r out where put: "put c v (oarchive_of archive_new) = (r, out)" by fastforce
    have "throws T (on_throw (seq (put u8_codec n) (o_bytes (o_buf out))) (o_set_position (o_position s)))"
      using assms by (simp add: throws_intros u8_codec_def)
    then show "T e"
      using * put throwsD [OF assms(1), of v "oarchive_of archive_new"]
      by (auto simp: base_tlv_put_def Let_def dest: throwsD split: sum.splits)
  qed
  then show ?thesis by (simp add: tlv_codec_def)
qed

lemma get_frame_throws:
  assumes "get_frame m = Inl e"
  shows "fatal e"
proof -
  have ids: "throws fatal (id_tlvs_put (m_src m) (m_dst m))"
    unfolding id_tlvs_put_def id_codec_def o_uint8_def
    by (intro throws_intros put_throws_tlv; simp add: octet_string_codec_def o_uint8_def throws_intros)
  have hdr: "throws fatal (fill_header m n)" for n
    unfolding fill_header_def frame_set_version_def frame_set_ackreq_def frame_set_ackrsp_def frame_set_uir_def
      frame_set_m_def frame_set_fn_def frame_set_mid_def frame_set_tid_def frame_set_plength_def
    by (intro throws_intros; simp add: fatal_def sac_caught_def)
  show ?thesis
    using assms by (auto simp: get_frame_def Let_def dest: throwsD [OF ids] throwsD [OF hdr] split: prod.splits sum.splits)
qed

lemma throws_udp [throws_intros]: "throws fatal (udp_send pf p ip port src)"
  by (auto simp: throws_def udp_send_result get_frame_throws split: sum.splits if_splits) (simp add: fatal_def sac_caught_def)

lemma throws_tcp: "throws (\<lambda>e. e \<noteq> out_of_fuel \<and> e \<noteq> deadlock) (tcp_send pf p ip port src)"
  using get_frame_throws by (auto simp: throws_def tcp_send_result fatal_def split: sum.splits if_splits)

lemma throws_lookup:
  assumes "\<And>s e. g s = Inl e \<Longrightarrow> T e" "\<And>x. throws T (f x)"
  shows "throws T (bnd (gets g) (\<lambda>r. bnd (of_sum r) f))"
  using assms by (auto simp: throws_def bnd_def split: sum.splits)

lemma book_lookups:
  "abook_get b i = Inl e \<Longrightarrow> e = no_address_entry" "lbook_get lb i = Inl e \<Longrightarrow> e = unknown_link_sap"
  "ubook_get ub i = Inl e \<Longrightarrow> e = unknown_mih_user"
  by (simp_all add: abook_get_def lbook_get_def ubook_get_def split: option.splits)

lemma net_sap_throws [throws_intros]: "throws fatal (net_sap_send pf p)"
proof -
  have catch: "(\<lambda>e. catchable e \<or> fatal e) = (\<lambda>e. e \<noteq> out_of_fuel \<and> e \<noteq> deadlock)"
    by (auto simp: fun_eq_iff fatal_def sac_caught_def)
  have udp: "throws (\<lambda>e. e \<noteq> out_of_fuel \<and> e \<noteq> deadlock) (udp_send pf p ip port src :: ('a net_scheme, unit) eff)" for ip port src
    by (rule throws_mono [OF throws_udp]) (simp add: fatal_def)
  have catching: "throws fatal (try_catch m catchable n)"
    if "throws (\<lambda>e. e \<noteq> out_of_fuel \<and> e \<noteq> deadlock) m" "throws fatal n" for m n :: "('a net_scheme, unit) eff"
    using throws_try [of catchable fatal m n] that by (simp add: catch)
  show ?thesis
    unfolding net_sap_send_def msg_def
    by (rule throws_lookup throws_bnd throws_basic(1,3) catching throws_if udp throws_tcp throws_option throws_udp
        | (auto simp: throws_def dest!: book_lookups)[])+
qed

section \<open>Member functions\<close>

lemma wp_member [wp_simps]:
  "wp (self f) Q E (t, n) = Q (f t) (t, n)"
  "wp (assign g) Q1 E (t, n) = Q1 () (g t, n)"
  "wp (on_net m) Q2 E (t, n) = wp m (\<lambda>x n'. Q2 x (t, n')) (\<lambda>e n'. E e (t, n')) n"
  by (simp_all add: wp_def self_def assign_def on_net_def split: prod.split sum.split)

lemma wp_msg [wp_simps]:
  "wp (msg p) Q E n = Q (n_heap n p) n"
  "wp (msg_upd p f) Q1 E n = Q1 () (n\<lparr>n_heap := (n_heap n)(p := f (n_heap n p))\<rparr>)"
  "wp (msg_new m) Q2 E n = Q2 (n_next n) (n\<lparr>n_heap := (n_heap n)(n_next n := m), n_next := Suc (n_next n)\<rparr>)"
  "wp (of_sum r) Q3 E' s = (case r of Inr x \<Rightarrow> Q3 x s | Inl e \<Rightarrow> E' e s)"
  by (simp_all add: wp_def split: sum.split)

lemma wp_on_src [wp_simps]:
  "wp (on_src p m) Q E w = wp m (\<lambda>x s. Q x ((snd s)\<lparr>src_obj := (src_obj (snd s))(p := fst s)\<rparr>))
     (\<lambda>e s. E e ((snd s)\<lparr>src_obj := (src_obj (snd s))(p := fst s)\<rparr>)) (src_obj w p, w)"
  by (simp add: wp_def on_src_def split: prod.split sum.split)

lemma wp_on_dst [wp_simps]:
  "wp (on_dst p m) Q E w = wp m (\<lambda>x s. Q x ((snd s)\<lparr>dst_obj := (dst_obj (snd s))(p := fst s)\<rparr>))
     (\<lambda>e s. E e ((snd s)\<lparr>dst_obj := (dst_obj (snd s))(p := fst s)\<rparr>)) (dst_obj w p, w)"
  by (simp add: wp_def on_dst_def split: prod.split sum.split)

text \<open>\<open>safe\<close>: no exception escapes that the dispatcher would catch.\<close>

abbreviation safe :: "('s, 'a) eff \<Rightarrow> ('a \<Rightarrow> 's \<Rightarrow> bool) \<Rightarrow> 's \<Rightarrow> bool" where
  "safe m Q s \<equiv> wp m Q (\<lambda>e _. fatal e) s"

lemma safe_deref [wp_simps]: "safe (deref p) Q s \<longleftrightarrow> (\<forall>x. p = Some x \<longrightarrow> Q x s)"
  by (cases p) (simp_all add: wp_simps fatal_def sac_caught_def)

lemma safe_net_sap:
  assumes "\<And>xs. Q () (n\<lparr>n_sent := xs\<rparr>)"
  shows "safe (net_sap_send pf p) Q n"
proof (rule wpI)
  fix x n' assume *: "net_sap_send pf p n = (Inr x, n')"
  obtain r pks where "net_sap_send pf p n = (r, n\<lparr>n_sent := n_sent n @ pks\<rparr>)"
    using sends_net_sap [of pf p, unfolded sends_def, rule_format, of n] by blast
  with * assms [of "n_sent n @ pks"] show "Q x n'" by simp
next
  fix e n' assume "net_sap_send pf p n = (Inl e, n')"
  then show "fatal e" by (rule throwsD [OF net_sap_throws])
qed

lemma safe_send_ptr: "(\<And>xs. Q () (t, n\<lparr>n_sent := xs\<rparr>)) \<Longrightarrow> safe (send_ptr pf p) Q (t, n)"
  unfolding send_ptr_def wp_simps by (auto simp: wp_simps intro: safe_net_sap)

lemma safe_the_in [wp_simps]: "safe the_in Q (t, n) \<longleftrightarrow> (\<forall>p. t_in t = Some p \<longrightarrow> Q (n_heap n p) (t, n))"
  unfolding the_in_def by (simp add: wp_simps)

lemma safe_the_out [wp_simps]: "safe the_out Q (t, n) \<longleftrightarrow> (\<forall>p. t_out t = Some p \<longrightarrow> Q (n_heap n p) (t, n))"
  unfolding the_out_def by (simp add: wp_simps)

text \<open>The acknowledgement responder answers the message that is there; after it no message is left.\<close>

definition rsp_mask :: "'t transaction_scheme \<Rightarrow> 't transaction_scheme" where
  "rsp_mask t = t\<lparr>ack_rsp_state := ACK_RSP_INIT, t_dup := None, msg_in_avail := False\<rparr>"

definition net_mask :: "'n net_scheme \<Rightarrow> 'n net_scheme" where
  "net_mask n = n\<lparr>n_heap := \<lambda>_. meta_message_new, n_next := 0, n_sent := []\<rparr>"

definition responded :: "'t transaction_scheme \<times> 'n net_scheme \<Rightarrow> 't transaction_scheme \<times> 'n net_scheme \<Rightarrow> bool" where
  "responded s s' \<longleftrightarrow> rsp_mask (fst s') = rsp_mask (fst s) \<and> net_mask (snd s') = net_mask (snd s)"

lemma ack_responder_block_responds:
  assumes "responded s s'"
  shows "safe (ack_responder_block pf l)
    (\<lambda>r s''. responded s s'' \<and> (r = None \<longrightarrow> \<not> msg_in_avail (fst s''))) s'"
  using assms
  by (cases l; cases s') (auto simp: wp_simps responded_def rsp_mask_def net_mask_def intro!: safe_send_ptr)

lemma ack_responder_responds: "safe (ack_responder pf) (\<lambda>_ s'. responded s s' \<and> \<not> msg_in_avail (fst s')) s"
proof -
  obtain t n where s: "s = (t, n)" by fastforce
  have "safe (goto 4 (ack_responder_block pf) l) (\<lambda>_ s'. responded s s' \<and> \<not> msg_in_avail (fst s')) s" for l
    by (rule wp_goto_ranked [where R = "\<lambda>_. responded s", OF _ rsp_jump])
      (auto intro!: wp_mono [OF ack_responder_block_responds] simp: responded_def machine_ranks split: option.split)
  then show ?thesis unfolding ack_responder_def s by (simp add: wp_simps)
qed

section \<open>The machines return\<close>

lemma throws_member [throws_intros]:
  "throws T (self f)" "throws T (assign g)" "throws T m \<Longrightarrow> throws T (on_net m)"
  "throws T k \<Longrightarrow> throws T (on_src p k)" "throws T l \<Longrightarrow> throws T (on_dst p l)"
  by (auto simp: throws_def self_def assign_def on_net_def on_src_def on_dst_def split: prod.splits) blast+

lemma throws_messages [throws_intros]:
  "throws fatal (msg p)" "throws fatal (msg_upd p f)" "throws fatal (msg_new m)" "throws fatal (deref q)"
  by (auto simp: throws_def msg_def msg_upd_def msg_new_def deref_def fatal_def sac_caught_def split: option.splits)

lemma throws_access [throws_intros]: "throws fatal the_in" "throws fatal the_out" "throws fatal (send_ptr pf p)"
  unfolding the_in_def the_out_def send_ptr_def by (intro throws_intros)+

lemma ack_throws [throws_intros]: "throws fatal (ack_responder pf)" "throws fatal (ack_requestor pf)"
proof -
  have "throws fatal (ack_responder_block pf l)" for l
    by (cases l; simp) (intro throws_intros)+
  then have "throws fatal (goto 4 (ack_responder_block pf) l)" for l
    by (rule throws_goto [where rank = "\<lambda>l _. rsp_rank l"]) (auto dest: rsp_jump simp: machine_ranks)
  then show "throws fatal (ack_responder pf)" unfolding ack_responder_def by (intro throws_intros)
  have "throws fatal (ack_requestor_block pf l)" for l
    by (cases l; simp) (intro throws_intros)+
  then have "throws fatal (goto 5 (ack_requestor_block pf) l)" for l
    by (rule throws_goto [where rank = "\<lambda>l s. req_rank l (fst s)"]) (auto dest: req_jump simp: machine_ranks)
  then show "throws fatal (ack_requestor pf)" unfolding ack_requestor_def by (intro throws_intros)
qed

lemma parts_throw:
  "throws fatal (src_init pf)" "throws fatal src_wait_ack" "throws fatal src_wait_response_msg"
  "throws fatal src_failure" "throws fatal src_success" "throws fatal (src_process_begin pf)" "throws fatal src_process_end"
  "throws fatal dst_init_begin" "throws fatal (dst_init_end pf b)" "throws fatal dst_wait_response_prm"
  "throws fatal (dst_send_response_begin pf)" "throws fatal dst_send_response" "throws fatal dst_failure"
  "throws fatal dst_success"
  unfolding src_init_def src_wait_ack_def src_wait_response_msg_def src_failure_def src_success_def src_process_begin_def
    src_process_end_def dst_init_begin_def dst_init_end_def dst_wait_response_prm_def dst_send_response_begin_def
    dst_send_response_def dst_failure_def dst_success_def
  by (intro throws_intros; simp add: fatal_def sac_caught_def)+

lemma throws_fst: "throws (\<lambda>e. e \<notin> {out_of_fuel, deadlock}) m \<Longrightarrow> fst (m s) \<notin> {Inl out_of_fuel, Inl deadlock}"
  by (cases "m s") (auto dest: throwsD)

text \<open>A machine throws what sending can throw and what the handler throws.\<close>

lemma machines_throw:
  assumes "\<And>i out. throws T (h i out)" "\<And>e. fatal e \<Longrightarrow> T e"
  shows "throws T (src_run pf h p)" "throws T (dst_run pf h p)"
proof -
  note parts = parts_throw [THEN throws_mono [OF _ assms(2)]]
  have "throws T (src_block pf h p l)" for l
    by (cases l) (auto intro!: throws_intros parts assms(1))
  then have "throws T (goto 5 (src_block pf h p) l)" for l
    by (rule throws_goto [where rank = "\<lambda>l w. src_rank l (src_obj w p)"]) (auto dest: src_jump simp: machine_ranks)
  then show "throws T (src_run pf h p)" unfolding src_run_def by (intro throws_intros)
  have "throws T (dst_block pf h p l)" for l
    by (cases l) (auto intro!: throws_intros parts assms(1))
  then have "throws T (goto 5 (dst_block pf h p) l)" for l
    by (rule throws_goto [where rank = "\<lambda>l _. dst_rank l"]) (auto dest: dst_jump simp: machine_ranks)
  then show "throws T (dst_run pf h p)" unfolding dst_run_def by (intro throws_intros)
qed

section \<open>Transactions in the pools\<close>

text \<open>
  A source transaction in the pool: it has been started, its time to live is between 1 and 15
  ticks, and its acknowledgement requestor is in the state its status tells. Without a requestor
  the retransmission counter counts down from zero together with the time to live, so it does
  not come back to zero.
\<close>

definition ack_linked :: "'t transaction_scheme \<Rightarrow> bool" where
  "ack_linked t \<longleftrightarrow> ack_req_state t = (case ack_requestor_status t of
     ONGOING \<Rightarrow> ACK_REQ_WAIT_ACK | SUCCESS \<Rightarrow> ACK_REQ_SUCCESS | FAILURE \<Rightarrow> ACK_REQ_FAILURE)"

definition live :: "'t transaction_scheme \<Rightarrow> bool" where
  "live t \<longleftrightarrow> 0 < transaction_stop_when t \<and> transaction_stop_when t \<le> 15"

definition src_sound :: "src_transaction \<Rightarrow> bool" where
  "src_sound t \<longleftrightarrow> src_state t \<noteq> SRC_INIT \<and> live t \<and> t_out t \<noteq> None \<and> (msg_in_avail t \<longrightarrow> t_in t \<noteq> None)
     \<and> (if start_ack_requestor t
        then ack_linked t \<and> (ack_requestor_status t = ONGOING \<longrightarrow> retransmission_when t \<noteq> 0) \<and> \<not> t_multicast t
        else ack_requestor_status t = ONGOING \<and> retransmission_when t = transaction_stop_when t - 15
          \<and> src_state t \<noteq> SRC_WAIT_ACK)
     \<and> (transaction_status t \<noteq> ONGOING \<longrightarrow> src_state t = SRC_SUCCESS \<or> src_state t = SRC_FAILURE)
     \<and> (t_multicast t \<longrightarrow> src_state t \<noteq> SRC_SUCCESS \<and> src_state t \<noteq> SRC_FAILURE)"

text \<open>
  A message that has arrived and has not been processed is not kept waiting while the requestor
  still waits for its acknowledgement.
\<close>

definition src_calm :: "src_transaction \<Rightarrow> bool" where
  "src_calm t \<longleftrightarrow> (src_state t = SRC_WAIT_RESPONSE_MSG \<and> msg_in_avail t \<and> start_ack_requestor t
     \<longrightarrow> ack_requestor_status t \<noteq> ONGOING)"

definition dst_sound :: "dst_transaction \<Rightarrow> bool" where
  "dst_sound t \<longleftrightarrow> dst_state t \<noteq> DST_INIT \<and> live t \<and> t_out t \<noteq> None \<and> t_in t \<noteq> None"

definition dst_pending :: "dst_transaction \<Rightarrow> bool" where
  "dst_pending t \<longleftrightarrow> live t \<and> t_out t \<noteq> None \<and> t_in t \<noteq> None"

text \<open>
  The invariant. \<open>D\<close> are destination transactions whose first message is being handled, which are
  not in the pool yet; \<open>X\<close> are source transactions that are being changed; the transaction \<open>p0\<close>
  has at most \<open>fst k\<close> ticks to live as a source and \<open>snd k\<close> as a destination transaction.
\<close>

definition src_member :: "tptr \<Rightarrow> nat \<Rightarrow> tptr \<Rightarrow> src_transaction \<Rightarrow> bool" where
  "src_member p0 k p t \<longleftrightarrow> src_sound t \<and> src_calm t \<and> (p = p0 \<longrightarrow> unat (transaction_stop_when t) \<le> k)"

definition dst_member :: "tptr \<Rightarrow> nat \<Rightarrow> tptr \<Rightarrow> dst_transaction \<Rightarrow> bool" where
  "dst_member p0 k p t \<longleftrightarrow> dst_sound t \<and> (p = p0 \<longrightarrow> unat (transaction_stop_when t) \<le> k)"

text \<open>
  The mutex of the source pool is free, or the timer holds it: then the pool and the transactions
  in it are as they were when the timer handed over.
\<close>

type_synonym src_hold = "(tptr list \<times> (tptr \<Rightarrow> src_transaction)) option"

definition src_held :: "src_hold \<Rightarrow> 'w pools_scheme \<Rightarrow> bool" where
  "src_held L w \<longleftrightarrow> (case L of None \<Rightarrow> \<not> src_lock w
     | Some (ps, obj) \<Rightarrow> src_lock w \<and> src_pool w = ps \<and> (\<forall>q \<in> set ps. src_obj w q = obj q))"

definition pool_in :: "src_hold \<Rightarrow> tptr set \<Rightarrow> tptr set \<Rightarrow> tptr \<Rightarrow> nat \<times> nat \<Rightarrow> 'w pools_scheme \<Rightarrow> bool" where
  "pool_in L D X p0 k w \<longleftrightarrow> src_held L w \<and> \<not> dst_lock w \<and> p0 < t_next w
     \<and> distinct (src_pool w) \<and> distinct (dst_pool w)
     \<and> (\<forall>p \<in> set (src_pool w). p < t_next w \<and> (p \<notin> X \<longrightarrow> src_member p0 (fst k) p (src_obj w p)))
     \<and> (\<forall>p \<in> set (dst_pool w). p < t_next w \<and> p \<notin> D \<and> dst_member p0 (snd k) p (dst_obj w p))
     \<and> (\<forall>p \<in> D. p < t_next w \<and> dst_pending (dst_obj w p))"

abbreviation pool_ok :: "tptr set \<Rightarrow> tptr set \<Rightarrow> tptr \<Rightarrow> nat \<times> nat \<Rightarrow> 'w pools_scheme \<Rightarrow> bool" where
  "pool_ok \<equiv> pool_in None"

lemma src_held_None [simp]: "src_held None w \<longleftrightarrow> \<not> src_lock w"
  by (simp add: src_held_def)

lemma src_held_Some [simp]:
  "src_held (Some (ps, obj)) w \<longleftrightarrow> src_lock w \<and> src_pool w = ps \<and> (\<forall>q \<in> set ps. src_obj w q = obj q)"
  by (simp add: src_held_def)

lemma src_held_cong:
  "src_lock w' = src_lock w \<Longrightarrow> src_pool w' = src_pool w \<Longrightarrow> src_obj w' = src_obj w \<Longrightarrow> src_held L w' = src_held L w"
  by (cases L) auto

lemma src_held_upd [simp]:
  "src_held L (w\<lparr>n_heap := a\<rparr>) = src_held L w" "src_held L (w\<lparr>n_next := b\<rparr>) = src_held L w"
  "src_held L (w\<lparr>n_sent := c\<rparr>) = src_held L w" "src_held L (w\<lparr>n_abook := d\<rparr>) = src_held L w"
  "src_held L (w\<lparr>o_tid := e\<rparr>) = src_held L w" "src_held L (w\<lparr>w_lpool := f\<rparr>) = src_held L w"
  "src_held L (w\<lparr>dst_obj := g\<rparr>) = src_held L w" "src_held L (w\<lparr>dst_pool := h\<rparr>) = src_held L w"
  "src_held L (w\<lparr>dst_lock := i\<rparr>) = src_held L w" "src_held L (w\<lparr>t_next := j\<rparr>) = src_held L w"
  by (rule src_held_cong; simp)+

lemma pool_in_upd [simp]:
  "pool_in L D X p0 k (w\<lparr>n_heap := a\<rparr>) = pool_in L D X p0 k w"
  "pool_in L D X p0 k (w\<lparr>n_next := b\<rparr>) = pool_in L D X p0 k w"
  "pool_in L D X p0 k (w\<lparr>n_sent := c\<rparr>) = pool_in L D X p0 k w"
  "pool_in L D X p0 k (w\<lparr>n_abook := d\<rparr>) = pool_in L D X p0 k w"
  "pool_in L D X p0 k (w\<lparr>o_tid := e\<rparr>) = pool_in L D X p0 k w"
  "pool_in L D X p0 k (w\<lparr>w_lpool := f\<rparr>) = pool_in L D X p0 k w"
  by (simp_all add: pool_in_def)

lemma pool_in_net_mask: "pool_in L D X p0 k (net_mask w) = pool_in L D X p0 k w"
  by (simp add: net_mask_def)

lemma net_mask_pool_in: "net_mask w' = net_mask w \<Longrightarrow> pool_in L D X p0 k w \<Longrightarrow> pool_in L D X p0 k w'"
  by (metis pool_in_net_mask)

lemma ack_requestor_waits:
  assumes "ack_linked t" "ack_requestor_status t = ONGOING \<longrightarrow> retransmission_when t \<noteq> 0" "msg_in_avail t \<longrightarrow> t_in t = Some i"
  shows "ack_requestor pf (t, n) = (Inr (),
    (if ack_requestor_status t = ONGOING \<and> msg_in_avail t \<and> m_ackrsp (n_heap n i)
     then t\<lparr>ack_req_state := ACK_REQ_SUCCESS, ack_requestor_status := SUCCESS\<rparr> else t), n)"
  using assms
  by (cases "ack_requestor_status t") (auto simp: ack_requestor_def ack_linked_def goto_numeral the_in_def on_net_run)

end
