(* ===== verification/Mihf_Lifetime.thy ===== *)
theory Mihf_Lifetime
  imports Mihf_Pool_Inv
begin

text \<open>
  The transaction layer keeps the invariant of its pools, whatever messages arrive or are sent,
  provided the message handler keeps it. The handler is a parameter of a locale here and is
  supplied with the handlers of the services later.
\<close>

section \<open>Source transactions\<close>

lemma pool_ok_src: "pool_ok D {} p0 k w \<longleftrightarrow>
    pool_ok D {p} p0 k w \<and> (p \<in> set (src_pool w) \<longrightarrow> src_member p0 (fst k) p (src_obj w p))"
  unfolding pool_in_def by auto

lemma pool_ok_src_upd [simp]: "pool_ok D {p} p0 k (w\<lparr>src_obj := (src_obj w)(p := t)\<rparr>) = pool_ok D {p} p0 k w"
  unfolding pool_in_def by auto

lemma pool_ok_sound: "pool_ok D {} p0 k w \<Longrightarrow> p \<in> set (src_pool w) \<Longrightarrow> src_member p0 (fst k) p (src_obj w p)"
  unfolding pool_in_def by auto

text \<open>What holds of a source transaction when its state machine is at a label.\<close>

definition src_entry :: "tptr \<Rightarrow> nat \<times> nat \<Rightarrow> tptr \<Rightarrow> src_transaction_state_t \<Rightarrow> src_transaction \<Rightarrow> bool" where
  "src_entry p0 k p l t \<longleftrightarrow> src_sound (t\<lparr>src_state := l\<rparr>) \<and> (p = p0 \<longrightarrow> unat (transaction_stop_when t) \<le> fst k)"

definition src_at :: "tptr set \<Rightarrow> tptr \<Rightarrow> nat \<times> nat \<Rightarrow> tptr \<Rightarrow> src_transaction_state_t \<Rightarrow> 'w pools_scheme \<Rightarrow> bool" where
  "src_at D p0 k p l w \<longleftrightarrow> pool_ok D {p} p0 k w \<and> l \<noteq> SRC_INIT
     \<and> (p \<in> set (src_pool w) \<longrightarrow> src_entry p0 k p l (src_obj w p))"

lemma rsp_mask_src:
  assumes "rsp_mask t' = rsp_mask (t :: src_transaction)"
  shows "src_state t' = src_state t" "transaction_stop_when t' = transaction_stop_when t"
    "retransmission_when t' = retransmission_when t" "t_out t' = t_out t" "t_in t' = t_in t"
    "start_ack_requestor t' = start_ack_requestor t" "ack_requestor_status t' = ack_requestor_status t"
    "ack_req_state t' = ack_req_state t" "transaction_status t' = transaction_status t" "t_multicast t' = t_multicast t"
  using assms [THEN arg_cong [where f = src_state]] assms [THEN arg_cong [where f = transaction_stop_when]]
    assms [THEN arg_cong [where f = retransmission_when]] assms [THEN arg_cong [where f = t_out]]
    assms [THEN arg_cong [where f = t_in]] assms [THEN arg_cong [where f = start_ack_requestor]]
    assms [THEN arg_cong [where f = ack_requestor_status]] assms [THEN arg_cong [where f = ack_req_state]]
    assms [THEN arg_cong [where f = transaction_status]] assms [THEN arg_cong [where f = t_multicast]]
  by (simp_all add: rsp_mask_def)

lemma rsp_mask_sound:
  assumes "rsp_mask t' = rsp_mask t" "\<not> msg_in_avail t'" "src_sound t"
  shows "src_sound t' \<and> src_calm t'"
  using assms(2,3) unfolding src_sound_def src_calm_def live_def ack_linked_def rsp_mask_src [OF assms(1)] by auto

lemma net_mask_pools:
  assumes "net_mask w' = net_mask (w :: 'w pools_scheme)"
  shows "src_pool w' = src_pool w" "dst_pool w' = dst_pool w" "src_obj w' = src_obj w" "dst_obj w' = dst_obj w" "t_next w' = t_next w"
  using assms [THEN arg_cong [where f = src_pool]] assms [THEN arg_cong [where f = dst_pool]]
    assms [THEN arg_cong [where f = src_obj]] assms [THEN arg_cong [where f = dst_obj]] assms [THEN arg_cong [where f = t_next]]
  by (simp_all add: net_mask_def)

lemmas src_defs = src_at_def src_entry_def src_member_def src_sound_def src_calm_def live_def ack_linked_def

lemma src_wait_ack_at:
  assumes "src_at D p0 k p SRC_WAIT_ACK w"
  shows "safe (on_src p src_wait_ack) (\<lambda>r w'. case r of None \<Rightarrow> pool_ok D {} p0 k w' | Some l \<Rightarrow> src_at D p0 k p l w') w"
  using assms unfolding src_wait_ack_def pool_ok_src [where p = p]
  by (auto simp: wp_simps src_defs split: status_t.splits)

lemma src_wait_response_at:
  assumes "src_at D p0 k p SRC_WAIT_RESPONSE_MSG w"
  shows "safe (on_src p src_wait_response_msg) (\<lambda>r w'. case r of None \<Rightarrow> pool_ok D {} p0 k w' | Some l \<Rightarrow> src_at D p0 k p l w') w"
  using assms unfolding src_wait_response_msg_def pool_ok_src [where p = p]
  by (auto simp: wp_simps src_defs)

lemma src_end_at:
  assumes "src_at D p0 k p l w" "l = SRC_SUCCESS \<or> l = SRC_FAILURE"
  shows "safe (on_src p (if l = SRC_SUCCESS then src_success else src_failure)) (\<lambda>r w'. r = None \<and> pool_ok D {} p0 k w') w"
  using assms unfolding src_success_def src_failure_def pool_ok_src [where p = p]
  by (auto simp: wp_simps src_defs)


lemma src_process_begin_at:
  assumes "src_at D p0 k p SRC_PROCESS_MSG w"
  shows "safe (on_src p (src_process_begin pf)) (\<lambda>_. pool_ok D {} p0 k) w"
proof -
  let ?t = "(src_obj w p)\<lparr>src_state := SRC_PROCESS_MSG\<rparr>"
  have ok: "pool_ok D {p} p0 k w" and t: "p \<in> set (src_pool w) \<longrightarrow> src_entry p0 k p SRC_PROCESS_MSG ?t"
    using assms by (auto simp: src_at_def src_entry_def)
  have last: "pool_ok D {} p0 k (w'\<lparr>src_obj := (src_obj w')(p := t')\<rparr>)"
    if m: "rsp_mask t' = rsp_mask t1" "\<not> msg_in_avail t' \<or> t' = t1" "net_mask w' = net_mask w"
      and t1: "t1 = ?t\<lparr>start_ack_responder := b, msg_out_avail := False\<rparr>" for t' w' t1 b
  proof -
    have "pool_ok D {p} p0 k w'" using net_mask_pool_in [OF m(3) ok] .
    moreover have "src_member p0 (fst k) p t'" if p: "p \<in> set (src_pool w)"
    proof -
      have "src_sound t1" "p = p0 \<longrightarrow> unat (transaction_stop_when t1) \<le> fst k" "src_calm t1"
        using t p t1 by (auto simp: src_defs)
      then show ?thesis
        using rsp_mask_sound [OF m(1)] m(2) rsp_mask_src [OF m(1)] by (auto simp: src_member_def)
    qed
    ultimately show ?thesis using net_mask_pools(1) [OF m(3)] by (subst pool_ok_src [where p = p]) simp
  qed
  show ?thesis
    unfolding src_process_begin_def
    by (auto simp: wp_simps responded_def intro!: wp_mono [OF ack_responder_responds] last [OF _ _ _ refl])
qed

lemma src_process_end_at:
  assumes "pool_ok D {} p0 k w"
  shows "safe (on_src p src_process_end) (\<lambda>r w'. case r of None \<Rightarrow> pool_ok D {} p0 k w' | Some l \<Rightarrow> src_at D p0 k p l w') w"
  using assms pool_ok_src [of D p0 k w p] unfolding src_process_end_def
  by (auto simp: wp_simps src_defs)

section \<open>Destination transactions\<close>

definition req_mask :: "'t transaction_scheme \<Rightarrow> 't transaction_scheme" where
  "req_mask t = t\<lparr>ack_requestor_status := ONGOING, ack_req_state := ACK_REQ_INIT, retransmission_when := 0, rtxctr := 0\<rparr>"

definition requested :: "'t transaction_scheme \<times> 'n net_scheme \<Rightarrow> 't transaction_scheme \<times> 'n net_scheme \<Rightarrow> bool" where
  "requested s s' \<longleftrightarrow> req_mask (fst s') = req_mask (fst s) \<and> net_mask (snd s') = net_mask (snd s)"

lemma ack_requestor_requests: "safe (ack_requestor pf) (\<lambda>_. requested s) s"
proof -
  have block: "safe (ack_requestor_block pf l) (\<lambda>r. requested s) s'" if "requested s s'" for l s'
    using that
    by (cases l; cases s') (auto simp: wp_simps requested_def req_mask_def net_mask_def intro!: safe_send_ptr)
  have "safe (goto 5 (ack_requestor_block pf) l) (\<lambda>_. requested s) s" for l
    by (rule wp_goto_ranked [where R = "\<lambda>_. requested s", OF _ req_jump])
      (auto intro!: wp_mono [OF block] simp: requested_def machine_ranks split: option.split)
  then show ?thesis unfolding ack_requestor_def by (cases s) (simp add: wp_simps)
qed

text \<open>What the state machine of a destination transaction never changes, and its state.\<close>

definition dst_core :: "dst_transaction \<Rightarrow> u32 \<times> mptr option \<times> mptr option \<times> mihf_id \<times> u16" where
  "dst_core t = (transaction_stop_when t, t_in t, t_out t, peer_mihf_id t, t_tid t)"

definition dst_same :: "dst_transaction \<Rightarrow> dst_transaction \<Rightarrow> bool" where
  "dst_same t t' \<longleftrightarrow> dst_core t' = dst_core t \<and> (transaction_status t \<noteq> ONGOING \<longrightarrow> transaction_status t' \<noteq> ONGOING)"

lemma dst_core_masks:
  "req_mask t' = req_mask t \<Longrightarrow> dst_same t t' \<and> dst_state t' = dst_state t"
  "rsp_mask t' = rsp_mask t \<Longrightarrow> dst_same t t' \<and> dst_state t' = dst_state t"
proof -
  let ?f = "\<lambda>t. (dst_core t, transaction_status t, dst_state t)"
  have "?f t = ?f (req_mask t)" for t by (simp add: dst_core_def req_mask_def)
  then show "req_mask t' = req_mask t \<Longrightarrow> dst_same t t' \<and> dst_state t' = dst_state t" by (metis Pair_inject dst_same_def)
  have "?f t = ?f (rsp_mask t)" for t by (simp add: dst_core_def rsp_mask_def)
  then show "rsp_mask t' = rsp_mask t \<Longrightarrow> dst_same t t' \<and> dst_state t' = dst_state t" by (metis Pair_inject dst_same_def)
qed

definition dst_moves :: "dst_transaction \<times> 'n net_scheme \<Rightarrow> dst_label option \<Rightarrow> dst_transaction \<times> 'n net_scheme \<Rightarrow> bool" where
  "dst_moves s r s' \<longleftrightarrow> dst_same (fst s) (fst s') \<and> net_mask (snd s') = net_mask (snd s) \<and> r \<noteq> Some Dst_init
     \<and> (r = None \<or> r = Some Dst_send_response \<longrightarrow> dst_state (fst s') \<noteq> DST_INIT)"

lemma dst_simple_move:
  "safe dst_wait_response_prm (dst_moves s) s"
  "dst_state (fst s) \<noteq> DST_INIT \<Longrightarrow> safe dst_send_response (dst_moves s) s"
  "safe dst_failure (dst_moves s) s" "safe dst_success (dst_moves s) s"
  by (cases s; auto simp: dst_wait_response_prm_def dst_send_response_def dst_failure_def dst_success_def wp_simps
      dst_moves_def dst_same_def dst_core_def)+

lemma dst_send_move: "safe (dst_send_response_begin pf) (dst_moves s) s"
  unfolding dst_send_response_begin_def
  by (cases s) (auto simp: wp_simps dst_moves_def requested_def net_mask_def dst_same_def dst_core_def
      intro!: wp_mono [OF ack_requestor_requests] safe_send_ptr dest!: dst_core_masks(1))

lemma dst_init_end_move: "safe (dst_init_end pf rsp) (dst_moves s) s"
  unfolding dst_init_end_def
  by (cases s) (auto simp: wp_simps dst_moves_def responded_def dst_same_def dst_core_def
      intro!: wp_mono [OF ack_responder_responds] dest!: dst_core_masks(2))


definition dst_mask :: "tptr \<Rightarrow> 'w pools_scheme \<Rightarrow> 'w pools_scheme" where
  "dst_mask p w = net_mask (w\<lparr>dst_obj := (dst_obj w)(p := dst_transaction_new 0)\<rparr>)"

definition src_mask :: "tptr \<Rightarrow> 'w pools_scheme \<Rightarrow> 'w pools_scheme" where
  "src_mask p w = net_mask (w\<lparr>src_obj := (src_obj w)(p := src_transaction_new 0)\<rparr>)"

lemma dst_mask_on:
  "net_mask w' = net_mask w \<Longrightarrow> dst_mask p (w'\<lparr>dst_obj := (dst_obj w')(p := t)\<rparr>) = dst_mask p w"
  unfolding dst_mask_def net_mask_def by (cases w; cases w') simp

lemma src_mask_on:
  "net_mask w' = net_mask w \<Longrightarrow> src_mask p (w'\<lparr>src_obj := (src_obj w')(p := t)\<rparr>) = src_mask p w"
  unfolding src_mask_def net_mask_def by (cases w; cases w') simp

definition dst_moved :: "tptr \<Rightarrow> 'w pools_scheme \<Rightarrow> 'w pools_scheme \<Rightarrow> bool" where
  "dst_moved p w w' \<longleftrightarrow> dst_mask p w' = dst_mask p w \<and> dst_same (dst_obj w p) (dst_obj w' p)"

definition dst_arrives :: "tptr \<Rightarrow> 'w pools_scheme \<Rightarrow> dst_label option \<Rightarrow> 'w pools_scheme \<Rightarrow> bool" where
  "dst_arrives p w r w' \<longleftrightarrow> dst_moved p w w' \<and> r \<noteq> Some Dst_init
     \<and> (r = None \<or> r = Some Dst_send_response \<longrightarrow> dst_state (dst_obj w' p) \<noteq> DST_INIT)"

lemma dst_block_moves:
  assumes "dst_arrives p w (Some l) w'"
  shows "safe (dst_block pf h p l) (dst_arrives p w) w'"
proof -
  have on: "safe (on_dst p m) (dst_arrives p w) w'"
    if "safe m (dst_moves (dst_obj w' p, w')) (dst_obj w' p, w')" for m
    unfolding wp_on_dst
    by (rule wp_mono [OF that]) (use assms in \<open>auto simp: dst_moves_def dst_moved_def dst_arrives_def dst_mask_on dst_same_def\<close>)
  show ?thesis
    using assms [unfolded dst_arrives_def] by (cases l) (simp_all add: on dst_simple_move dst_send_move)
qed

lemma dst_goto_moves:
  assumes "l \<noteq> Dst_init" "l = Dst_send_response \<longrightarrow> dst_state (dst_obj w p) \<noteq> DST_INIT" "3 < n"
  shows "safe (goto n (dst_block pf h p) l) (\<lambda>_. dst_arrives p w None) w"
proof (rule wp_goto_ranked [where R = "\<lambda>l. dst_arrives p w (Some l)", OF _ dst_jump])
  show "dst_rank l < n" using assms(1,3) by (cases l) simp_all
qed (use assms in \<open>auto simp: dst_arrives_def dst_moved_def dst_same_def split: option.split
    intro: wp_mono [OF dst_block_moves]\<close>)

lemma dst_run_moves:
  assumes "dst_state (dst_obj w p) \<noteq> DST_INIT"
  shows "safe (dst_run pf h p) (\<lambda>_. dst_arrives p w None) w"
  using assms unfolding dst_run_def wp_bnd wp_basic
  by (intro dst_goto_moves) (cases "dst_state (dst_obj w p)"; simp)+

lemma dst_mask_pools:
  assumes "dst_mask p w' = dst_mask p w"
  shows "src_pool w' = src_pool w" "dst_pool w' = dst_pool w" "src_obj w' = src_obj w" "t_next w' = t_next w"
    "src_lock w' = src_lock w" "dst_lock w' = dst_lock w" "q \<noteq> p \<Longrightarrow> dst_obj w' q = dst_obj w q"
  using assms [THEN arg_cong [where f = src_pool]] assms [THEN arg_cong [where f = dst_pool]]
    assms [THEN arg_cong [where f = src_obj]] assms [THEN arg_cong [where f = t_next]]
    assms [THEN arg_cong [where f = src_lock]] assms [THEN arg_cong [where f = dst_lock]]
    assms [THEN arg_cong [where f = "\<lambda>w. dst_obj w q"]]
  by (simp_all add: dst_mask_def net_mask_def)

lemma dst_moved_pool_ok:
  assumes "dst_moved p w w'" "p \<in> set (dst_pool w) \<longrightarrow> dst_state (dst_obj w' p) \<noteq> DST_INIT" "pool_in L D X p0 k w"
  shows "pool_in L D X p0 k w'"
proof -
  have "dst_member p0 (snd k) q (dst_obj w' q)" if "q \<in> set (dst_pool w)" for q
    using that assms dst_mask_pools(7) [of p w' w q]
    by (cases "q = p") (auto simp: pool_in_def dst_moved_def dst_member_def dst_sound_def dst_same_def dst_core_def live_def)
  moreover have "dst_pending (dst_obj w' q)" if "q \<in> D" for q
    using that assms dst_mask_pools(7) [of p w' w q]
    by (cases "q = p") (auto simp: pool_in_def dst_moved_def dst_pending_def dst_same_def dst_core_def live_def)
  ultimately show ?thesis
    using assms dst_mask_pools [of p w' w] src_held_cong [of w' w L] unfolding pool_in_def dst_moved_def by simp
qed

section \<open>The operations of the pool\<close>

lemma unlock_src [simp]: "\<not> src_lock w \<Longrightarrow> w\<lparr>src_lock := False\<rparr> = w"
  by (cases w) simp

lemma unlock_dst [simp]: "\<not> dst_lock w \<Longrightarrow> w\<lparr>dst_lock := False\<rparr> = w"
  by (cases w) simp

lemma tpool_src_run:
  assumes "\<not> src_lock w"
  shows "tpool_add_src p w = (Inr (), w\<lparr>src_pool := set_insert (src_obj w) p (src_pool w)\<rparr>)"
    "tpool_del_src p w = (Inr (), w\<lparr>src_pool := set_erase (src_obj w) p (src_pool w)\<rparr>)"
    "tpool_find_src i tid w =
       (Inr (List.find (\<lambda>p. peer_mihf_id (src_obj w p) = i \<and> t_tid (src_obj w p) = tid) (src_pool w)), w)"
  using assms by (cases w; simp add: tpool_add_src_def tpool_del_src_def tpool_find_src_def with_src_lock_def)+

lemma tpool_dst_run:
  assumes "\<not> dst_lock w"
  shows "tpool_add_dst p w = (Inr (), w\<lparr>dst_pool := set_insert (dst_obj w) p (dst_pool w)\<rparr>)"
    "tpool_del_dst p w = (Inr (), w\<lparr>dst_pool := set_erase (dst_obj w) p (dst_pool w)\<rparr>)"
    "tpool_find_dst i tid w =
       (Inr (List.find (\<lambda>p. peer_mihf_id (dst_obj w p) = i \<and> t_tid (dst_obj w p) = tid) (dst_pool w)), w)"
  using assms by (cases w; simp add: tpool_add_dst_def tpool_del_dst_def tpool_find_dst_def with_dst_lock_def)+

lemma equivalent_same: "equivalent obj p q \<longleftrightarrow> peer_mihf_id (obj p) = peer_mihf_id (obj q) \<and> t_tid (obj p) = t_tid (obj q)"
  by (auto simp: equivalent_def transaction_compare_def)

lemma pool_unlocked: "pool_ok D X p0 k w \<Longrightarrow> \<not> src_lock w \<and> \<not> dst_lock w"
  by (simp add: pool_in_def)

lemma dst_unlocked: "pool_in L D X p0 k w \<Longrightarrow> \<not> dst_lock w"
  by (simp add: pool_in_def)

lemma keeps_del:
  "obeys N T (pool_ok D {} p0 k) (tpool_del_src p)" "obeys N T (pool_in L D X p0 k) (tpool_del_dst p)"
  by (auto simp: obeys_def wp_def tpool_src_run tpool_dst_run pool_unlocked dst_unlocked)
    (auto simp: pool_in_def set_erase_def)

lemma add_src_ok:
  assumes "pool_ok D {} p0 k w" "p < t_next w" "p \<notin> set (src_pool w)" "src_member p0 (fst k) p (src_obj w p)"
  shows "safe (tpool_add_src p) (\<lambda>_. pool_ok D {} p0 k) w"
  using assms by (auto simp: wp_def tpool_src_run pool_unlocked [OF assms(1)]) (auto simp: pool_in_def set_insert_def)

lemma add_dst_ok:
  assumes "pool_ok (insert p D) {} p0 k w" "p \<notin> D" "dst_member p0 (snd k) p (dst_obj w p)"
  shows "safe (tpool_add_dst p) (\<lambda>_. pool_ok D {} p0 k) w"
  using assms by (auto simp: wp_def tpool_dst_run pool_unlocked [OF assms(1)]) (auto simp: pool_in_def set_insert_def)

lemma wp_find_src:
  assumes "pool_ok D X p0 k w"
  shows "wp (tpool_find_src i tid) Q E w \<longleftrightarrow>
      Q (List.find (\<lambda>p. peer_mihf_id (src_obj w p) = i \<and> t_tid (src_obj w p) = tid) (src_pool w)) w"
  using assms by (simp add: wp_def tpool_src_run pool_unlocked)

lemma wp_find_dst:
  assumes "pool_in L D X p0 k w"
  shows "wp (tpool_find_dst i tid) Q E w \<longleftrightarrow>
      Q (List.find (\<lambda>p. peer_mihf_id (dst_obj w p) = i \<and> t_tid (dst_obj w p) = tid) (dst_pool w)) w"
  using assms by (simp add: wp_def tpool_dst_run dst_unlocked)

lemma find_in: "List.find P xs = Some x \<Longrightarrow> x \<in> set xs"
  by (metis find_Some_iff nth_mem)

section \<open>Acknowledgements for a source transaction in the pool\<close>

text \<open>\<open>busy p\<close>: the source transaction \<open>p\<close> of the pool is being changed.\<close>

definition busy :: "tptr set \<Rightarrow> tptr \<Rightarrow> nat \<times> nat \<Rightarrow> tptr \<Rightarrow> 'w pools_scheme \<Rightarrow> bool" where
  "busy D p0 k p w \<longleftrightarrow> pool_ok D {p} p0 k w \<and> p \<in> set (src_pool w) \<and> src_sound (src_obj w p)
     \<and> (p = p0 \<longrightarrow> unat (transaction_stop_when (src_obj w p)) \<le> fst k)"

definition unacked :: "tptr \<Rightarrow> 'w pools_scheme \<Rightarrow> bool" where
  "unacked p w \<longleftrightarrow> (start_ack_requestor (src_obj w p) \<and> ack_requestor_status (src_obj w p) = ONGOING
     \<and> msg_in_avail (src_obj w p) \<longrightarrow> \<not> m_ackrsp (n_heap w (the (t_in (src_obj w p)))))"

lemma request_step:
  assumes "busy D p0 k p w"
  shows "safe (src_requests pf p)
    (\<lambda>_ w'. busy D p0 k p w' \<and> unacked p w' \<and> t_in (src_obj w' p) = t_in (src_obj w p)) w"
proof (cases "start_ack_requestor (src_obj w p)")
  case True
  let ?t = "src_obj w p"
  have sound: "src_sound ?t" using assms by (simp add: busy_def)
  with True have "ack_requestor pf (?t, w) = (Inr (),
    (if ack_requestor_status ?t = ONGOING \<and> msg_in_avail ?t \<and> m_ackrsp (n_heap w (the (t_in ?t)))
     then ?t\<lparr>ack_req_state := ACK_REQ_SUCCESS, ack_requestor_status := SUCCESS\<rparr> else ?t), w)"
    by (intro ack_requestor_waits) (auto simp: src_sound_def)
  with True assms sound show ?thesis
    by (auto simp: src_requests_def wp_simps) (auto simp: wp_def busy_def unacked_def src_sound_def ack_linked_def live_def)
qed (use assms in \<open>auto simp: src_requests_def wp_simps unacked_def\<close>)

lemma respond_step:
  assumes "busy D p0 k p w" "unacked p w"
  shows "safe (src_responds pf p)
    (\<lambda>_ w'. busy D p0 k p w' \<and> unacked p w' \<and> t_in (src_obj w' p) = t_in (src_obj w p)) w"
proof (cases "start_ack_responder (src_obj w p)")
  case True
  have "busy D p0 k p (w'\<lparr>src_obj := (src_obj w')(p := t')\<rparr>) \<and> unacked p (w'\<lparr>src_obj := (src_obj w')(p := t')\<rparr>)
      \<and> t_in t' = t_in (src_obj w p)"
    if "responded (src_obj w p, w) (t', w')" "\<not> msg_in_avail t'" for t' w'
  proof -
    have m: "rsp_mask t' = rsp_mask (src_obj w p)" "net_mask w' = net_mask w"
      using that(1) by (simp_all add: responded_def)
    show ?thesis
      using assms rsp_mask_sound [OF m(1) that(2)] rsp_mask_src [OF m(1)] net_mask_pools(1) [OF m(2)]
        net_mask_pool_in [OF m(2)] that(2)
      by (auto simp: busy_def unacked_def)
  qed
  then show ?thesis
    using True by (auto simp: src_responds_def wp_simps intro!: wp_mono [OF ack_responder_responds])
qed (use assms in \<open>auto simp: src_responds_def wp_simps\<close>)


lemma busyI:
  assumes "pool_ok D {} p0 k w" "p \<in> set (src_pool w)" "\<And>t. src_sound t \<Longrightarrow> src_sound (f t)"
    "\<And>t. transaction_stop_when (f t) = transaction_stop_when t"
  shows "busy D p0 k p (src_write p f w)"
  using assms pool_ok_src [of D p0 k w p] by (auto simp: busy_def src_write_def src_member_def)

lemma busy_done:
  assumes "busy D p0 k p w" "src_calm (src_obj w p)"
  shows "pool_ok D {} p0 k w"
  using assms pool_ok_src [of D p0 k w p] by (simp add: busy_def src_member_def)

lemma dst_change_ok:
  assumes "pool_in L D X p0 k w" "p \<in> set (dst_pool w)" "\<And>t. dst_sound t \<Longrightarrow> dst_sound (f t)"
    "\<And>t. transaction_stop_when (f t) = transaction_stop_when t"
  shows "pool_in L D X p0 k (dst_write p f w)"
  using assms unfolding pool_in_def dst_write_def dst_member_def by auto

lemma dst_ack_ok:
  assumes "pool_in L D X p0 k w"
  shows "safe (on_dst p (ack_requestor pf)) (\<lambda>_ w'. pool_in L D X p0 k w' \<and> dst_pool w' = dst_pool w) w"
    "safe (on_dst p (ack_responder pf)) (\<lambda>_ w'. pool_in L D X p0 k w' \<and> dst_pool w' = dst_pool w) w"
proof -
  have moved: "pool_in L D X p0 k (w'\<lparr>dst_obj := (dst_obj w')(p := t')\<rparr>) \<and> dst_pool w' = dst_pool w"
    if "dst_same (dst_obj w p) t' \<and> dst_state t' = dst_state (dst_obj w p)" "net_mask w' = net_mask w" for t' w'
  proof -
    have "dst_moved p w (w'\<lparr>dst_obj := (dst_obj w')(p := t')\<rparr>)"
      using that by (simp add: dst_moved_def dst_mask_on)
    moreover have "p \<in> set (dst_pool w) \<longrightarrow> dst_state t' \<noteq> DST_INIT"
      using that assms by (auto simp: pool_in_def dst_member_def dst_sound_def)
    ultimately show ?thesis
      using dst_moved_pool_ok [OF _ _ assms] net_mask_pools(2) [OF that(2)] by simp
  qed
  show "safe (on_dst p (ack_requestor pf)) (\<lambda>_ w'. pool_in L D X p0 k w' \<and> dst_pool w' = dst_pool w) w"
    unfolding wp_on_dst
    by (rule wp_mono [OF ack_requestor_requests]) (auto simp: requested_def intro!: moved dst_core_masks(1))
  show "safe (on_dst p (ack_responder pf)) (\<lambda>_ w'. pool_in L D X p0 k w' \<and> dst_pool w' = dst_pool w) w"
    unfolding wp_on_dst
    by (rule wp_mono [OF ack_responder_responds]) (auto simp: responded_def intro!: moved dst_core_masks(2))
qed

lemma dst_run_ok:
  assumes "pool_in L D X p0 k w" "p \<in> set (dst_pool w)"
  shows "safe (dst_run pf h p) (\<lambda>_ w'. pool_in L D X p0 k w' \<and> dst_pool w' = dst_pool w) w"
proof -
  have "dst_state (dst_obj w p) \<noteq> DST_INIT" using assms by (auto simp: pool_in_def dst_member_def dst_sound_def)
  from dst_run_moves [OF this] show ?thesis
  proof (rule wp_mono)
    fix x w' assume "dst_arrives p w None w'"
    then have moved: "dst_moved p w w'" "dst_state (dst_obj w' p) \<noteq> DST_INIT" by (simp_all add: dst_arrives_def)
    then have "dst_pool w' = dst_pool w" using dst_mask_pools(2) [of p w' w] by (simp add: dst_moved_def)
    with moved dst_moved_pool_ok [OF moved(1) _ assms(1)] show "pool_in L D X p0 k w' \<and> dst_pool w' = dst_pool w" by simp
  qed
qed

text \<open>
  \<open>leaves T P m s\<close>: this run of \<open>m\<close> ends with \<open>P\<close>, also when it throws an exception of \<open>T\<close>;
  \<open>completed\<close>: it does not reach a bound of the model either.
\<close>

abbreviation leaves :: "(exn \<Rightarrow> bool) \<Rightarrow> ('s \<Rightarrow> bool) \<Rightarrow> ('s, 'a) eff \<Rightarrow> 's \<Rightarrow> bool" where
  "leaves T P m s \<equiv> wp m (\<lambda>_. P) (\<lambda>e s'. T e \<longrightarrow> P s') s"

abbreviation completed :: "(exn \<Rightarrow> bool) \<Rightarrow> ('s \<Rightarrow> bool) \<Rightarrow> ('s, 'a) eff \<Rightarrow> 's \<Rightarrow> bool" where
  "completed T P m s \<equiv> wp m (\<lambda>_. P) (\<lambda>e s'. e \<noteq> out_of_fuel \<and> (T e \<longrightarrow> P s')) s"

lemma completed_leaves: "completed T P m s \<Longrightarrow> leaves T P m s"
  by (erule wp_mono) auto

lemma leaves_seq: "leaves T P m s \<Longrightarrow> obeys N T P n \<Longrightarrow> leaves T P (seq m n) s"
  unfolding wp_seq by (erule wp_mono) (auto intro: wp_mono [OF obeysD])

lemma dst_steps_keep:
  "completes sac_caught (\<lambda>w. pool_in L D X p0 k w \<and> t \<in> set (dst_pool w)) (dst_requests pf t)"
  "completes sac_caught (\<lambda>w. pool_in L D X p0 k w \<and> t \<in> set (dst_pool w)) (on_dst t (ack_responder pf))"
  "completes sac_caught (\<lambda>w. pool_in L D X p0 k w \<and> t \<in> set (dst_pool w)) (dst_run pf h t)"
proof -
  have req: "completes sac_caught (\<lambda>w. pool_in L D X p0 k w \<and> t \<in> set (dst_pool w)) (on_dst t (ack_requestor pf))"
    by (rule obeysI) (auto intro!: wp_mono [OF dst_ack_ok(1)])
  have rsp: "completes sac_caught (\<lambda>w. pool_in L D X p0 k w \<and> t \<in> set (dst_pool w)) (on_dst t (ack_responder pf))"
    by (rule obeysI) (auto intro!: wp_mono [OF dst_ack_ok(2)])
  have run: "completes sac_caught (\<lambda>w. pool_in L D X p0 k w \<and> t \<in> set (dst_pool w)) (dst_run pf h t)"
    by (rule obeysI) (auto intro!: wp_mono [OF dst_run_ok])
  show "completes sac_caught (\<lambda>w. pool_in L D X p0 k w \<and> t \<in> set (dst_pool w)) (dst_requests pf t)"
    unfolding dst_requests_def by (intro keeps_intros req)
  show "completes sac_caught (\<lambda>w. pool_in L D X p0 k w \<and> t \<in> set (dst_pool w)) (on_dst t (ack_responder pf))"
    "completes sac_caught (\<lambda>w. pool_in L D X p0 k w \<and> t \<in> set (dst_pool w)) (dst_run pf h t)"
    by (rule rsp, rule run)
qed

lemma finish_step:
  "completes sac_caught (pool_ok D {} p0 k) (src_finishes p)" "completes sac_caught (pool_in L D X p0 k) (dst_finishes p)"
  unfolding src_finishes_def dst_finishes_def by (intro keeps_intros keeps_del)+

lemma completed_seq_weak:
  assumes "completes T P' m" "P' s" "\<And>s. P' s \<Longrightarrow> P s" "completes T P n"
  shows "completed T P (seq m n) s"
  unfolding wp_seq using obeysD [OF assms(1,2)] by (rule wp_mono) (auto intro: assms(3) obeysD [OF assms(4)])

lemma in_dst_found:
  assumes "pool_ok D {} p0 k w" "t \<in> set (dst_pool w)"
  shows "completed sac_caught (pool_ok D {} p0 k) (in_dst_transaction pf h i t) w"
proof -
  let ?P = "\<lambda>w. pool_ok D {} p0 k w \<and> t \<in> set (dst_pool w)"
  let ?w = "dst_write t (\<lambda>x. x\<lparr>t_in := Some i, msg_in_avail := True\<rparr>) w"
  have P: "?P ?w"
    using assms dst_change_ok [OF assms, of "\<lambda>x. x\<lparr>t_in := Some i, msg_in_avail := True\<rparr>"]
    by (auto simp: dst_sound_def live_def dst_write_def)
  have "completed sac_caught (pool_ok D {} p0 k) (seq (seq (dst_requests pf t)
     (seq (bnd (gets (\<lambda>w. transaction_status (dst_obj w t))) (\<lambda>st. on_cond (st = ONGOING) (dst_run pf h t)))
      (bnd (gets (\<lambda>w. dst_obj w t)) (\<lambda>x.
            on_cond (start_ack_responder x \<and> transaction_status x = ONGOING) (on_dst t (ack_responder pf))))))
     (dst_finishes t)) ?w"
    by (rule completed_seq_weak [where P' = ?P, OF _ P _ finish_step(2)]) (intro keeps_intros dst_steps_keep | simp)+
  then show ?thesis unfolding in_dst_transaction_def wp_seq wp_basic .
qed

lemma out_dst_found:
  assumes "pool_in L D X p0 k w" "t \<in> set (dst_pool w)"
  shows "completed sac_caught (pool_in L D X p0 k) (out_dst_transaction pf h p t) w"
proof -
  let ?P = "\<lambda>w. pool_in L D X p0 k w \<and> t \<in> set (dst_pool w)"
  let ?w = "dst_write t (\<lambda>x. x\<lparr>t_out := Some p, msg_out_avail := True\<rparr>) w"
  have P: "?P ?w"
    using assms dst_change_ok [OF assms, of "\<lambda>x. x\<lparr>t_out := Some p, msg_out_avail := True\<rparr>"]
    by (auto simp: dst_sound_def live_def dst_write_def)
  have "completed sac_caught (pool_in L D X p0 k) (seq (seq (dst_requests pf t)
     (seq (bnd (gets (\<lambda>w. start_ack_responder (dst_obj w t))) (\<lambda>b. on_cond b (on_dst t (ack_responder pf))))
      (bnd (gets (\<lambda>w. transaction_status (dst_obj w t))) (\<lambda>st. on_cond (st = ONGOING) (dst_run pf h t)))))
     (dst_finishes t)) ?w"
    by (rule completed_seq_weak [where P' = ?P, OF _ P _ finish_step(2)]) (intro keeps_intros dst_steps_keep | simp)+
  then show ?thesis unfolding out_dst_transaction_def wp_seq wp_basic .
qed

lemma pool_ok_less: "pool_ok (insert t D) X p0 k w \<Longrightarrow> pool_ok D X p0 k w"
  by (auto simp: pool_in_def)

lemma dst_init_begin_ok:
  assumes "pool_ok D {} p0 k w" "t \<notin> set (dst_pool w)" "t < t_next w"
  shows "safe (on_dst t dst_init_begin) (\<lambda>_. pool_ok (insert t D) {} p0 k) w"
  using assms unfolding dst_init_begin_def
  by (auto simp: wp_simps) (auto simp: pool_in_def dst_pending_def live_def)

lemma dst_init_rest_ok:
  assumes "pool_ok (insert t D) {} p0 k w" "3 < n"
  shows "safe (bnd (on_dst t (dst_init_end pf rsp)) (\<lambda>r. case r of None \<Rightarrow> ret () | Some l \<Rightarrow> goto n (dst_block pf h t) l))
    (\<lambda>_ w'. pool_ok (insert t D) {} p0 k w' \<and> dst_state (dst_obj w' t) \<noteq> DST_INIT) w"
proof -
  have fin: "pool_ok (insert t D) {} p0 k w' \<and> dst_state (dst_obj w' t) \<noteq> DST_INIT" if "dst_arrives t w None w'" for w'
    using that dst_moved_pool_ok [OF _ _ assms(1), of t w'] by (simp add: dst_arrives_def)
  have "safe (on_dst t (dst_init_end pf rsp)) (dst_arrives t w) w"
    unfolding wp_on_dst
    by (rule wp_mono [OF dst_init_end_move]) (auto simp: dst_moves_def dst_moved_def dst_arrives_def dst_mask_on dst_same_def)
  then show ?thesis
    unfolding wp_bnd
  proof (rule wp_mono)
    fix r w1 assume 1: "dst_arrives t w r w1"
    show "safe (case r of None \<Rightarrow> ret () | Some l \<Rightarrow> goto n (dst_block pf h t) l)
        (\<lambda>_ w'. pool_ok (insert t D) {} p0 k w' \<and> dst_state (dst_obj w' t) \<noteq> DST_INIT) w1"
    proof (cases r)
      case None
      with 1 fin show ?thesis by (simp add: wp_simps)
    next
      case (Some l)
      have "safe (goto n (dst_block pf h t) l) (\<lambda>_. dst_arrives t w1 None) w1"
        using 1 Some assms(2) by (intro dst_goto_moves) (auto simp: dst_arrives_def)
      with Some show ?thesis
        by (auto elim!: wp_mono intro!: fin) (use 1 in \<open>auto simp: dst_arrives_def dst_moved_def dst_same_def\<close>)
    qed
  qed
qed

text \<open>A transaction that has just been created is not in the pool and has received nothing.\<close>

definition src_fresh :: "src_transaction \<Rightarrow> bool" where
  "src_fresh t \<longleftrightarrow> src_state t = SRC_INIT \<and> ack_req_state t = ACK_REQ_INIT \<and> ack_requestor_status t = ONGOING
     \<and> retransmission_when t = 0 \<and> \<not> msg_in_avail t \<and> transaction_status t = ONGOING"

definition src_starts :: "tptr \<Rightarrow> 'w pools_scheme \<Rightarrow> src_transaction_state_t option \<Rightarrow> 'w pools_scheme \<Rightarrow> bool" where
  "src_starts p w r w' \<longleftrightarrow> src_mask p w' = src_mask p w \<and> \<not> msg_in_avail (src_obj w' p)
     \<and> (case r of
          None \<Rightarrow> transaction_status (src_obj w' p) = ONGOING \<longrightarrow> src_sound (src_obj w' p)
        | Some l \<Rightarrow> l = SRC_SUCCESS \<or> l = SRC_FAILURE
            \<or> (l = SRC_WAIT_ACK \<or> l = SRC_WAIT_RESPONSE_MSG) \<and> src_sound ((src_obj w' p)\<lparr>src_state := l\<rparr>))"

lemma ack_requestor_begins:
  assumes "ack_req_state t = ACK_REQ_INIT" "\<not> msg_in_avail t"
  shows "wp (ack_requestor pf) Q E (t, n) = Q ()
    (t\<lparr>ack_requestor_status := ONGOING, rtxctr := 0, ack_req_state := ACK_REQ_WAIT_ACK, retransmission_when := 5\<rparr>, n)"
  using assms by (simp add: ack_requestor_def goto_numeral wp_def)

lemma src_init_starts:
  assumes "src_fresh (src_obj w p)"
  shows "safe (on_src p (src_init pf)) (src_starts p w) w"
  using assms unfolding src_init_def src_fresh_def
  by (auto simp: wp_simps ack_requestor_begins intro!: safe_send_ptr)
    (auto simp: src_starts_def src_mask_def net_mask_def src_sound_def live_def ack_linked_def fatal_def sac_caught_def)

lemma src_block_starts:
  assumes "src_starts p w (Some l) w'"
  shows "safe (src_block pf h p l) (src_starts p w) w'"
  using assms
  by (cases l) (auto simp: wp_simps src_wait_ack_def src_wait_response_msg_def src_success_def src_failure_def
      src_starts_def src_mask_def net_mask_def src_sound_def live_def ack_linked_def split: status_t.splits)

lemma src_run_starts:
  assumes "src_fresh (src_obj w p)"
  shows "safe (src_run pf h p) (\<lambda>_. src_starts p w None) w"
proof -
  have "safe (goto 4 (src_block pf h p) l) (\<lambda>_. src_starts p w None) w'" if "src_starts p w (Some l) w'" for l w'
  proof (rule wp_goto_ranked [where R = "\<lambda>l. src_starts p w (Some l)", OF _ src_jump])
    show "src_rank l (src_obj w' p) < 4" using that by (cases l) (auto simp: src_starts_def)
  qed (use that in \<open>auto intro: wp_mono [OF src_block_starts] split: option.split\<close>)
  moreover have init: "src_state (src_obj w p) = SRC_INIT" using assms by (simp add: src_fresh_def)
  moreover have five: "(5 :: nat) = Suc 4" by simp
  ultimately show ?thesis
    unfolding src_run_def wp_bnd wp_basic init five goto.simps src_block.simps
    by (auto simp: wp_bnd wp_basic intro!: wp_mono [OF src_init_starts [OF assms]] split: option.split)
qed

lemma src_mask_pools:
  assumes "src_mask p w' = src_mask p w"
  shows "src_pool w' = src_pool w" "t_next w' = t_next w"
  using assms [THEN arg_cong [where f = src_pool]] assms [THEN arg_cong [where f = t_next]]
  by (simp_all add: src_mask_def net_mask_def)

lemma src_mask_ok:
  assumes "src_mask p w' = src_mask p w"
  shows "pool_ok D {p} p0 k w' = pool_ok D {p} p0 k w"
proof -
  have "pool_ok D {p} p0 k w = pool_ok D {p} p0 k (src_mask p w)" for w :: "'a pools_scheme"
    by (simp add: src_mask_def pool_in_net_mask)
  with assms show ?thesis by metis
qed

section \<open>The transaction layer under a handler\<close>

lemma src_mask_outside:
  assumes "src_mask p w' = src_mask p w" "p \<notin> set (src_pool w)"
  shows "pool_in L D X p0 k w' = pool_in L D X p0 k w"
proof -
  have "pool_in L D X p0 k (src_mask p v) = pool_in L D X p0 k v" if "p \<notin> set (src_pool v)" for v :: "'a pools_scheme"
  proof -
    have *: "((src_obj v)(p := x)) q = src_obj v q" if "q \<in> set (src_pool v)" for q x
      using that \<open>p \<notin> set (src_pool v)\<close> by auto
    then have "src_held L (v\<lparr>src_obj := (src_obj v)(p := src_transaction_new 0)\<rparr>) = src_held L v"
      by (cases L) (simp_all add: src_held_def split_beta del: fun_upd_apply cong: conj_cong)
    then show ?thesis
      unfolding src_mask_def pool_in_net_mask by (simp add: pool_in_def * del: fun_upd_apply)
  qed
  from this [of w] this [of w'] assms src_mask_pools(1) [OF assms(1)] show ?thesis by simp
qed

lemma wp_lock:
  "wp (with_src_lock m) Q E w = (if src_lock w then E deadlock w
     else wp m (\<lambda>x w. Q x (w\<lparr>src_lock := False\<rparr>)) (\<lambda>e w. E e (w\<lparr>src_lock := False\<rparr>)) (w\<lparr>src_lock := True\<rparr>))"
  "wp (with_dst_lock m') Q' E w = (if dst_lock w then E deadlock w
     else wp m' (\<lambda>x w. Q' x (w\<lparr>dst_lock := False\<rparr>)) (\<lambda>e w. E e (w\<lparr>dst_lock := False\<rparr>)) (w\<lparr>dst_lock := True\<rparr>))"
  by (simp_all add: wp_def with_src_lock_def with_dst_lock_def split: prod.split sum.split)

text \<open>Under the mutex of the source pool a message can be sent only if no source transaction is looked up or added.\<close>

lemma new_src_held:
  fixes w :: "'w pools_scheme"
  assumes "pool_in (Some (ps, obj)) D X p0 k w"
  shows "completed sac_caught (pool_in (Some (ps, obj)) D X p0 k) (new_src_transaction pf h m) w"
proof -
  let ?t = "t_next w"
  have add: "completed sac_caught (pool_in (Some (ps, obj)) D X p0 k) (on_cond b (tpool_add_src ?t)) w2"
    if "pool_in (Some (ps, obj)) D X p0 k w2" for b w2
    using that by (auto simp: wp_on_cond tpool_add_src_def wp_lock sac_caught_def pool_in_def)
  have run: "wp (src_run pf h ?t) (\<lambda>_ s. completed sac_caught (pool_in (Some (ps, obj)) D X p0 k)
      (on_cond (transaction_status (src_obj s ?t) = ONGOING) (tpool_add_src ?t)) s)
      (\<lambda>e s'. e \<noteq> out_of_fuel \<and> (sac_caught e \<longrightarrow> pool_in (Some (ps, obj)) D X p0 k s')) w1"
    if "pool_in (Some (ps, obj)) D X p0 k w1" "?t \<notin> set (src_pool w1)" "src_fresh (src_obj w1 ?t)" for w1
  proof (rule wp_mono [OF src_run_starts [OF that(3)]])
    fix x and s :: "'w pools_scheme" assume "src_starts ?t w1 None s"
    then have "src_mask ?t s = src_mask ?t w1" by (simp add: src_starts_def)
    from add src_mask_outside [OF this that(2)] that(1) show "completed sac_caught (pool_in (Some (ps, obj)) D X p0 k)
      (on_cond (transaction_status (src_obj s ?t) = ONGOING) (tpool_add_src ?t)) s" by blast
  qed auto
  have "?t \<notin> set ps" using assms by (auto simp: pool_in_def)
  then show ?thesis
    unfolding new_src_transaction_def wp_bnd wp_seq wp_basic wp_msg
    using assms
    by (auto simp: src_fresh_def src_write_def src_transaction_new_def src_transaction.defs transaction.defs
        transaction_new_def intro!: run) (auto simp: pool_in_def less_Suc_eq)
qed

lemma message_out_held:
  fixes h :: "'w pools_scheme handler"
  shows "completes sac_caught (pool_in (Some (ps, obj)) D X p0 k) (message_out pf h p)"
proof (rule obeysI)
  let ?P = "pool_in (Some (ps, obj)) D X p0 k"
  fix w :: "'w pools_scheme" assume "?P w"
  then have ok: "?P (w\<lparr>n_heap := (n_heap w)(p := (n_heap w p)\<lparr>m_ackreq := True\<rparr>)\<rparr>)" by simp
  have src: "completed sac_caught ?P (bnd (tpool_find_src ident tid) f) w'"
    if "?P w'" for ident tid w' and f :: "tptr option \<Rightarrow> ('w pools_scheme, unit) eff"
    using that by (auto simp: wp_bnd tpool_find_src_def wp_lock sac_caught_def pool_in_def)
  have dst: "completed sac_caught ?P (bnd (tpool_find_dst ident tid) (\<lambda>r. case r of
      Some t \<Rightarrow> out_dst_transaction pf h p t | None \<Rightarrow> new_src_transaction pf h p)) w'" if "?P w'" for ident tid w'
    unfolding wp_bnd wp_find_dst [OF that] using that
    by (auto intro: new_src_held out_dst_found dest!: find_in split: option.split)
  show "completed sac_caught ?P (message_out pf h p) w"
    unfolding message_out_def wp_seq wp_msg wp_bnd [of "msg p"] wp_if
    using src [OF ok] dst [OF ok] ok by (simp add: wp_basic del: fun_upd_apply)
qed


text \<open>
  The contract of the message handler: it keeps the invariant of the pools.
\<close>

locale pool_handler =
  fixes h :: "'w pools_scheme handler"
  assumes handler_keeps: "keeps sac_caught (pool_ok D {} p0 k) (h i out)"
begin

lemma src_block_at:
  assumes "src_at D p0 k p l w"
  shows "wp (src_block pf h p l) (\<lambda>r w'. case r of None \<Rightarrow> pool_ok D {} p0 k w' | Some l \<Rightarrow> src_at D p0 k p l w')
    (\<lambda>e w'. sac_caught e \<longrightarrow> pool_ok D {} p0 k w') w"
proof (cases l)
  case SRC_INIT
  then show ?thesis using assms by (simp add: src_at_def)
next
  case SRC_PROCESS_MSG
  then show ?thesis
    using assms
    by (auto simp: wp_bnd wp_seq intro!: wp_mono [OF src_process_begin_at] wp_mono [OF src_process_end_at]
        wp_mono [OF keepsD [OF handler_keeps]])
qed (use assms src_wait_ack_at [of D p0 k p w] src_wait_response_at [of D p0 k p w] src_end_at [of D p0 k p l w] in
  \<open>auto elim!: wp_mono\<close>)

lemma src_run_keeps:
  assumes "pool_ok D {p} p0 k w" "p \<in> set (src_pool w)" "src_entry p0 k p (src_state (src_obj w p)) (src_obj w p)"
  shows "wp (src_run pf h p) (\<lambda>_. pool_ok D {} p0 k) (\<lambda>e w'. sac_caught e \<longrightarrow> pool_ok D {} p0 k w') w"
proof -
  have "src_state (src_obj w p) \<noteq> SRC_INIT" using assms(3) by (simp add: src_defs)
  then have at: "src_at D p0 k p (src_state (src_obj w p)) w" using assms by (simp add: src_at_def)
  show ?thesis
    unfolding src_run_def wp_bnd wp_basic
    by (rule wp_goto [where R = "src_at D p0 k p", OF src_block_at _ at]) (simp_all add: sac_caught_def)
qed

text \<open>The state machine runs, or the message that was there is an acknowledgement only.\<close>

lemma run_step:
  assumes "busy D p0 k p w" "\<not> b \<Longrightarrow> src_calm (src_obj w p)"
  shows "wp (on_cond b (src_run pf h p)) (\<lambda>_. pool_ok D {} p0 k) (\<lambda>e w'. sac_caught e \<longrightarrow> pool_ok D {} p0 k w') w"
proof (cases b)
  case True
  have "src_entry p0 k p (src_state (src_obj w p)) (src_obj w p)"
    using assms(1) by (simp add: busy_def src_entry_def)
  moreover have "pool_ok D {p} p0 k w" "p \<in> set (src_pool w)" using assms(1) by (simp_all add: busy_def)
  ultimately show ?thesis using True src_run_keeps [of D p p0 k w pf] by simp
next
  case False
  then show ?thesis using assms busy_done [of D p0 k p w] by (simp add: wp_simps)
qed

lemma in_src_found:
  assumes "pool_ok D {} p0 k w" "t \<in> set (src_pool w)"
  shows "leaves sac_caught (pool_ok D {} p0 k) (in_src_transaction pf h i t) w"
  unfolding in_src_transaction_def
proof (subst wp_seq, subst wp_basic(3), subst wp_seq, rule wp_mono [OF request_step])
  show "busy D p0 k t (src_write t (\<lambda>x. x\<lparr>t_in := Some i, msg_in_avail := True\<rparr>) w)"
    using assms by (rule busyI) (auto simp: src_sound_def live_def ack_linked_def)
next
  fix x and w1 :: "'w pools_scheme"
  assume "busy D p0 k t w1 \<and> unacked t w1
    \<and> t_in (src_obj w1 t) = t_in (src_obj (src_write t (\<lambda>x. x\<lparr>t_in := Some i, msg_in_avail := True\<rparr>) w) t)"
  then have 1: "busy D p0 k t w1" "unacked t w1" "t_in (src_obj w1 t) = Some i"
    by (simp_all add: src_write_def)
  have "leaves sac_caught (pool_ok D {} p0 k) (bnd (gets (\<lambda>w. transaction_status (src_obj w t))) (\<lambda>st. bnd (msg i) (\<lambda>im.
      on_cond (st = ONGOING \<and> \<not> (m_ackrsp im \<and> msg_opcode im = 1)) (src_run pf h t)))) w2"
    if 2: "busy D p0 k t w2" "unacked t w2" "t_in (src_obj w2 t) = Some i" for w2
  proof -
    have "src_calm (src_obj w2 t)"
      if "\<not> (transaction_status (src_obj w2 t) = ONGOING \<and> \<not> (m_ackrsp (n_heap w2 i) \<and> msg_opcode (n_heap w2 i) = 1))"
      using that 2 by (auto simp: busy_def unacked_def src_sound_def src_calm_def)
    then show ?thesis unfolding wp_bnd wp_basic wp_msg by (rule run_step [OF 2(1)])
  qed
  then show "leaves sac_caught (pool_ok D {} p0 k) (seq (src_responds pf t)
      (seq (bnd (gets (\<lambda>w. transaction_status (src_obj w t))) (\<lambda>st. bnd (msg i) (\<lambda>im.
            on_cond (st = ONGOING \<and> \<not> (m_ackrsp im \<and> msg_opcode im = 1)) (src_run pf h t))))
      (src_finishes t))) w1"
    using 1 by (subst wp_seq) (auto intro!: wp_mono [OF respond_step [OF 1(1,2)]] leaves_seq finish_step)
qed auto

lemma out_src_found:
  assumes "pool_ok D {} p0 k w" "t \<in> set (src_pool w)"
  shows "leaves sac_caught (pool_ok D {} p0 k) (out_src_transaction pf h p t) w"
  unfolding out_src_transaction_def
proof (subst wp_seq, subst wp_basic(3), subst wp_seq, rule wp_mono [OF request_step])
  show "busy D p0 k t (src_write t (\<lambda>x. x\<lparr>t_out := Some p, msg_out_avail := True\<rparr>) w)"
    using assms by (rule busyI) (auto simp: src_sound_def live_def ack_linked_def)
next
  fix x and w1 :: "'w pools_scheme"
  assume "busy D p0 k t w1 \<and> unacked t w1
    \<and> t_in (src_obj w1 t) = t_in (src_obj (src_write t (\<lambda>x. x\<lparr>t_out := Some p, msg_out_avail := True\<rparr>) w) t)"
  then have 1: "busy D p0 k t w1" "unacked t w1" by simp_all
  have "leaves sac_caught (pool_ok D {} p0 k) (bnd (gets (\<lambda>w. transaction_status (src_obj w t)))
      (\<lambda>st. on_cond (st = ONGOING) (src_run pf h t))) w2" if 2: "busy D p0 k t w2" for w2
    unfolding wp_bnd wp_basic
    by (rule run_step [OF 2]) (use 2 in \<open>auto simp: busy_def src_sound_def src_calm_def\<close>)
  then show "leaves sac_caught (pool_ok D {} p0 k) (seq (src_responds pf t)
      (seq (bnd (gets (\<lambda>w. transaction_status (src_obj w t))) (\<lambda>st. on_cond (st = ONGOING) (src_run pf h t)))
      (src_finishes t))) w1"
    by (subst wp_seq) (auto intro!: wp_mono [OF respond_step [OF 1]] leaves_seq finish_step)
qed auto

lemma new_dst_ok:
  assumes "pool_ok D {} p0 k w"
  shows "leaves sac_caught (pool_ok D {} p0 k) (new_dst_transaction pf h m) w"
proof -
  let ?t = "t_next w" and ?E = "\<lambda>e w'. sac_caught e \<longrightarrow> pool_ok D {} p0 k w'"
  have run: "wp (dst_run pf h ?t) (\<lambda>_ w'. pool_ok (insert ?t D) {} p0 k w' \<and> dst_state (dst_obj w' ?t) \<noteq> DST_INIT) ?E w1"
    if "pool_ok D {} p0 k w1" "?t \<notin> set (dst_pool w1)" "?t < t_next w1" "dst_state (dst_obj w1 ?t) = DST_INIT" for w1
  proof -
    have five: "(5 :: nat) = Suc 4" by simp
    have "wp (h p q) (\<lambda>rsp. wp (bnd (on_dst ?t (dst_init_end pf rsp)) (\<lambda>r. case r of None \<Rightarrow> ret ()
        | Some l \<Rightarrow> goto 4 (dst_block pf h ?t) l))
        (\<lambda>_ w'. pool_ok (insert ?t D) {} p0 k w' \<and> dst_state (dst_obj w' ?t) \<noteq> DST_INIT) ?E) ?E w2"
      if "pool_ok (insert ?t D) {} p0 k w2" for p q w2
      by (rule wp_mono [OF keepsD [OF handler_keeps that]])
        (auto intro: wp_mono [OF dst_init_rest_ok] pool_ok_less)
    then show ?thesis
      unfolding dst_run_def wp_bnd wp_basic that(4) dst_entry.simps five goto.simps dst_block.simps
      by (auto simp: wp_bnd intro!: wp_mono [OF dst_init_begin_ok [OF that(1-3)]])
  qed
  have "?t \<noteq> p0" "?t \<notin> set (dst_pool w)" "?t \<notin> D" using assms by (auto simp: pool_in_def)
  then have add: "safe (on_cond b (tpool_add_dst ?t)) (\<lambda>_. pool_ok D {} p0 k) w'"
    if "pool_ok (insert ?t D) {} p0 k w'" "dst_state (dst_obj w' ?t) \<noteq> DST_INIT" for b w'
    using that pool_ok_less [OF that(1)] add_dst_ok [OF that(1)]
    by (auto simp: wp_simps pool_in_def dst_member_def dst_sound_def dst_pending_def)
  show ?thesis
    unfolding new_dst_transaction_def wp_bnd wp_seq wp_basic wp_msg
  proof (simp del: fun_upd_apply, rule wp_mono [OF run], goal_cases)
    case 1
    from assms show ?case by (auto simp: pool_in_def less_Suc_eq)
  next
    case 2
    from assms show ?case by (auto simp: pool_in_def)
  qed (auto simp: dst_transaction_new_def dst_transaction.defs transaction.defs transaction_new_def intro!: wp_mono [OF add])
qed

lemma new_src_ok:
  assumes "pool_ok D {} p0 k w"
  shows "leaves sac_caught (pool_ok D {} p0 k) (new_src_transaction pf h m) w"
proof -
  let ?t = "t_next w"
  have t: "?t \<noteq> p0" "?t \<notin> set (src_pool w)" using assms by (auto simp: pool_in_def)
  have add: "leaves sac_caught (pool_ok D {} p0 k) (on_cond (transaction_status (src_obj w2 ?t) = ONGOING) (tpool_add_src ?t)) w2"
    if 1: "pool_ok D {} p0 k w1" "?t \<notin> set (src_pool w1)" "?t < t_next w1" and 2: "src_starts ?t w1 None w2" for w1 w2
  proof -
    have m: "src_mask ?t w2 = src_mask ?t w1" using 2 by (simp add: src_starts_def)
    have ok: "pool_ok D {} p0 k w2"
      using 1 src_mask_pools [OF m] pool_ok_src [of D p0 k w2 ?t] src_mask_ok [OF m, of D p0 k]
        pool_ok_src [of D p0 k w1 ?t] by simp
    have "src_member p0 (fst k) ?t (src_obj w2 ?t)" if "transaction_status (src_obj w2 ?t) = ONGOING"
      using 2 that t(1) by (auto simp: src_starts_def src_member_def src_calm_def)
    then show ?thesis
      using 1 ok src_mask_pools [OF m] by (auto simp: wp_simps intro!: wp_mono [OF add_src_ok [OF ok]])
  qed
  have run: "wp (src_run pf h ?t) (\<lambda>_ s. leaves sac_caught (pool_ok D {} p0 k)
      (on_cond (transaction_status (src_obj s ?t) = ONGOING) (tpool_add_src ?t)) s)
      (\<lambda>e s'. sac_caught e \<longrightarrow> pool_ok D {} p0 k s') w1"
    if "pool_ok D {} p0 k w1" "?t \<notin> set (src_pool w1)" "?t < t_next w1" "src_fresh (src_obj w1 ?t)" for w1
    by (rule wp_mono [OF src_run_starts [OF that(4)]]) (auto intro: add [OF that(1-3)])
  show ?thesis
    unfolding new_src_transaction_def wp_bnd wp_seq wp_basic wp_msg
    using assms t
    by (auto simp: src_fresh_def src_write_def src_transaction_new_def src_transaction.defs transaction.defs
        transaction_new_def intro!: run) (auto simp: pool_in_def less_Suc_eq)
qed

lemma message_in_keeps: "keeps sac_caught (pool_ok D {} p0 k) (message_in pf h i)"
proof (rule keepsI)
  fix w :: "'w pools_scheme" assume ok: "pool_ok D {} p0 k w"
  then show "leaves sac_caught (pool_ok D {} p0 k) (message_in pf h i) w"
    unfolding message_in_def wp_bnd wp_msg wp_if
    by (auto simp: wp_find_src [OF ok] wp_find_dst [OF ok] intro: new_dst_ok in_src_found in_dst_found [THEN completed_leaves] dest!: find_in split: option.split)
qed

lemma message_out_keeps: "keeps sac_caught (pool_ok D {} p0 k) (message_out pf h p)"
proof (rule keepsI)
  fix w :: "'w pools_scheme" assume "pool_ok D {} p0 k w"
  then have ok: "pool_ok D {} p0 k (w\<lparr>n_heap := (n_heap w)(p := (n_heap w p)\<lparr>m_ackreq := True\<rparr>)\<rparr>)" by simp
  then show "leaves sac_caught (pool_ok D {} p0 k) (message_out pf h p) w"
    unfolding message_out_def wp_bnd wp_seq wp_msg wp_if
    by (auto simp: wp_find_src [OF ok] wp_find_dst [OF ok] wp_basic intro: new_src_ok out_src_found out_dst_found [THEN completed_leaves] dest!: find_in split: option.split)
qed

end

end
