(* ===== verification/Mihf_Event.thy ===== *)
theory Mihf_Event
  imports Mihf_System
begin

text \<open>
  The event service, \<open>event_service.cpp\<close>: subscriptions of users and peers to the events of a
  link, and the forwarding of event indications to the subscribers.
\<close>

section \<open>Subscriptions\<close>

text \<open>\<open>std::find\<close> uses \<open>event_registration_t::operator==\<close>.\<close>

definition subscribe :: "mihf_id \<Rightarrow> link_tuple_id \<Rightarrow> bitmap \<Rightarrow> event_registration_t list \<Rightarrow> event_registration_t list" where
  "subscribe user link events subs = fold (\<lambda>i subs.
     if bm_get events i
     then let reg = \<lparr>er_user = user, er_link = link, er_event = i\<rparr> in
       if list_ex (\<lambda>s. event_registration_eq s reg) subs then subs else subs @ [reg]
     else subs) [0..<32] subs"

definition unsubscribe :: "mihf_id \<Rightarrow> link_tuple_id \<Rightarrow> bitmap \<Rightarrow> event_registration_t list \<Rightarrow> event_registration_t list" where
  "unsubscribe user link events subs =
     filter (\<lambda>s. \<not> (link_tuple_id_eq (er_link s) link \<and> er_user s = user \<and> bm_get events (er_event s))) subs"

definition do_subscribe :: "mihf_id \<Rightarrow> link_tuple_id \<Rightarrow> bitmap \<Rightarrow> (world, status) eff" where
  "do_subscribe user link events =
     seq (upd (\<lambda>w. w\<lparr>w_subscriptions := subscribe user link events (w_subscriptions w)\<rparr>)) (ret status_success)"

definition do_unsubscribe :: "mihf_id \<Rightarrow> link_tuple_id \<Rightarrow> bitmap \<Rightarrow> (world, status) eff" where
  "do_unsubscribe user link events =
     seq (upd (\<lambda>w. w\<lparr>w_subscriptions := unsubscribe user link events (w_subscriptions w)\<rparr>)) (ret status_success)"

text \<open>The events of a link somebody is subscribed to.\<close>

definition subscribed_events :: "link_tuple_id \<Rightarrow> event_registration_t list \<Rightarrow> bitmap" where
  "subscribed_events link subs =
     fold (\<lambda>s b. if link_tuple_id_eq (er_link s) link then bm_set (er_event s) b else b) subs (bm_new 32)"

definition link_event_subscribe_response_timeout :: "platform \<Rightarrow> world handler \<Rightarrow> mptr \<Rightarrow> (world, unit) eff" where
  "link_event_subscribe_response_timeout pf h i =
     seq (upd (\<lambda>w. w\<lparr>w_event_timer := map_erase (m_tid (n_heap w i)) (w_event_timer w)\<rparr>))
     (bnd (msg_new meta_message_new) (\<lambda>out.
     bnd (mih_read i (request Event_subscribe) (rd tlv_link_identifier)) (\<lambda>link.
     seq (mih_write out (response Event_subscribe) (seq (wr tlv_status status_failure) (wr tlv_link_identifier link)))
     (seq (respond_to i out) (transmit pf h out)))))"

section \<open>Requests, responses and confirmations\<close>

definition local_event_subscribe_request :: "platform \<Rightarrow> world handler \<Rightarrow> world handler" where
  "local_event_subscribe_request pf h i out =
     bnd (mih_read i (request Event_subscribe)
            (bnd (rd tlv_link_identifier) (\<lambda>l. bnd (rd tlv_event_list) (\<lambda>e. ret (l, e))))) (\<lambda>(link, events).
     bnd (search_interface (lid_type link) (lid_addr link)) (\<lambda>link_id.
     if link_id = [] then
       seq (mih_write out (response Event_subscribe) (seq (wr tlv_status status_failure) (wr tlv_link_identifier link)))
       (seq (respond_to i out) (ret True))
     else bnd (gets (\<lambda>w. subscribed_events link (w_subscriptions w))) (\<lambda>event_tmp.
       if bm_eq events event_tmp then
         bnd (msg i) (\<lambda>im. bnd (do_subscribe (m_src im) link events) (\<lambda>st.
         seq (mih_write out (response Event_subscribe)
               (seq (wr tlv_status st) (seq (wr tlv_link_identifier link)
                 (on_cond (st = status_success) (wr tlv_event_list events)))))
         (seq (respond_to i out) (ret True))))
       else
         seq (mih_write out (request Event_subscribe) (wr tlv_link_evt_list (copy_bits [0..<32] events (bm_new 32))))
         (bnd (msg i) (\<lambda>im. seq (msg_upd out (\<lambda>m. m\<lparr>m_dst := link_id, m_src := m_src im, m_tid := m_tid im\<rparr>))
         (seq (if_link_active link_id
               (seq (forward_request pf h out)
               (bnd (msg i) (\<lambda>im. upd (\<lambda>w. w\<lparr>w_event_timer := map_store (m_tid im)
                  \<lparr>tm_calls = Event_subscribe_timeout, tm_in = i, tm_pending = True\<rparr> (w_event_timer w)\<rparr>)))))
         (ret False)))))))"

definition event_subscribe_request :: "platform \<Rightarrow> world handler \<Rightarrow> world handler" where
  "event_subscribe_request pf h i out = bnd (is_dest i) (\<lambda>b.
     if b then local_event_subscribe_request pf h i out else seq (forward_request pf h i) (ret False))"

definition event_subscribe_response :: "platform \<Rightarrow> world handler \<Rightarrow> world handler" where
  "event_subscribe_response pf h i out = bnd (set_user_tid i) (\<lambda>b.
     if \<not> b then ret False
     else bnd (mih_read i 0 (bnd (rd tlv_status) (\<lambda>s. bnd (rd tlv_link_identifier) (\<lambda>l.
                 bnd (rd_opt tlv_event_list) (\<lambda>e. ret (s, l, e)))))) (\<lambda>(st, link, events).
       seq (on_cond (st = status_success) (bnd (deref events) (\<lambda>events.
              bnd (msg i) (\<lambda>im. seq (do_subscribe (m_dst im) link events) (ret ())))))
       (seq (transmit pf h i) (ret False))))"

definition event_subscribe_confirm :: "platform \<Rightarrow> world handler \<Rightarrow> world handler" where
  "event_subscribe_confirm pf h i out = bnd (msg i) (\<lambda>im.
     seq (on_lbook (lbook_reset (m_src im)))
     (seq (msg_upd out (\<lambda>m. m\<lparr>m_src := m_src im\<rparr>))
     (bnd (set_user_tid out) (\<lambda>b.
      if \<not> b then ret False
      else seq (upd (\<lambda>w. w\<lparr>w_event_timer := map_erase (m_tid (n_heap w i)) (w_event_timer w)\<rparr>))
       (bnd (mih_read i (confirm Event_subscribe)
              (bnd (rd tlv_status) (\<lambda>s. bnd (rd_opt tlv_link_evt_list) (\<lambda>e. ret (s, e))))) (\<lambda>(st, events).
       bnd (gets (\<lambda>w. lbook_get (w_lbook w) (m_src (n_heap w i)))) (\<lambda>r. bnd (of_sum r) (\<lambda>sap.
       let link = \<lparr>lid_type = lid_type (le_link_id sap), lid_addr = lid_addr (le_link_id sap), poa_addr = None\<rparr> in
       seq (if st = status_success then
              bnd (deref events) (\<lambda>events. let evt = copy_bits [0..<32] events (bm_new 32) in
              seq (mih_write out (response Event_subscribe)
                    (seq (wr tlv_status st) (seq (wr tlv_link_identifier link) (wr tlv_event_list evt))))
              (bnd (msg out) (\<lambda>om. seq (do_subscribe (m_dst om) link evt) (ret ()))))
            else mih_write out (response Event_subscribe) (seq (wr tlv_status st) (wr tlv_link_identifier link)))
       (seq (set_source_mihfid out) (seq (transmit pf h out) (ret False)))))))))))"

text \<open>
  Events nobody else is subscribed to are unsubscribed at the Link SAP. The source holds the mutex
  of the subscriptions meanwhile, which is not modelled: should the datagram to the Link SAP be
  refused, the request goes through the transactions, and a handler called there that needs the
  subscriptions would wait for that mutex.
\<close>

definition link_unsubscribe :: "platform \<Rightarrow> world handler \<Rightarrow> mptr \<Rightarrow> link_tuple_id \<Rightarrow> bitmap \<Rightarrow> (world, unit) eff" where
  "link_unsubscribe pf h i link events = bnd (msg i) (\<lambda>im.
     bnd (gets (\<lambda>w. fold (\<lambda>s b. if link_tuple_id_eq (er_link s) link \<and> er_user s \<noteq> m_src im then bm_clear (er_event s) b else b)
            (w_subscriptions w) events)) (\<lambda>event_unsubscribe.
     on_cond (\<not> bm_eq (bm_new 32) event_unsubscribe)
      (seq (mih_write i (request Event_unsubscribe) (wr tlv_link_evt_list (copy_bits [0..<32] event_unsubscribe (bm_new 32))))
      (bnd (search_interface (lid_type link) (lid_addr link)) (\<lambda>link_id.
      seq (set_dst i link_id) (seq (set_source_mihfid i)
      (if_link_active link_id (forward_request pf h i))))))))"

definition local_event_unsubscribe_request :: "platform \<Rightarrow> world handler \<Rightarrow> world handler" where
  "local_event_unsubscribe_request pf h i out =
     bnd (mih_read i (request Event_unsubscribe)
            (bnd (rd tlv_link_identifier) (\<lambda>l. bnd (rd tlv_event_list) (\<lambda>e. ret (l, e))))) (\<lambda>(link, events).
     bnd (msg i) (\<lambda>im. bnd (do_unsubscribe (m_src im) link events) (\<lambda>st.
     seq (mih_write out (response Event_unsubscribe)
           (seq (wr tlv_status st) (seq (wr tlv_link_identifier link) (wr tlv_event_list events))))
     (seq (respond_to i out) (seq (link_unsubscribe pf h i link events) (ret True))))))"

definition event_unsubscribe_request :: "platform \<Rightarrow> world handler \<Rightarrow> world handler" where
  "event_unsubscribe_request pf h i out = bnd (is_dest i) (\<lambda>b.
     if b then local_event_unsubscribe_request pf h i out else seq (forward_request pf h i) (ret False))"

definition event_unsubscribe_response :: "platform \<Rightarrow> world handler \<Rightarrow> world handler" where
  "event_unsubscribe_response pf h i out = bnd (set_user_tid i) (\<lambda>b.
     if \<not> b then ret False
     else bnd (mih_read i (response Event_unsubscribe) (bnd (rd tlv_status) (\<lambda>s. bnd (rd tlv_link_identifier) (\<lambda>l.
                 bnd (rd_opt tlv_event_list) (\<lambda>e. ret (s, l, e)))))) (\<lambda>(st, link, events).
       seq (on_cond (st = status_success) (bnd (deref events) (\<lambda>events.
              bnd (msg i) (\<lambda>im. seq (do_unsubscribe (m_dst im) link events) (ret ())))))
       (seq (set_opcode i 2) (seq (transmit pf h i) (ret False)))))"

definition event_unsubscribe_confirm :: "platform \<Rightarrow> world handler \<Rightarrow> world handler" where
  "event_unsubscribe_confirm pf h i out = bnd (msg i) (\<lambda>im.
     seq (on_lbook (lbook_reset (m_src im)))
     (bnd (set_user_tid i) (\<lambda>b.
      if \<not> b then ret False
      else seq (mih_read i (confirm Event_unsubscribe)
              (bnd (rd tlv_status) (\<lambda>s. bnd (rd_opt tlv_link_evt_list) (\<lambda>e. ret (s, e))))) (ret False))))"

section \<open>Indications\<close>

definition reset_if_local :: "mptr \<Rightarrow> (world, unit) eff" where
  "reset_if_local i = bnd (msg i) (\<lambda>im. on_cond (mm_local im) (on_lbook (lbook_reset (m_src im))))"

text \<open>The loops iterate over the subscriptions as they are when the loop starts.\<close>

definition forward_to :: "platform \<Rightarrow> world handler \<Rightarrow> mptr \<Rightarrow> (event_registration_t \<Rightarrow> bool) \<Rightarrow> (world, unit) eff" where
  "forward_to pf h p sel = bnd (gets w_subscriptions) (for_each (\<lambda>s.
     on_cond (sel s) (seq (set_dst p (er_user s)) (transmit pf h p))))"

definition msg_forward :: "platform \<Rightarrow> world handler \<Rightarrow> mptr \<Rightarrow> link_tuple_id \<Rightarrow> nat \<Rightarrow> (world, unit) eff" where
  "msg_forward pf h p li event = seq (source_if_local p)
     (forward_to pf h p (\<lambda>s. er_event s = event \<and> link_tuple_id_eq (er_link s) li))"

definition link_event_forward :: "platform \<Rightarrow> world handler \<Rightarrow> mptr \<Rightarrow> nat \<Rightarrow> (world, unit) eff" where
  "link_event_forward pf h p event =
     bnd (mih_read p 0 (rd tlv_link_identifier)) (\<lambda>li. msg_forward pf h p li event)"

definition link_indication :: "nat \<Rightarrow> platform \<Rightarrow> world handler \<Rightarrow> world handler" where
  "link_indication event pf h i out = seq (reset_if_local i) (seq (link_event_forward pf h i event) (ret False))"

definition link_up_indication :: "platform \<Rightarrow> world handler \<Rightarrow> world handler" where
  "link_up_indication = link_indication 1"

definition link_down_indication :: "platform \<Rightarrow> world handler \<Rightarrow> world handler" where
  "link_down_indication = link_indication 2"

definition link_detected_indication :: "platform \<Rightarrow> world handler \<Rightarrow> world handler" where
  "link_detected_indication pf h i out = bnd (msg i) (\<lambda>im.
     seq (on_cond (mm_local im)
           (seq (on_lbook (lbook_reset (m_src im)))
           (bnd (mih_read i 0 (rd tlv_link_det_info)) (\<lambda>link_info.
            mih_write i (indication Link_detected) (wr tlv_link_det_info_list [link_info])))))
     (seq (source_if_local i) (seq (forward_to pf h i (\<lambda>s. er_event s = 0)) (ret False))))"

definition link_going_down_indication :: "platform \<Rightarrow> world handler \<Rightarrow> world handler" where
  "link_going_down_indication = link_indication 4"

definition link_parameters_report_indication :: "platform \<Rightarrow> world handler \<Rightarrow> world handler" where
  "link_parameters_report_indication = link_indication 3"

definition link_handover_imminent_indication :: "platform \<Rightarrow> world handler \<Rightarrow> world handler" where
  "link_handover_imminent_indication pf h i out =
     seq (reset_if_local i) (seq (source_if_local i) (seq (forward_to pf h i (\<lambda>s. er_event s = 5)) (ret False)))"

definition link_handover_complete_indication :: "platform \<Rightarrow> world handler \<Rightarrow> world handler" where
  "link_handover_complete_indication pf h i out = seq (reset_if_local i) (bnd (msg i) (\<lambda>im.
     bnd (mih_read i (indication Link_handover_complete)
           (bnd (rd tlv_link_identifier) (\<lambda>oli. bnd (rd tlv_new_link_identifier) (\<lambda>nli.
            bnd (rd_opt tlv_old_access_router) (\<lambda>oar. bnd (rd_opt tlv_new_access_router) (\<lambda>nar.
            seq (on_cond (mm_local im) (seq (rd tlv_status) (ret ()))) (ret (oli, nli, oar, nar)))))))) (\<lambda>(oli, nli, oar, nar).
     seq (mih_write i (indication Link_handover_complete)
           (seq (wr tlv_link_identifier oli) (seq (wr tlv_new_link_identifier nli)
           (seq (wr_opt tlv_old_access_router oar) (wr_opt tlv_new_access_router nar)))))
     (seq (source_if_local i) (seq (forward_to pf h i (\<lambda>s. er_event s = 6)) (ret False))))))"

definition link_pdu_transmit_status_indication :: "platform \<Rightarrow> world handler \<Rightarrow> world handler" where
  "link_pdu_transmit_status_indication = link_indication 7"

definition link_conf_required_indication :: "platform \<Rightarrow> world handler \<Rightarrow> world handler" where
  "link_conf_required_indication = link_indication 8"

definition l3_conf_required_indication :: "platform \<Rightarrow> world handler \<Rightarrow> world handler" where
  "l3_conf_required_indication = link_indication 9"

end
