(* ===== verification/Mihf_Command.thy ===== *)
theory Mihf_Command
  imports Mihf_System
begin

text \<open>
  The command service, \<open>command_service.cpp\<close>: commands for the local links, which are passed to
  the Link SAPs and whose confirmations are gathered until a timer expires, and the handover
  commands between MIHFs, which are passed to the MIH-Users.
\<close>

section \<open>Shared steps\<close>

definition set_command_timer :: "timeout \<Rightarrow> mptr \<Rightarrow> (world, unit) eff" where
  "set_command_timer k i = upd (\<lambda>w. w\<lparr>w_command_timer := map_store (m_tid (n_heap w i))
     \<lparr>tm_calls = k, tm_in = i, tm_pending = True\<rparr> (w_command_timer w)\<rparr>)"

definition erase_command_timer :: "mptr \<Rightarrow> (world, unit) eff" where
  "erase_command_timer i = upd (\<lambda>w. w\<lparr>w_command_timer := map_erase (m_tid (n_heap w i)) (w_command_timer w)\<rparr>)"

text \<open>\<open>out\<close> as the late answer to \<open>in\<close>, with the address \<open>in\<close> came from.\<close>

definition respond_late :: "platform \<Rightarrow> world handler \<Rightarrow> mptr \<Rightarrow> mptr \<Rightarrow> (world, unit) eff" where
  "respond_late pf h i out = seq (respond_to i out) (bnd (msg i) (\<lambda>im.
     seq (msg_upd out (\<lambda>m. m\<lparr>mm_ip := mm_ip im, mm_scope := mm_scope im, mm_port := mm_port im\<rparr>))
     (transmit pf h out)))"

text \<open>A response from a peer that is passed on to the user that waits for it.\<close>

definition forward_response :: "platform \<Rightarrow> world handler \<Rightarrow> world handler" where
  "forward_response pf h i out = bnd (set_user_tid i) (\<lambda>b.
     if \<not> b then ret False else seq (transmit pf h i) (ret False))"

section \<open>Link parameters\<close>

text \<open>
  The loop over the Link SAPs of \<open>link_get_parameters_response_handler\<close>: the status responses
  of this transaction, in the order of the identifiers, are taken out of the pool.
\<close>

fun collect_status :: "u16 \<Rightarrow> mihf_id list \<Rightarrow> status_rsp list \<Rightarrow> (world, status_rsp list) eff" where
  "collect_status tid [] srl = ret srl"
| "collect_status tid (ident # ids) srl =
     bnd (gets (\<lambda>w. lrpool_check tid ident (w_lrpool w))) (\<lambda>b.
     if b then
       bnd (gets (\<lambda>w. lbook_get (w_lbook w) ident)) (\<lambda>r. bnd (of_sum r) (\<lambda>a.
       bnd (gets (\<lambda>w. lrpool_find tid ident (w_lrpool w))) (\<lambda>r. bnd (of_sum r) (\<lambda>tmp.
       seq (upd (\<lambda>w. w\<lparr>w_lrpool := lrpool_del tid ident (w_lrpool w)\<rparr>))
       (case plr_response tmp of
          Action_response _ \<Rightarrow> throw bad_get
        | Status_response lsr \<Rightarrow> collect_status tid ids (srl @ [\<lparr>sr_id = le_link_id a, sr_rsp = lsr\<rparr>]))))))
     else collect_status tid ids srl)"

definition link_get_parameters_response_handler :: "platform \<Rightarrow> world handler \<Rightarrow> mptr \<Rightarrow> (world, unit) eff" where
  "link_get_parameters_response_handler pf h i =
     seq (erase_command_timer i)
     (bnd (msg_new meta_message_new) (\<lambda>out. bnd (msg i) (\<lambda>im.
     bnd (gets (\<lambda>w. lbook_get_ids (w_lbook w))) (\<lambda>ids. bnd (collect_status (m_tid im) ids []) (\<lambda>srl.
     seq (if srl \<noteq> []
          then mih_write out (response Link_get_parameters)
                 (seq (wr tlv_status status_success) (wr (tlv_get_status_rsp_list (pf_desc pf)) srl))
          else mih_write out (response Link_get_parameters) (wr tlv_status status_failure))
     (respond_late pf h i out))))))"

definition link_get_parameters_request :: "platform \<Rightarrow> world handler \<Rightarrow> world handler" where
  "link_get_parameters_request pf h i out = bnd (is_dest i) (\<lambda>b.
     if b then
       bnd (mih_read i (request Link_get_parameters) (bnd (rd_opt tlv_dev_states_req) (\<lambda>d.
              bnd (rd tlv_link_id_list) (\<lambda>l. bnd (rd tlv_get_status_req_set) (\<lambda>s. ret (l, s)))))) (\<lambda>(lil, lsr).
       seq (mih_write out (request Link_get_parameters)
             (seq (wr tlv_link_parameters_req (lsq_param_type_list lsr))
             (seq (wr tlv_link_states_req (lsq_states_req lsr)) (wr tlv_link_descriptor_req (lsq_desc_req lsr)))))
       (bnd (msg i) (\<lambda>im. seq (msg_upd out (\<lambda>m. m\<lparr>m_tid := m_tid im\<rparr>)) (seq (set_source_mihfid out)
       (seq (for_each (\<lambda>lid. bnd (search_interface (lid_type lid) (lid_addr lid)) (\<lambda>dst.
              seq (set_dst out dst)
              (on_cond (dst \<noteq> []) (if_link_active dst (forward_request pf h out))))) lil)
       (seq (set_command_timer Get_parameters_timeout i) (ret False)))))))
     else seq (forward_request pf h i) (ret False))"

definition link_get_parameters_response :: "platform \<Rightarrow> world handler \<Rightarrow> world handler" where
  "link_get_parameters_response = forward_response"

definition link_get_parameters_confirm :: "platform \<Rightarrow> world handler \<Rightarrow> world handler" where
  "link_get_parameters_confirm pf h i out = bnd (msg i) (\<lambda>im.
     seq (on_lbook (lbook_reset (m_src im)))
     (bnd (set_user_tid i) (\<lambda>b.
      if b then
        bnd (mih_read i (confirm Link_get_parameters) (bnd (rd tlv_status) (\<lambda>st.
              bnd (rd_opt tlv_link_parameters_status_list) (\<lambda>lpl. bnd (rd_opt tlv_link_states_rsp) (\<lambda>lsrl.
              bnd (rd_opt (tlv_link_descriptor_rsp (pf_desc pf))) (\<lambda>ldrl. ret (st, lpl, lsrl, ldrl))))))) (\<lambda>(st, lpl, lsrl, ldrl).
        seq (on_cond (st = status_success)
              (bnd (deref lsrl) (\<lambda>lsrl. bnd (deref lpl) (\<lambda>lpl. bnd (deref ldrl) (\<lambda>ldrl.
               bnd (msg i) (\<lambda>im. upd (\<lambda>w. w\<lparr>w_lrpool := lrpool_add_status (m_src im) (m_tid im)
                 \<lparr>lsr_states_rsp_list = lsrl, lsr_param_list = lpl, lsr_desc_rsp_list = ldrl\<rparr> (w_lrpool w)\<rparr>)))))))
        (ret False))
      else ret False)))"

section \<open>Thresholds\<close>

definition link_configure_thresholds_response_timeout :: "platform \<Rightarrow> world handler \<Rightarrow> mptr \<Rightarrow> (world, unit) eff" where
  "link_configure_thresholds_response_timeout pf h i =
     seq (erase_command_timer i)
     (bnd (msg_new meta_message_new) (\<lambda>out.
     bnd (mih_read i (request Link_configure_thresholds) (rd tlv_link_identifier)) (\<lambda>link.
     seq (mih_write out (response Link_configure_thresholds) (seq (wr tlv_status status_failure) (wr tlv_link_identifier link)))
     (seq (respond_to i out) (transmit pf h out)))))"

definition link_configure_thresholds_request :: "platform \<Rightarrow> world handler \<Rightarrow> world handler" where
  "link_configure_thresholds_request pf h i out = bnd (is_dest i) (\<lambda>b.
     if b then
       bnd (mih_read i (request Link_configure_thresholds)
              (bnd (rd tlv_link_identifier) (\<lambda>l. bnd (rd tlv_link_cfg_param_list) (\<lambda>c. ret (l, c))))) (\<lambda>(lti, lcpl).
       seq (mih_write out (request Link_configure_thresholds) (wr tlv_link_cfg_param_list lcpl))
       (bnd (search_interface (lid_type lti) (lid_addr lti)) (\<lambda>dst. bnd (msg i) (\<lambda>im.
       seq (msg_upd out (\<lambda>m. m\<lparr>m_dst := dst, m_src := m_src im, m_tid := m_tid im\<rparr>))
       (if dst = [] then
          seq (mih_write out (response Link_configure_thresholds)
                (seq (wr tlv_status status_failure) (wr tlv_link_identifier lti)))
          (seq (respond_to i out) (ret True))
        else
          seq (if_link_active dst (seq (forward_request pf h out) (set_command_timer Configure_thresholds_timeout i)))
          (ret False))))))
     else seq (forward_request pf h i) (ret False))"

definition link_configure_thresholds_response :: "platform \<Rightarrow> world handler \<Rightarrow> world handler" where
  "link_configure_thresholds_response = forward_response"

definition link_configure_thresholds_confirm :: "platform \<Rightarrow> world handler \<Rightarrow> world handler" where
  "link_configure_thresholds_confirm pf h i out = bnd (msg i) (\<lambda>im.
     seq (on_lbook (lbook_reset (m_src im)))
     (seq (msg_upd out (\<lambda>m. m\<lparr>m_src := m_src im\<rparr>))
     (bnd (set_user_tid out) (\<lambda>b.
      if \<not> b then ret False
      else seq (erase_command_timer i)
        (bnd (gets (\<lambda>w. lbook_get (w_lbook w) (m_src (n_heap w i)))) (\<lambda>r. bnd (of_sum r) (\<lambda>sap.
        let li = \<lparr>lid_type = lid_type (le_link_id sap), lid_addr = lid_addr (le_link_id sap), poa_addr = None\<rparr> in
        bnd (mih_read i (confirm Link_configure_thresholds)
               (bnd (rd tlv_status) (\<lambda>s. bnd (rd_opt tlv_link_cfg_status_list) (\<lambda>c. ret (s, c))))) (\<lambda>(st, lcsl).
        seq (mih_write out (response Link_configure_thresholds)
              (seq (wr tlv_status st) (seq (wr tlv_link_identifier li) (wr_opt tlv_link_cfg_status_list lcsl))))
        (seq (set_source_mihfid out) (seq (transmit pf h out) (ret False)))))))))))"

section \<open>Link actions\<close>

text \<open>
  The loop of \<open>link_actions_response_handler\<close>. The response \<open>lar\<close> is declared before the loop
  and only the fields that are assigned change from one Link SAP to the next.
\<close>

fun collect_actions :: "u16 \<Rightarrow> mihf_id list \<Rightarrow> link_action_rsp \<Rightarrow> link_action_rsp list \<Rightarrow> (world, link_action_rsp list) eff" where
  "collect_actions tid [] lar larl = ret larl"
| "collect_actions tid (ident # ids) lar larl =
     bnd (gets (\<lambda>w. lrpool_check tid ident (w_lrpool w))) (\<lambda>b.
     if b then
       bnd (gets (\<lambda>w. lbook_get (w_lbook w) ident)) (\<lambda>r. bnd (of_sum r) (\<lambda>a.
       bnd (gets (\<lambda>w. lrpool_find tid ident (w_lrpool w))) (\<lambda>r. bnd (of_sum r) (\<lambda>tmp.
       seq (upd (\<lambda>w. w\<lparr>w_lrpool := lrpool_del tid ident (w_lrpool w)\<rparr>))
       (case plr_response tmp of
          Status_response _ \<Rightarrow> throw bad_get
        | Action_response ac \<Rightarrow>
            let lar = lar\<lparr>larsp_id := le_link_id a, larsp_result := ac_link_ac_result ac,
                  larsp_scan_list := (case ac_link_scan_rsp_list ac of None \<Rightarrow> larsp_scan_list lar | Some l \<Rightarrow> Some l)\<rparr> in
            collect_actions tid ids lar (larl @ [lar]))))))
     else collect_actions tid ids lar larl)"

definition link_action_rsp_new :: link_action_rsp where
  "link_action_rsp_new = dflt link_action_rsp_codec"

definition link_actions_response_handler :: "platform \<Rightarrow> world handler \<Rightarrow> mptr \<Rightarrow> (world, unit) eff" where
  "link_actions_response_handler pf h i =
     seq (erase_command_timer i)
     (bnd (msg_new meta_message_new) (\<lambda>out. bnd (msg i) (\<lambda>im.
     bnd (gets (\<lambda>w. lbook_get_ids (w_lbook w))) (\<lambda>ids. bnd (collect_actions (m_tid im) ids link_action_rsp_new []) (\<lambda>larl.
     seq (if larl \<noteq> []
          then mih_write out (response Link_actions)
                 (seq (wr tlv_status status_success) (wr tlv_link_action_rsp_list larl))
          else mih_write out (response Link_actions) (wr tlv_status status_failure))
     (respond_late pf h i out))))))"

definition link_actions_request :: "platform \<Rightarrow> world handler \<Rightarrow> world handler" where
  "link_actions_request pf h i out = bnd (is_dest i) (\<lambda>b.
     if b then
       bnd (mih_read i (request Link_actions) (rd tlv_link_action_list)) (\<lambda>lal.
       seq (for_each (\<lambda>lar. bnd (search_interface (lid_type (lareq_id lar)) (lid_addr (lareq_id lar))) (\<lambda>dst.
              seq (set_dst out dst)
              (on_cond (dst \<noteq> []) (if_link_active dst
                (seq (mih_write out (request Link_actions)
                       (seq (wr tlv_link_action (lareq_action lar)) (seq (wr tlv_time_interval (lareq_ex_time lar))
                         (case lareq_addr lar of
                            Some a \<Rightarrow> on_cond (bm_get (lac_attr (lareq_action lar)) 2) (wr tlv_poa a)
                          | None \<Rightarrow> ret ()))))
                (bnd (msg i) (\<lambda>im. seq (msg_upd out (\<lambda>m. m\<lparr>m_tid := m_tid im\<rparr>)) (seq (set_source_mihfid out)
                (forward_request pf h out))))))))) lal)
       (seq (set_command_timer Link_actions_timeout i) (ret False)))
     else seq (forward_request pf h i) (ret False))"

definition link_actions_response :: "platform \<Rightarrow> world handler \<Rightarrow> world handler" where
  "link_actions_response = forward_response"

definition link_actions_confirm :: "platform \<Rightarrow> world handler \<Rightarrow> world handler" where
  "link_actions_confirm pf h i out = bnd (msg i) (\<lambda>im.
     seq (on_lbook (lbook_reset (m_src im)))
     (bnd (set_user_tid i) (\<lambda>b.
      if b then
        bnd (mih_read i (confirm Link_actions) (bnd (rd tlv_status) (\<lambda>st.
              bnd (rd_opt tlv_link_scan_rsp_list) (\<lambda>lsrl. bnd (rd_opt tlv_link_ac_result) (\<lambda>lar. ret (st, lsrl, lar)))))) (\<lambda>(st, lsrl, lar).
        seq (on_cond (st = status_success) (bnd (deref lar) (\<lambda>lar. bnd (msg i) (\<lambda>im.
               upd (\<lambda>w. w\<lparr>w_lrpool := lrpool_add_action (m_src im) (m_tid im) lsrl lar (w_lrpool w)\<rparr>)))))
        (ret False))
      else ret False)))"


section \<open>Handover commands\<close>

definition generic_command_request :: "nat \<Rightarrow> platform \<Rightarrow> world handler \<Rightarrow> world handler" where
  "generic_command_request cmd pf h i out = bnd (is_dest i) (\<lambda>b.
     if b then
       seq (set_opcode i 3)
       (seq (for_users (\<lambda>ident. bnd (user_of ident) (\<lambda>user. case ue_supp_cmd user of
               None \<Rightarrow> ret ()
             | Some supp_cmd \<Rightarrow> on_cond (bm_get supp_cmd cmd)
                 (seq (set_dst i ident) (seq (lpool_add_msg i)
                 (seq (source_if_local i) (transmit pf h i)))))))
       (seq (set_opcode i 1) (ret False)))
     else seq (forward_request pf h i) (ret False))"

definition generic_command_response :: "platform \<Rightarrow> world handler \<Rightarrow> world handler" where
  "generic_command_response pf h i out = bnd (is_dest i) (\<lambda>b.
     if b then bnd (set_user_tid i) (\<lambda>b.
       if \<not> b then ret False else seq (set_opcode i 0) (seq (transmit pf h i) (ret False)))
     else bnd (set_user_tid i) (\<lambda>b.
       if \<not> b then ret False else seq (set_source_mihfid i) (seq (transmit pf h i) (ret False))))"

definition net_ho_candidate_query_request :: "platform \<Rightarrow> world handler \<Rightarrow> world handler" where
  "net_ho_candidate_query_request = generic_command_request 3"

definition net_ho_candidate_query_response :: "platform \<Rightarrow> world handler \<Rightarrow> world handler" where
  "net_ho_candidate_query_response = generic_command_response"

definition mn_ho_candidate_query_request :: "platform \<Rightarrow> world handler \<Rightarrow> world handler" where
  "mn_ho_candidate_query_request = generic_command_request 4"

definition mn_ho_candidate_query_response :: "platform \<Rightarrow> world handler \<Rightarrow> world handler" where
  "mn_ho_candidate_query_response = generic_command_response"

definition n2n_ho_query_resources_request :: "platform \<Rightarrow> world handler \<Rightarrow> world handler" where
  "n2n_ho_query_resources_request = generic_command_request 3"

definition n2n_ho_query_resources_response :: "platform \<Rightarrow> world handler \<Rightarrow> world handler" where
  "n2n_ho_query_resources_response = generic_command_response"

definition mn_ho_commit_request :: "platform \<Rightarrow> world handler \<Rightarrow> world handler" where
  "mn_ho_commit_request = generic_command_request 4"

definition mn_ho_commit_response :: "platform \<Rightarrow> world handler \<Rightarrow> world handler" where
  "mn_ho_commit_response = generic_command_response"

definition net_ho_commit_request :: "platform \<Rightarrow> world handler \<Rightarrow> world handler" where
  "net_ho_commit_request = generic_command_request 3"

definition net_ho_commit_response :: "platform \<Rightarrow> world handler \<Rightarrow> world handler" where
  "net_ho_commit_response = generic_command_response"

definition mn_ho_complete_request :: "platform \<Rightarrow> world handler \<Rightarrow> world handler" where
  "mn_ho_complete_request = generic_command_request 4"

definition mn_ho_complete_response :: "platform \<Rightarrow> world handler \<Rightarrow> world handler" where
  "mn_ho_complete_response = generic_command_response"

definition n2n_ho_commit_request :: "platform \<Rightarrow> world handler \<Rightarrow> world handler" where
  "n2n_ho_commit_request = generic_command_request 3"

definition n2n_ho_commit_response :: "platform \<Rightarrow> world handler \<Rightarrow> world handler" where
  "n2n_ho_commit_response = generic_command_response"

definition n2n_ho_complete_request :: "platform \<Rightarrow> world handler \<Rightarrow> world handler" where
  "n2n_ho_complete_request = generic_command_request 3"

definition n2n_ho_complete_response :: "platform \<Rightarrow> world handler \<Rightarrow> world handler" where
  "n2n_ho_complete_response = generic_command_response"

section \<open>Link and layer 3 configuration\<close>

definition link_conf_response_handler :: "platform \<Rightarrow> world handler \<Rightarrow> mptr \<Rightarrow> (world, unit) eff" where
  "link_conf_response_handler pf h i =
     seq (erase_command_timer i) (bnd (msg_new meta_message_new) (\<lambda>out.
     seq (mih_write out (response Link_conf) (wr tlv_status status_failure)) (respond_late pf h i out)))"

text \<open>
  The end of \<open>link_conf_request\<close> and \<open>l3_conf_request\<close>: when the SAP has just been switched off
  \<open>out\<close> is not written, and it is forwarded all the same.
\<close>

definition conf_to_link :: "platform \<Rightarrow> world handler \<Rightarrow> mptr \<Rightarrow> mptr \<Rightarrow> (world, unit) eff \<Rightarrow> (world, unit) eff" where
  "conf_to_link pf h i out wrt = bnd (msg out) (\<lambda>om. on_cond (m_dst om \<noteq> [])
     (seq (if_link_active (m_dst om) wrt)
     (bnd (msg i) (\<lambda>im. seq (msg_upd out (\<lambda>m. m\<lparr>m_tid := m_tid im, m_src := m_src im\<rparr>))
     (forward_request pf h out)))))"

definition link_conf_request :: "platform \<Rightarrow> world handler \<Rightarrow> world handler" where
  "link_conf_request pf h i out = bnd (is_dest i) (\<lambda>b.
     if b then
       bnd (mih_read i (request Link_conf) (bnd (rd tlv_link_identifier) (\<lambda>l.
              bnd (rd_opt tlv_poa) (\<lambda>p. bnd (rd tlv_configuration_list) (\<lambda>c. ret (l, p, c)))))) (\<lambda>(lti, poa, confl).
       bnd (search_interface (lid_type lti) (lid_addr lti)) (\<lambda>dst. seq (set_dst out dst)
       (seq (conf_to_link pf h i out (mih_write out (request Link_conf)
              (seq (wr tlv_link_identifier lti) (seq (wr_opt tlv_poa poa) (wr tlv_configuration_list confl)))))
       (seq (set_command_timer Link_conf_timeout i) (ret False)))))
     else seq (forward_request pf h i) (ret False))"

definition conf_confirm :: "platform \<Rightarrow> world handler \<Rightarrow> world handler" where
  "conf_confirm pf h i out = bnd (msg i) (\<lambda>im.
     seq (on_lbook (lbook_reset (m_src im)))
     (bnd (set_user_tid i) (\<lambda>b.
      if b then seq (erase_command_timer i) (seq (transmit pf h i) (ret False)) else ret False)))"

definition link_conf_confirm :: "platform \<Rightarrow> world handler \<Rightarrow> world handler" where
  "link_conf_confirm = conf_confirm"

definition link_conf_response :: "platform \<Rightarrow> world handler \<Rightarrow> world handler" where
  "link_conf_response = forward_response"

definition l3_conf_response_handler :: "platform \<Rightarrow> world handler \<Rightarrow> mptr \<Rightarrow> (world, unit) eff" where
  "l3_conf_response_handler pf h i =
     seq (erase_command_timer i) (bnd (msg_new meta_message_new) (\<lambda>out.
     seq (mih_write out (response L3_conf) (wr tlv_status status_failure)) (respond_late pf h i out)))"

definition l3_conf_request :: "platform \<Rightarrow> world handler \<Rightarrow> world handler" where
  "l3_conf_request pf h i out = bnd (is_dest i) (\<lambda>b.
     if b then
       bnd (mih_read i (request L3_conf) (bnd (rd tlv_link_identifier) (\<lambda>l. bnd (rd tlv_ip_cfg_methods) (\<lambda>c.
              bnd (rd_opt tlv_ip_addr_list) (\<lambda>a. bnd (rd_opt tlv_ip_route_list) (\<lambda>r. bnd (rd_opt tlv_ip_dns_list) (\<lambda>d.
              bnd (rd_opt tlv_fqdn_list) (\<lambda>f. ret (l, c, a, r, d, f)))))))))
         (\<lambda>(lti, cfg_methods, address_list, route_list, dns_list, domain_list).
       bnd (search_interface (lid_type lti) (lid_addr lti)) (\<lambda>dst. seq (set_dst out dst)
       (seq (conf_to_link pf h i out (mih_write out (request L3_conf)
              (seq (wr tlv_link_identifier lti) (seq (wr tlv_ip_cfg_methods cfg_methods)
              (seq (wr_opt tlv_ip_addr_list address_list) (seq (wr_opt tlv_ip_route_list route_list)
              (seq (wr_opt tlv_ip_dns_list dns_list) (wr_opt tlv_fqdn_list domain_list))))))))
       (seq (set_command_timer L3_conf_timeout i) (ret False)))))
     else seq (forward_request pf h i) (ret False))"

definition l3_conf_confirm :: "platform \<Rightarrow> world handler \<Rightarrow> world handler" where
  "l3_conf_confirm = conf_confirm"

definition l3_conf_response :: "platform \<Rightarrow> world handler \<Rightarrow> world handler" where
  "l3_conf_response = forward_response"

end
