(* ===== verification/Mihf_Information.thy ===== *)
theory Mihf_Information
  imports Mihf_System
begin

text \<open>
  The information service, \<open>information_service.cpp\<close>: queries are passed to the MIH-Users that
  support them and answers back to the user or peer that asked.
\<close>

definition get_information_request :: "platform \<Rightarrow> world handler \<Rightarrow> world handler" where
  "get_information_request pf h i out = bnd (is_dest i) (\<lambda>b.
     if b then
       seq (set_opcode i 3)
       (seq (for_users (\<lambda>ident. bnd (user_of ident) (\<lambda>user. on_cond (ue_supp_iq user \<noteq> None)
              (seq (set_dst i ident) (seq (lpool_add_msg i) (seq (source_if_local i) (transmit pf h i)))))))
       (seq (set_opcode i 1) (ret False)))
     else seq (forward_request pf h i) (ret False))"

definition get_information_response :: "platform \<Rightarrow> world handler \<Rightarrow> world handler" where
  "get_information_response pf h i out = bnd (is_dest i) (\<lambda>b.
     if b then bnd (set_user_tid i) (\<lambda>b.
       if \<not> b then ret False else seq (set_opcode i 0) (seq (transmit pf h i) (ret False)))
     else bnd (set_user_tid i) (\<lambda>b.
       if \<not> b then ret False else seq (set_source_mihfid i) (seq (transmit pf h i) (ret False))))"

definition push_information_request :: "platform \<Rightarrow> world handler \<Rightarrow> world handler" where
  "push_information_request pf h i out = bnd (is_dest i) (\<lambda>b.
     if b then
       seq (set_opcode i 3)
       (seq (for_users (\<lambda>ident. bnd (user_of ident) (\<lambda>user. on_cond (ue_supp_iq user \<noteq> None)
              (seq (set_dst i ident) (seq (source_if_local i) (transmit pf h i))))))
       (seq (set_opcode i 1) (ret False)))
     else seq (set_opcode i 3) (seq (forward_request pf h i) (ret False)))"

definition push_information_indication :: "platform \<Rightarrow> world handler \<Rightarrow> world handler" where
  "push_information_indication pf h i out = bnd (is_dest i) (\<lambda>b.
     if b then
       seq (set_opcode i 3)
       (seq (for_users (\<lambda>ident. bnd (user_of ident) (\<lambda>_. seq (set_dst i ident) (transmit pf h i))))
       (ret False))
     else ret False)"

end
