(* ===== verification/Mihf_Management.thy ===== *)
theory Mihf_Management
  imports Mihf_System
begin

text \<open>
  The management service, \<open>service_management.cpp\<close>: capability discovery, registration between
  MIHFs and registration of Link SAPs and MIH-Users; and the discovery of points of service,
  \<open>discover_service.cpp\<close>.
\<close>

section \<open>Discovery of points of service\<close>

definition send_out :: "platform \<Rightarrow> world handler \<Rightarrow> bool \<Rightarrow> mptr \<Rightarrow> (world, unit) eff" where
  "send_out pf h unsolicited out = (if \<not> unsolicited then forward_request pf h out else transmit pf h out)"

definition discover_request :: "platform \<Rightarrow> world handler \<Rightarrow> mptr \<Rightarrow> (world, unit) eff" where
  "discover_request pf h i = bnd (gets w_dscv_order) (\<lambda>order. case order of
     [] \<Rightarrow> throw undefined_behaviour
   | front # _ \<Rightarrow> seq (set_dst i front) (seq (set_opcode i 3) (forward_request pf h i)))"

definition request_pos_capabilities :: "platform \<Rightarrow> world handler \<Rightarrow> mptr \<Rightarrow> mos_info \<Rightarrow> bool \<Rightarrow> (world, unit) eff" where
  "request_pos_capabilities pf h out pos unsolicited =
     seq (msg_upd out (\<lambda>m. m\<lparr>mm_ip := ip_address (mos_ip pos), mm_port := mos_port pos, m_dst := mos_id pos\<rparr>))
     (send_out pf h unsolicited out)"

text \<open>
  One of the three loops over the points of service found: those with an address are asked for
  their capabilities, those without are kept as \<open>missing\<close>. The loop returns what has been asked
  so far and what is missing.
\<close>

fun discover_found :: "platform \<Rightarrow> world handler \<Rightarrow> mptr \<Rightarrow> bool \<Rightarrow> mos_info list \<Rightarrow> mos_info list \<Rightarrow> mos_info list
    \<Rightarrow> (world, mos_info list \<times> mos_info list) eff" where
  "discover_found pf h out unsolicited [] asked missing = ret (asked, missing)"
| "discover_found pf h out unsolicited (pos # poss) asked missing =
     (if list_ex (\<lambda>s. mos_info_eq s pos) asked then discover_found pf h out unsolicited poss asked missing
      else if ip_address (mos_ip pos) = [] then discover_found pf h out unsolicited poss asked (missing @ [pos])
      else seq (request_pos_capabilities pf h out pos unsolicited)
        (discover_found pf h out unsolicited poss (asked @ [pos]) missing))"

text \<open>
  \<open>++it\<close> on the position of the mechanism that answered: the next mechanism, or none when it
  was the last. The source of \<open>in\<close> is in the list, which the caller has tested.
\<close>

definition next_mechanism :: "octet_string list \<Rightarrow> octet_string \<Rightarrow> (world, octet_string option) eff" where
  "next_mechanism order source = (case dropWhile (\<lambda>m. m \<noteq> source) order of
     [] \<Rightarrow> throw undefined_behaviour
   | [_] \<Rightarrow> ret None
   | _ # m # _ \<Rightarrow> ret (Some m))"

definition write_capabilities :: "address_entry \<Rightarrow> (oarchive, unit) eff" where
  "write_capabilities c =
     seq (wr_opt tlv_net_type_addr_list (ae_list_net_type_addr c)) (seq (wr_opt tlv_event_list (ae_event_list c))
     (seq (wr_opt tlv_command_list (ae_cmd_list c)) (seq (wr_opt tlv_query_type_list (ae_query_type c))
     (seq (wr_opt tlv_transport_option_list (ae_trans_list c)) (wr_opt tlv_mbb_ho_supp_list (ae_mbb_ho_supp c))))))"

definition local_capabilities :: "(world, address_entry) eff" where
  "local_capabilities = bnd (gets (\<lambda>w. abook_get (n_abook w) (n_mihfid w))) of_sum"

definition read_capabilities :: "address_entry \<Rightarrow> (iarchive, address_entry) eff" where
  "read_capabilities e =
     bnd (rd_opt tlv_net_type_addr_list) (\<lambda>n. bnd (rd_opt tlv_event_list) (\<lambda>ev. bnd (rd_opt tlv_command_list) (\<lambda>c.
     bnd (rd_opt tlv_query_type_list) (\<lambda>q. bnd (rd_opt tlv_transport_option_list) (\<lambda>t.
     bnd (rd_opt tlv_mbb_ho_supp_list) (\<lambda>b.
     ret (e\<lparr>ae_list_net_type_addr := n, ae_event_list := ev, ae_cmd_list := c, ae_query_type := q,
       ae_trans_list := t, ae_mbb_ho_supp := b\<rparr>)))))))"

definition address_entry_new :: "octet_string \<Rightarrow> u16 \<Rightarrow> address_entry" where
  "address_entry_new ip port = \<lparr>ae_ip = ip, ae_port = port, ae_list_net_type_addr = None, ae_event_list = None,
     ae_cmd_list = None, ae_query_type = None, ae_trans_list = None, ae_mbb_ho_supp = None,
     ae_reg_link_list = None, ae_reg_interval = None\<rparr>"

text \<open>The branch of a positive answer, and that of an answer that found nothing.\<close>

definition discover_ask_found :: "platform \<Rightarrow> world handler \<Rightarrow> bool \<Rightarrow> mos_dscv \<Rightarrow> mptr \<Rightarrow> mptr \<Rightarrow> (world, unit) eff" where
  "discover_ask_found pf h unsolicited dscv i out =
     bnd (discover_found pf h out unsolicited (mosd_is dscv) [] []) (\<lambda>(asked, mis).
     bnd (discover_found pf h out unsolicited (mosd_cs dscv) asked []) (\<lambda>(asked, mcs).
     bnd (discover_found pf h out unsolicited (mosd_es dscv) asked []) (\<lambda>(asked, mes).
     on_cond (mis @ mcs @ mes \<noteq> [])
       (bnd (gets w_dscv_order) (\<lambda>order. bnd (msg i) (\<lambda>im. bnd (next_mechanism order (m_src im)) (\<lambda>nxt.
       case nxt of
         Some m \<Rightarrow> seq (mih_write out (indication Capability_discover)
             (wr tlv_mos_dscv \<lparr>mosd_is = mis, mosd_cs = mcs, mosd_es = mes\<rparr>))
           (seq (set_dst out m) (send_out pf h unsolicited out))
       | None \<Rightarrow> seq (set_dst out []) (send_out pf h unsolicited out))))))))"

definition discover_try_next :: "platform \<Rightarrow> world handler \<Rightarrow> bool \<Rightarrow> mptr \<Rightarrow> mptr \<Rightarrow> (world, unit) eff" where
  "discover_try_next pf h unsolicited i out =
     bnd (gets w_dscv_order) (\<lambda>order. bnd (msg i) (\<lambda>im. bnd (next_mechanism order (m_src im)) (\<lambda>nxt.
     case nxt of
       Some m \<Rightarrow> seq (mih_write out (indication Capability_discover) (ret ()))
         (seq (set_dst out m) (send_out pf h unsolicited out))
     | None \<Rightarrow> seq (msg_upd out (\<lambda>om. om\<lparr>m_src := m_dst im, m_dst := []\<rparr>)) (send_out pf h unsolicited out))))"

definition discover_response :: "platform \<Rightarrow> world handler \<Rightarrow> mptr \<Rightarrow> mptr \<Rightarrow> (world, unit) eff" where
  "discover_response pf h i out = bnd (set_user_tid i) (\<lambda>b. bnd (gets w_unsolicited) (\<lambda>enable.
     if \<not> b \<and> \<not> enable then ret ()
     else let unsolicited = (\<not> b) in
       seq (if unsolicited then set_source_mihfid out
            else bnd (msg i) (\<lambda>im. msg_upd out (\<lambda>m. m\<lparr>m_src := m_dst im\<rparr>)))
       (bnd (mih_read i (response Capability_discover) (bnd (rd tlv_status) (\<lambda>st.
              seq (read_capabilities (address_entry_new [] 0)) (bnd (rd_opt tlv_mos_dscv) (\<lambda>d. ret (st, d)))))) (\<lambda>(st, dscv).
       bnd local_capabilities (\<lambda>mihf_cap.
       seq (mih_write out (request Capability_discover) (write_capabilities mihf_cap))
       (bnd (msg i) (\<lambda>im. seq (msg_upd out (\<lambda>m. m\<lparr>m_dst := [], m_tid := m_tid im\<rparr>))
       (case dscv of
          Some d \<Rightarrow> if st = status_success then discover_ask_found pf h unsolicited d i out
                    else discover_try_next pf h unsolicited i out
        | None \<Rightarrow> discover_try_next pf h unsolicited i out))))))))"

section \<open>Capabilities\<close>

text \<open>The constructor: the capabilities of every Link SAP of the configuration are asked for.\<close>

definition service_management_init :: "platform \<Rightarrow> world handler \<Rightarrow> (world, unit) eff" where
  "service_management_init pf h = seq update_capabilities
     (bnd (gets (\<lambda>w. lbook_get_ids (w_lbook w))) (for_each (\<lambda>ident.
       bnd (msg_new meta_message_new) (\<lambda>out.
       seq (mih_write out (request Capability_discover) (ret ()))
       (seq (msg_upd out (\<lambda>m. m\<lparr>m_tid := 0, m_dst := ident\<rparr>)) (forward_request pf h out))))))"

definition link_capability_discover_request :: "platform \<Rightarrow> world handler \<Rightarrow> world handler" where
  "link_capability_discover_request pf h i out =
     seq (mih_write out (request Capability_discover) (ret ()))
     (bnd (msg i) (\<lambda>im. seq (msg_upd out (\<lambda>m. m\<lparr>m_tid := m_tid im, m_dst := m_src im\<rparr>))
     (seq (if_link_active (m_src im) (forward_request pf h out)) (ret False))))"

definition piggyback_capabilities :: "mptr \<Rightarrow> mptr \<Rightarrow> (world, unit) eff" where
  "piggyback_capabilities i out = bnd local_capabilities (\<lambda>mihf_cap.
     seq (mih_write out (request Capability_discover) (write_capabilities mihf_cap))
     (bnd (msg i) (\<lambda>im. msg_upd out (\<lambda>m. m\<lparr>m_tid := m_tid im, m_src := m_src im, m_dst := m_dst im\<rparr>))))"

definition get_capabilities :: "mptr \<Rightarrow> (world, unit) eff" where
  "get_capabilities i = bnd (msg i) (\<lambda>im.
     let mihf_info = address_entry_new (mm_ip im) (mm_port im) in
     bnd (if msg_opcode im = 1 then mih_read i (request Capability_discover) (read_capabilities mihf_info)
          else if msg_opcode im = 2
          then mih_read i (response Capability_discover) (seq (rd tlv_status) (read_capabilities mihf_info))
          else ret mihf_info) (\<lambda>mihf_info.
     on_abook (upd (abook_add (m_src im) mihf_info))))"

definition set_capability_discover_response :: "mptr \<Rightarrow> mptr \<Rightarrow> (world, unit) eff" where
  "set_capability_discover_response i out = bnd local_capabilities (\<lambda>mihf_cap.
     seq (mih_write out (response Capability_discover) (seq (wr tlv_status status_success) (write_capabilities mihf_cap)))
     (respond_to i out))"

definition send_indication :: "platform \<Rightarrow> world handler \<Rightarrow> mptr \<Rightarrow> (world, unit) eff" where
  "send_indication pf h i = bnd (gets (\<lambda>w. ubook_get_ids (w_ubook w))) (\<lambda>ids. bnd (gets w_dscv_order) (\<lambda>order.
     seq (set_opcode i 3) (for_each (\<lambda>ident. on_cond (ident \<notin> set order) (seq (set_dst i ident) (transmit pf h i))) ids)))"


definition capability_discover_request :: "platform \<Rightarrow> world handler \<Rightarrow> world handler" where
  "capability_discover_request pf h i out = bnd (msg i) (\<lambda>im. bnd (is_dest i) (\<lambda>here. bnd (gets w_dscv_order) (\<lambda>order.
     if mm_local im \<and> \<not> here then
       if is_multicast im \<and> order \<noteq> [] then seq (discover_request pf h i) (ret False)
       else seq (piggyback_capabilities i out) (seq (forward_request pf h out) (ret False))
     else if mm_local im \<and> here then seq (set_capability_discover_response i out) (ret True)
     else if here \<or> is_multicast im then
       seq (get_capabilities i) (seq (send_indication pf h i)
       (seq (set_capability_discover_response i out) (ret True)))
     else ret False)))"

definition capability_discover_response :: "platform \<Rightarrow> world handler \<Rightarrow> world handler" where
  "capability_discover_response pf h i out = bnd (msg i) (\<lambda>im. bnd (gets w_dscv_order) (\<lambda>order.
     if mm_local im \<and> m_src im \<in> set order then seq (discover_response pf h i out) (ret False)
     else seq (get_capabilities i) (bnd (set_user_tid i) (\<lambda>b.
       if b then seq (set_opcode i 0) (seq (transmit pf h i) (ret False))
       else bnd (msg i) (\<lambda>im. let tmp = m_src im in
         seq (msg_upd i (\<lambda>m. m\<lparr>m_src := []\<rparr>)) (bnd (set_user_tid i) (\<lambda>b.
         if b then seq (set_opcode i 0) (seq (msg_upd i (\<lambda>m. m\<lparr>m_src := tmp\<rparr>)) (seq (transmit pf h i) (ret False)))
         else bnd (gets w_unsolicited) (\<lambda>enable.
           if enable then seq (for_users (\<lambda>user.
               seq (set_opcode i 0) (seq (set_source_mihfid i) (seq (set_dst i user) (transmit pf h i))))) (ret False)
           else ret False))))))))"

definition capability_discover_confirm :: "platform \<Rightarrow> world handler \<Rightarrow> world handler" where
  "capability_discover_confirm pf h i out = bnd (msg i) (\<lambda>im.
     seq (on_lbook (lbook_reset (m_src im)))
     (bnd (set_user_tid i) (\<lambda>b.
      if \<not> b then ret False
      else bnd (mih_read i (confirm Capability_discover) (bnd (rd tlv_status) (\<lambda>s. bnd (rd_opt tlv_link_evt_list) (\<lambda>e.
                 bnd (rd_opt tlv_link_cmd_list) (\<lambda>c. ret (s, e, c)))))) (\<lambda>(st, event, command).
        seq (on_cond (st = status_success)
          (bnd (deref event) (\<lambda>event. bnd (deref command) (\<lambda>command. bnd (msg i) (\<lambda>im.
            seq (on_lbook (upd (lbook_update_capabilities (m_src im) event command))) update_capabilities)))))
        (ret False)))))"

section \<open>Registration\<close>

definition register_request :: "platform \<Rightarrow> world handler \<Rightarrow> world handler" where
  "register_request pf h i out = bnd (is_dest i) (\<lambda>b.
     if b then bnd (msg i) (\<lambda>im.
       seq (if mm_local im then set_source_mihfid i
            else bnd (mih_read i (request Mih_register) (rd tlv_link_id_list)) (\<lambda>lil.
              on_abook (upd (abook_set_registration_links (m_src im) (Some lil)))))
       (seq (set_opcode i 3)
       (seq (for_users (\<lambda>ident. seq (set_dst i ident) (seq (lpool_add_msg i) (transmit pf h i))))
       (seq (set_opcode i 1) (ret False)))))
     else
       bnd (mih_read i (request Mih_register) (rd tlv_link_id_list)) (\<lambda>lil. bnd (msg i) (\<lambda>im.
       seq (on_abook (upd (abook_set_registration_links (m_dst im) (Some lil))))
       (seq (forward_request pf h i) (ret False)))))"

text \<open>
  Both branches read the response as if it were a confirmation: the identifier of \<open>in\<close> is that
  of a response, so the assertion of \<open>operator>>\<close> fails.
\<close>

definition register_response :: "platform \<Rightarrow> world handler \<Rightarrow> world handler" where
  "register_response pf h i out = bnd (is_dest i) (\<lambda>here. bnd (set_user_tid i) (\<lambda>b.
     if \<not> b then ret False
     else bnd (mih_read i (confirm Mih_register)
                (bnd (rd tlv_status) (\<lambda>s. bnd (rd tlv_time_interval) (\<lambda>t. ret (s, t))))) (\<lambda>(st, interval). bnd (msg i) (\<lambda>im.
       seq (on_cond (st = status_success) (on_abook (upd
              (abook_set_registration_interval (if here then m_src im else m_dst im) (Some interval)))))
       (seq (if here then set_opcode i 0 else set_source_mihfid i) (seq (transmit pf h i) (ret False)))))))"

definition deregister_request :: "platform \<Rightarrow> world handler \<Rightarrow> world handler" where
  "deregister_request pf h i out = bnd (is_dest i) (\<lambda>b.
     if b then
       seq (source_if_local i) (seq (set_opcode i 3)
       (seq (for_users (\<lambda>ident. seq (set_dst i ident) (seq (lpool_add_msg i) (transmit pf h i))))
       (seq (set_opcode i 1) (ret False))))
     else seq (forward_request pf h i) (ret False))"

definition deregister_response :: "platform \<Rightarrow> world handler \<Rightarrow> world handler" where
  "deregister_response pf h i out = bnd (is_dest i) (\<lambda>here. bnd (set_user_tid i) (\<lambda>b.
     if \<not> b then ret False
     else bnd (mih_read i (confirm Mih_deregister) (rd tlv_status)) (\<lambda>st. bnd (msg i) (\<lambda>im.
       let peer = if here then m_src im else m_dst im in
       seq (on_cond (st = status_success) (seq (on_abook (upd (abook_set_registration_links peer None)))
              (on_abook (upd (abook_set_registration_interval peer None)))))
       (seq (if here then set_opcode i 0 else set_source_mihfid i) (seq (transmit pf h i) (ret False)))))))"

definition link_register_indication :: "platform \<Rightarrow> world handler \<Rightarrow> world handler" where
  "link_register_indication pf h i out =
     bnd (mih_read i 0 (rd tlv_interface_type_addr)) (\<lambda>lid. bnd (msg i) (\<lambda>im.
     seq (on_lbook (upd (lbook_add (m_src im) (mm_ip im) (mm_port im) lid)))
     (bnd local_capabilities (\<lambda>mihf_cap. bnd (gets n_mihfid) (\<lambda>mihfid.
     let nta = link_net_type_addr lid in
     seq (on_abook (upd (abook_add mihfid (mihf_cap\<lparr>ae_list_net_type_addr :=
           Some (case ae_list_net_type_addr mihf_cap of Some l \<Rightarrow> l @ [nta] | None \<Rightarrow> [nta])\<rparr>))))
     (seq (link_capability_discover_request pf h i out) (ret False)))))))"

definition user_register_indication :: "platform \<Rightarrow> world handler \<Rightarrow> world handler" where
  "user_register_indication pf h i out =
     bnd (mih_read i 0 (bnd (rd_opt tlv_command_list) (\<lambda>c. bnd (rd_opt tlv_query_type_list) (\<lambda>q. ret (c, q))))) (\<lambda>(supp_cmd, supp_iq).
     bnd (msg i) (\<lambda>im.
     seq (upd (\<lambda>w. w\<lparr>w_ubook := ubook_add (m_src im) (mm_ip im) (mm_port im) supp_cmd supp_iq (w_ubook w)\<rparr>))
     (seq update_capabilities (ret False))))"

end
