(* ===== verification/Mihf_Daemon.thy ===== *)
theory Mihf_Daemon
  imports Mihf_Event Mihf_Command Mihf_Information Mihf_Management
begin

text \<open>
  The whole MIHF as \<open>main.cpp\<close> puts it together: the table of message handlers, the handler of
  messages from peers, and the events of the single thread that runs the \<open>io_service\<close>.
\<close>

section \<open>Registration of the handlers\<close>

text \<open>\<open>sac_register_callback\<close> stores in the table; the last registration of an identifier wins.\<close>

type_synonym registrations = "(u16 \<times> world handler) list"

definition sac_register_callback :: "u16 \<times> world handler \<Rightarrow> callbacks \<Rightarrow> callbacks" where
  "sac_register_callback r cb = cb(fst r \<mapsto> snd r)"

definition sm_register_callbacks :: "platform \<Rightarrow> world handler \<Rightarrow> registrations" where
  "sm_register_callbacks pf h =
    [(request Capability_discover, capability_discover_request pf h),
     (response Capability_discover, capability_discover_response pf h),
     (confirm Capability_discover, capability_discover_confirm pf h),
     (request Mih_register, register_request pf h),
     (response Mih_register, register_response pf h),
     (request Mih_deregister, deregister_request pf h),
     (response Mih_deregister, deregister_response pf h),
     (indication Link_register, link_register_indication pf h),
     (indication User_register, user_register_indication pf h)]"

definition mies_register_callbacks :: "platform \<Rightarrow> world handler \<Rightarrow> registrations" where
  "mies_register_callbacks pf h =
    [(request Event_subscribe, event_subscribe_request pf h),
     (response Event_subscribe, event_subscribe_response pf h),
     (confirm Event_subscribe, event_subscribe_confirm pf h),
     (indication Link_up, link_up_indication pf h),
     (indication Link_down, link_down_indication pf h),
     (indication Link_detected, link_detected_indication pf h),
     (indication Link_going_down, link_going_down_indication pf h),
     (indication Link_parameters_report, link_parameters_report_indication pf h),
     (indication Link_handover_imminent, link_handover_imminent_indication pf h),
     (indication Link_handover_complete, link_handover_complete_indication pf h),
     (request Event_unsubscribe, event_unsubscribe_request pf h),
     (response Event_unsubscribe, event_unsubscribe_response pf h),
     (confirm Event_unsubscribe, event_unsubscribe_confirm pf h),
     (indication Link_conf_required, link_conf_required_indication pf h),
     (indication L3_conf_required, l3_conf_required_indication pf h)]"

definition mics_register_callbacks :: "platform \<Rightarrow> world handler \<Rightarrow> registrations" where
  "mics_register_callbacks pf h =
    [(request Link_get_parameters, link_get_parameters_request pf h),
     (response Link_get_parameters, link_get_parameters_response pf h),
     (confirm Link_get_parameters, link_get_parameters_confirm pf h),
     (request Link_configure_thresholds, link_configure_thresholds_request pf h),
     (response Link_configure_thresholds, link_configure_thresholds_response pf h),
     (confirm Link_configure_thresholds, link_configure_thresholds_confirm pf h),
     (request Link_actions, link_actions_request pf h),
     (response Link_actions, link_actions_response pf h),
     (confirm Link_actions, link_actions_confirm pf h),
     (request Net_ho_candidate_query, net_ho_candidate_query_request pf h),
     (response Net_ho_candidate_query, net_ho_candidate_query_response pf h),
     (request Mn_ho_candidate_query, mn_ho_candidate_query_request pf h),
     (response Mn_ho_candidate_query, mn_ho_candidate_query_response pf h),
     (request N2n_ho_query_resources, n2n_ho_query_resources_request pf h),
     (response N2n_ho_query_resources, n2n_ho_query_resources_response pf h),
     (request Mn_ho_commit, mn_ho_commit_request pf h),
     (response Mn_ho_commit, mn_ho_commit_response pf h),
     (request Net_ho_commit, net_ho_commit_request pf h),
     (response Net_ho_commit, net_ho_commit_response pf h),
     (request N2n_ho_commit, n2n_ho_commit_request pf h),
     (response N2n_ho_commit, n2n_ho_commit_response pf h),
     (request N2n_ho_commit, n2n_ho_commit_request pf h),
     (response N2n_ho_commit, n2n_ho_commit_response pf h),
     (request Mn_ho_complete, mn_ho_complete_request pf h),
     (response Mn_ho_complete, mn_ho_complete_response pf h),
     (request N2n_ho_complete, n2n_ho_complete_request pf h),
     (response N2n_ho_complete, n2n_ho_complete_response pf h),
     (request Link_conf, link_conf_request pf h),
     (confirm Link_conf, link_conf_confirm pf h),
     (response Link_conf, link_conf_response pf h),
     (request L3_conf, l3_conf_request pf h),
     (confirm L3_conf, l3_conf_confirm pf h),
     (response L3_conf, l3_conf_response pf h)]"

definition miis_register_callbacks :: "platform \<Rightarrow> world handler \<Rightarrow> registrations" where
  "miis_register_callbacks pf h =
    [(request Get_information, get_information_request pf h),
     (response Get_information, get_information_response pf h),
     (request Push_information, push_information_request pf h),
     (indication Push_information, push_information_indication pf h)]"

definition mihf_callbacks :: "platform \<Rightarrow> world handler \<Rightarrow> callbacks" where
  "mihf_callbacks pf h = fold sac_register_callback
     (sm_register_callbacks pf h @ mies_register_callbacks pf h @ mics_register_callbacks pf h
      @ miis_register_callbacks pf h) Map.empty"

text \<open>
  \<open>process_message\<close>, the handler the transaction layer calls. A handler that sends a message can
  reach a transaction that calls the handler again; \<open>n\<close> bounds the depth of these calls. What is
  proved of \<open>mihf_handler\<close> holds for every \<open>n\<close>.
\<close>

fun mihf_handler :: "platform \<Rightarrow> nat \<Rightarrow> world handler" where
  "mihf_handler pf 0 i out = throw out_of_fuel"
| "mihf_handler pf (Suc n) i out = sac_process_message (mihf_callbacks pf (mihf_handler pf n)) i out"

section \<open>Events\<close>

text \<open>
  What the \<open>io_service\<close> runs: the reception of a datagram on the local or the remote port, the
  ticks of the transaction pool and of the address book, and the expiry of a timer of the event
  or the command service. One event is completed before the next one starts.
\<close>

datatype io_event =
    Local_datagram octet_string u16 u16 "u8 list"
  | Remote_datagram octet_string u16 u16 "u8 list"
  | Pool_tick
  | Book_tick
  | Event_timer u16
  | Command_timer u16

fun on_timeout :: "platform \<Rightarrow> world handler \<Rightarrow> timeout \<Rightarrow> mptr \<Rightarrow> (world, unit) eff" where
  "on_timeout pf h Event_subscribe_timeout = link_event_subscribe_response_timeout pf h"
| "on_timeout pf h Get_parameters_timeout = link_get_parameters_response_handler pf h"
| "on_timeout pf h Configure_thresholds_timeout = link_configure_thresholds_response_timeout pf h"
| "on_timeout pf h Link_actions_timeout = link_actions_response_handler pf h"
| "on_timeout pf h Link_conf_timeout = link_conf_response_handler pf h"
| "on_timeout pf h L3_conf_timeout = l3_conf_response_handler pf h"

text \<open>A timer that has been replaced or erased does not call its handler, and none calls it twice.\<close>

definition timer_fired :: "u16 \<Rightarrow> timers \<Rightarrow> timers" where
  "timer_fired tid = map_modify tid (\<lambda>t. t\<lparr>tm_pending := False\<rparr>)"

definition expire :: "platform \<Rightarrow> world handler \<Rightarrow> (world \<Rightarrow> timers) \<Rightarrow> ((timers \<Rightarrow> timers) \<Rightarrow> world \<Rightarrow> world) \<Rightarrow> u16
    \<Rightarrow> (world, unit) eff" where
  "expire pf h sel change tid = bnd (gets (\<lambda>w. map_of (sel w) tid)) (\<lambda>r. case r of
     None \<Rightarrow> ret ()
   | Some t \<Rightarrow> on_cond (tm_pending t) (seq (upd (change (timer_fired tid))) (on_timeout pf h (tm_calls t) (tm_in t))))"

fun mihf_event :: "platform \<Rightarrow> nat \<Rightarrow> bool \<Rightarrow> io_event \<Rightarrow> (world, unit) eff" where
  "mihf_event pf n multicast (Local_datagram ip scope port buff) =
     handle_receive True (sac_dispatch pf (mihf_handler pf n) (mihf_callbacks pf (mihf_handler pf n))) ip scope port buff"
| "mihf_event pf n multicast (Remote_datagram ip scope port buff) =
     handle_receive multicast (message_in pf (mihf_handler pf n)) ip scope port buff"
| "mihf_event pf n multicast Pool_tick = tpool_tick pf (mihf_handler pf n)"
| "mihf_event pf n multicast Book_tick = on_abook (upd abook_tick)"
| "mihf_event pf n multicast (Event_timer tid) =
     expire pf (mihf_handler pf n) w_event_timer (\<lambda>f w. w\<lparr>w_event_timer := f (w_event_timer w)\<rparr>) tid"
| "mihf_event pf n multicast (Command_timer tid) =
     expire pf (mihf_handler pf n) w_command_timer (\<lambda>f w. w\<lparr>w_command_timer := f (w_command_timer w)\<rparr>) tid"

text \<open>
  The state \<open>main\<close> builds before it starts the listeners, from the configured identifier, ports and
  books and the random number the transaction identifiers start from, and the start of the
  management service, which runs before the handlers are registered. The pointer 0 of a transaction
  is the null pointer and is never given out.
\<close>

definition world_new ::
  "mihf_id \<Rightarrow> u16 \<Rightarrow> u16 \<Rightarrow> u16 \<Rightarrow> u16 \<Rightarrow> octet_string list \<Rightarrow> bool \<Rightarrow> address_book \<Rightarrow> link_book \<Rightarrow> user_book \<Rightarrow> world" where
  "world_new mihfid tid rport lport link_delete order unsolicited abook lbook ubook =
     \<lparr>n_heap = (\<lambda>_. meta_message_new), n_next = 0, n_mihfid = mihfid, n_abook = abook, n_rport = rport, n_sent = [],
      src_obj = (\<lambda>_. src_transaction_new 0), dst_obj = (\<lambda>_. dst_transaction_new 0), t_next = 1,
      src_pool = [], dst_pool = [], src_lock = False, dst_lock = False, o_tid = tid, w_lpool = [],
      w_lport = lport, w_lbook = lbook, w_ubook = ubook, w_lrpool = [], w_subscriptions = [], w_event_timer = [],
      w_command_timer = [], w_link_delete = link_delete, w_dscv_order = order, w_unsolicited = unsolicited\<rparr>"

definition mihf_start :: "platform \<Rightarrow> (world, unit) eff" where
  "mihf_start pf = service_management_init pf (sac_process_message Map.empty)"

text \<open>
  A run of the daemon. What the platform does may change from event to event. An exception that
  reaches \<open>io.run()\<close> ends the process. A thread that waits for a mutex it holds itself waits for
  ever: the daemon hangs and takes no further event. A step exists for every bound \<open>n\<close> on the depth
  of handler calls that is large enough, and none for a bound that is too small.
\<close>

datatype daemon = Running world | Terminated exn | Hung

inductive daemon_step :: "bool \<Rightarrow> daemon \<Rightarrow> io_event \<Rightarrow> daemon \<Rightarrow> bool" for multicast where
  goes_on: "mihf_event pf n multicast ev w = (Inr (), w') \<Longrightarrow> daemon_step multicast (Running w) ev (Running w')"
| terminates: "mihf_event pf n multicast ev w = (Inl e, w') \<Longrightarrow> e \<notin> {out_of_fuel, deadlock}
    \<Longrightarrow> daemon_step multicast (Running w) ev (Terminated e)"
| hangs: "mihf_event pf n multicast ev w = (Inl deadlock, w') \<Longrightarrow> daemon_step multicast (Running w) ev Hung"

inductive daemon_run :: "bool \<Rightarrow> daemon \<Rightarrow> io_event list \<Rightarrow> daemon \<Rightarrow> bool" for multicast where
  run_nil: "daemon_run multicast d [] d"
| run_cons: "daemon_step multicast d ev d' \<Longrightarrow> daemon_run multicast d' evs d'' \<Longrightarrow> daemon_run multicast d (ev # evs) d''"

inductive_cases daemon_stepE: "daemon_step multicast d ev (Running w)"
inductive_cases daemon_run_consE: "daemon_run multicast d (ev # evs) d'"
inductive_simps daemon_run_nil [simp]: "daemon_run multicast d [] d'"
inductive_simps daemon_step_over [simp]: "daemon_step multicast (Terminated e) ev d" "daemon_step multicast Hung ev d"

end
