(* ===== verification/Mihf_Handlers.thy ===== *)
theory Mihf_Handlers
  imports Mihf_Lifetime Mihf_Daemon
begin

text \<open>
  What the services do to the state of the MIHF, once for every property of it: a predicate that
  does not depend on the messages and the pools of requests, that accepts every change of a book
  or a timer table that keeps its keys in order and every change of the subscriptions by
  \<open>subscribe\<close> and \<open>unsubscribe\<close>, and that sending a message to a peer keeps, is kept by every message
  handler and every timer handler.
\<close>

section \<open>The books stay sorted\<close>

lemma throw_keeps_on_lbook:
  assumes "\<And>w. P w \<Longrightarrow> P (w\<lparr>w_lbook := snd (m (w_lbook w))\<rparr>)"
  shows "keeps T P (on_lbook m)"
  using assms by (auto simp: keeps_def wp_def on_lbook_def split: prod.split sum.split) (metis snd_conv)+

lemma throw_keeps_on_abook:
  assumes "\<And>w. P w \<Longrightarrow> P (w\<lparr>n_abook := snd (m (n_abook w))\<rparr>)"
  shows "keeps T P (on_abook m)"
  using assms by (auto simp: keeps_def wp_def on_abook_def split: prod.split sum.split) (metis snd_conv)+

lemmas abook_defs = abook_add_def abook_set_registration_links_def abook_set_registration_interval_def
  abook_set_link_address_list_def abook_set_event_list_def abook_set_command_list_def abook_set_query_list_def

lemma keeps_of_sum [keeps_intros]: "(\<And>e. r = Inl e \<Longrightarrow> N e) \<Longrightarrow> obeys N T P (of_sum r)"
  by (simp add: obeys_def wp_def split: sum.split)

text \<open>Looking something up and throwing if it is not there.\<close>

definition lookup :: "('s \<Rightarrow> exn + 'a) \<Rightarrow> ('s, 'a) eff" where
  "lookup g s = (g s, s)"

lemma lookup_eq: "bnd (gets g) (\<lambda>r. bnd (of_sum r) f) = bnd (lookup g) f" "bnd (gets g) of_sum = lookup g"
  by (simp_all add: fun_eq_iff bnd_def lookup_def split: sum.split)

lemma keeps_lookup: "(\<And>s e. g s = Inl e \<Longrightarrow> N e) \<Longrightarrow> obeys N T P (lookup g)"
  by (simp add: obeys_def wp_def lookup_def split: sum.split)

lemma keeps_prod [keeps_intros]: "(\<And>a b. obeys N T P (f a b)) \<Longrightarrow> obeys N T P (case x of (a, b) \<Rightarrow> f a b)"
  by (simp split: prod.split)

lemma keeps_prod_fun [keeps_intros]: "(\<And>a b. obeys N T P (f a b y)) \<Longrightarrow> obeys N T P ((case x of (a, b) \<Rightarrow> f a b) y)"
  by (simp split: prod.split)

lemma keeps_Let [keeps_intros]: "obeys N T P (f x) \<Longrightarrow> obeys N T P (Let x f)"
  by simp

lemma keeps_list [keeps_intros]:
  "obeys N T P m \<Longrightarrow> (\<And>x xs. obeys N T P (f x xs)) \<Longrightarrow> obeys N T P (case v of [] \<Rightarrow> m | x # xs \<Rightarrow> f x xs)"
  by (simp split: list.split)

lemma local_capabilities_ordered: "keeps T map_ok (update_local_capabilities i lb ub)"
  unfolding update_local_capabilities_def
  by (intro keeps_intros) (auto simp: abook_defs map_ok_modify)

lemma keeps_snd: "keeps (\<lambda>_. True) P m \<Longrightarrow> P s \<Longrightarrow> P (snd (m s))"
  by (drule (1) keepsD) (simp add: wp_def split: prod.splits sum.splits)

lemma abook_ordered:
  "map_ok b \<Longrightarrow> map_ok (abook_add i e b)" "map_ok b \<Longrightarrow> map_ok (abook_set_registration_links i l b)"
  "map_ok b \<Longrightarrow> map_ok (abook_set_registration_interval i t b)"
  by (auto simp: abook_defs map_ok_modify map_ok_store split: option.split)

lemma lbook_ordered:
  "map_ok b \<Longrightarrow> map_ok (lbook_add i ip port l b)" "map_ok b \<Longrightarrow> map_ok (lbook_update_capabilities i e c b)"
  "map_ok b \<Longrightarrow> map_ok (lbook_inactive i b)" "map_ok b \<Longrightarrow> map_ok (snd (lbook_fail i b))"
  "map_ok b \<Longrightarrow> map_ok (snd (lbook_reset i b))"
  by (auto simp: lbook_add_def lbook_update_capabilities_def lbook_inactive_def lbook_fail_def lbook_reset_def
      map_ok_modify map_ok_store split: option.split)

section \<open>Predicates the services keep\<close>

lemma registered_in:
  assumes "fold sac_register_callback rs Map.empty mid = Some g"
  shows "(mid, g) \<in> set rs"
proof -
  have "fold sac_register_callback rs cb mid = Some g \<Longrightarrow> (mid, g) \<in> set rs \<or> cb mid = Some g" for cb
    by (induction rs arbitrary: cb) (fastforce simp: sac_register_callback_def split: if_splits)+
  with assms show ?thesis by fastforce
qed

lemma message_ends:
  "ends (msg p)" "ends (msg_upd p f)" "ends (msg_new m)" "ends (deref v)"
  "ends r \<Longrightarrow> ends (mih_read p mid r)" "ends t \<Longrightarrow> ends (mih_write p mid t)"
  by (auto simp: throws_def msg_upd_def msg_new_def msg_def deref_def mih_read_def mih_write_def msg_do_def msg_read_def msg_write_def
      Let_def split: prod.splits if_splits option.splits)

lemma on_book_ends: "ends m \<Longrightarrow> ends (on_abook m)" "ends n \<Longrightarrow> ends (on_lbook n)"
  by (auto simp: throws_def on_abook_def on_lbook_def split: prod.splits)

lemma link_fail_ends: "ends (lbook_fail i)" "ends (lbook_reset i)"
  by (auto simp: throws_def lbook_fail_def lbook_reset_def split: option.splits)

lemma capabilities_lookups:
  "link_capabilities lb ids acc = Inl e \<Longrightarrow> e = unknown_link_sap"
  "user_capabilities ub ids acc' = Inl e \<Longrightarrow> e = unknown_mih_user"
proof -
  show "link_capabilities lb ids acc = Inl e \<Longrightarrow> e = unknown_link_sap"
    by (induction lb ids acc rule: link_capabilities.induct) (auto split: sum.splits dest: book_lookups)
  show "user_capabilities ub ids acc' = Inl e \<Longrightarrow> e = unknown_mih_user"
    by (induction ub ids acc' rule: user_capabilities.induct) (auto split: sum.splits dest: book_lookups)
qed

lemma update_capabilities_ends: "ends update_capabilities"
proof -
  have links: "ends (of_sum (link_capabilities lb ids acc))" and users: "ends (of_sum (user_capabilities ub ids acc'))"
    for lb ub ids acc acc'
    by (auto simp: throws_def dest: capabilities_lookups)
  show ?thesis
    unfolding update_capabilities_def update_local_capabilities_def
    by (intro throws_intros on_book_ends links users)
qed

lemma received_ends: "meta_message_of ip scope port fm = Inl e \<Longrightarrow> e \<noteq> out_of_fuel"
proof -
  have "ends id_tlvs_get"
    unfolding id_tlvs_get_def by (intro throws_intros codec_endsD ends_intros)
  then show "meta_message_of ip scope port fm = Inl e \<Longrightarrow> e \<noteq> out_of_fuel"
    by (auto simp: meta_message_of_def message_of_frame_def Let_def dest: throwsD split: prod.splits sum.splits)
qed

locale service_predicate =
  fixes N T :: "exn \<Rightarrow> bool" and P :: "world \<Rightarrow> bool"
  assumes heap: "P (w\<lparr>n_heap := a\<rparr>) = P w" and next_message: "P (w\<lparr>n_next := b\<rparr>) = P w"
    and packets: "P (w\<lparr>n_sent := c\<rparr>) = P w"
    and requests: "P (w\<lparr>w_lpool := d\<rparr>) = P w" and responses: "P (w\<lparr>w_lrpool := e\<rparr>) = P w"
    and peers: "P w \<Longrightarrow> (map_ok (n_abook w) \<Longrightarrow> map_ok ab) \<Longrightarrow> P (w\<lparr>n_abook := ab\<rparr>)"
    and links: "P w \<Longrightarrow> (map_ok (w_lbook w) \<Longrightarrow> map_ok lb) \<Longrightarrow> P (w\<lparr>w_lbook := lb\<rparr>)"
    and users: "P w \<Longrightarrow> (map_ok (w_ubook w) \<Longrightarrow> map_ok ub) \<Longrightarrow> P (w\<lparr>w_ubook := ub\<rparr>)"
    and event_timers: "P w \<Longrightarrow> (map_ok (w_event_timer w) \<Longrightarrow> map_ok tm) \<Longrightarrow> P (w\<lparr>w_event_timer := tm\<rparr>)"
    and command_timers: "P w \<Longrightarrow> (map_ok (w_command_timer w) \<Longrightarrow> map_ok tm) \<Longrightarrow> P (w\<lparr>w_command_timer := tm\<rparr>)"
    and subscribing: "P w \<Longrightarrow> P (w\<lparr>w_subscriptions := subscribe u l ev (w_subscriptions w)\<rparr>)"
    and unsubscribing: "P w \<Longrightarrow> P (w\<lparr>w_subscriptions := unsubscribe u l ev (w_subscriptions w)\<rparr>)"
    and caught: "sac_caught ex \<Longrightarrow> T ex" and allowed: "ex \<noteq> out_of_fuel \<Longrightarrow> N ex"
begin

lemma ending: "ends m \<Longrightarrow> keeps X P m \<Longrightarrow> obeys N X P m"
  by (rule obeys_throws) (auto elim!: throws_mono intro: allowed)

lemma keeps_messages:
  "obeys N X P (msg p)" "obeys N X P (msg_upd p f)" "obeys N X P (msg_new m)" "obeys N X P (deref v)"
  "ends r \<Longrightarrow> obeys N X P (mih_read p mid r)" "ends t \<Longrightarrow> obeys N X P (mih_write p mid t)"
  by (intro ending message_ends; assumption?;
      auto simp: keeps_def wp_def msg_upd_def msg_new_def deref_def mih_read_def mih_write_def msg_do_def heap next_message
      split: prod.split sum.split option.split)+

lemma keeps_books:
  "obeys N X P (on_abook (upd (abook_add i entry)))" "obeys N X P (on_abook (upd (abook_set_registration_links i ll)))"
  "obeys N X P (on_abook (upd (abook_set_registration_interval i t)))" "obeys N X P update_capabilities"
  "obeys N X P (on_lbook (upd (lbook_add i ip port lid)))" "obeys N X P (on_lbook (upd (lbook_update_capabilities i ev cm)))"
  "obeys N X P (on_lbook (upd (lbook_inactive i)))" "obeys N X P (on_lbook (lbook_fail i))" "obeys N X P (on_lbook (lbook_reset i))"
proof -
  have "keeps X P update_capabilities"
    unfolding update_capabilities_def
    by (intro keeps_intros throw_keeps_on_abook) (auto intro!: peers keeps_snd [OF local_capabilities_ordered])
  then show "obeys N X P update_capabilities" by (rule ending [OF update_capabilities_ends])
qed (auto intro!: ending on_book_ends throws_intros link_fail_ends throw_keeps_on_abook throw_keeps_on_lbook peers links
    abook_ordered lbook_ordered)

lemma keeps_packets: "obeys N X P (udp_send pf p ip port src)"
proof (rule ending)
  show "ends (udp_send pf p ip port src)" by (rule throws_mono [OF throws_udp]) auto
  show "keeps X P (udp_send pf p ip port src)"
  proof (rule keepsI)
    fix w :: world assume "P w"
    then show "leaves X P (udp_send pf p ip port src) w"
      by (auto simp: wp_def udp_send_result packets split: sum.split)
  qed
qed

lemma keeps_lookups:
  "obeys N X P (lookup (\<lambda>w. abook_get (n_abook w) (fa w)))" "obeys N X P (lookup (\<lambda>w. lbook_get (w_lbook w) (fl w)))"
  "obeys N X P (lookup (\<lambda>w. ubook_get (w_ubook w) (fu w)))" "obeys N X P (lookup (\<lambda>w. lrpool_find tid ident (w_lrpool w)))"
  by (rule keeps_lookup; auto intro!: allowed dest!: book_lookups simp: lrpool_find_def split: option.splits)+

lemma keeps_shared:
  "obeys N X P (lpool_add_msg p)" "obeys N X P (set_source_mihfid p)" "obeys N X P (set_user_tid p)" "obeys N X P (search_interface ty a)"
  "obeys N X P (respond_to i out)" "obeys N X P (is_dest i)" "obeys N X P (user_of ident)" "obeys N X P (set_dst p ident)"
  "obeys N X P (set_opcode p c)" "obeys N X P (source_if_local p)" "obeys N X P local_capabilities"
  "obeys N X P (do_subscribe u l ev)" "obeys N X P (do_unsubscribe u l ev)" "obeys N X P (set_command_timer k p)"
  "obeys N X P (erase_command_timer p)"
  unfolding lpool_add_msg_def set_source_mihfid_def search_interface_def respond_to_def is_dest_def user_of_def set_dst_def
    set_opcode_def source_if_local_def local_capabilities_def do_subscribe_def do_unsubscribe_def set_command_timer_def
    erase_command_timer_def lookup_eq
  by (rule keeps_lookups | (auto simp: obeys_def wp_def set_user_tid_def requests heap msg_upd_def msg_def bnd_def seq_def on_cond_def
      subscribing unsubscribing intro!: command_timers map_ok_store map_ok_erase split: prod.split sum.split)[])+

lemma keeps_try_caught: "obeys N T P m \<Longrightarrow> obeys N T P n \<Longrightarrow> (\<And>e. c e \<Longrightarrow> sac_caught e) \<Longrightarrow> obeys N T P (try_catch m c n)"
  using caught by (auto intro!: keeps_try elim!: keeps_mono)

end

locale service_invariant = service_predicate +
  fixes h :: "world handler"
  assumes sending: "obeys N T P (message_out pf h p)"
begin

lemma transmit_keeps: "obeys N T P (transmit pf h p)"
  unfolding transmit_def lookup_eq
  by (intro keeps_intros keeps_try keeps_lookups keeps_messages keeps_packets sending)

lemma forward_request_keeps: "obeys N T P (forward_request pf h p)"
  unfolding forward_request_def by (intro keeps_intros transmit_keeps keeps_shared)

lemma if_link_active_keeps: "obeys N X P m \<Longrightarrow> obeys N X P (if_link_active dst m)"
  unfolding if_link_active_def by (intro keeps_intros keeps_books)

lemma for_users_keeps: "(\<And>x. obeys N X P (f x)) \<Longrightarrow> obeys N X P (for_users f)"
  unfolding for_users_def by (intro keeps_intros)

lemmas service_keeps = keeps_lookups keeps_messages keeps_books keeps_packets keeps_shared transmit_keeps forward_request_keeps
  if_link_active_keeps for_users_keeps

subsection \<open>Information service\<close>

lemma information_keeps:
  "obeys N T P (get_information_request pf h i out)" "obeys N T P (get_information_response pf h i out)"
  "obeys N T P (push_information_request pf h i out)" "obeys N T P (push_information_indication pf h i out)"
  unfolding get_information_request_def get_information_response_def push_information_request_def
    push_information_indication_def lookup_eq
  by (intro keeps_intros service_keeps throws_intros allowed; simp)+

subsection \<open>Event service\<close>

lemma event_timer_keeps:
  "obeys N X P (upd (\<lambda>w. w\<lparr>w_event_timer := map_erase (k w) (w_event_timer w)\<rparr>))"
  "obeys N X P (upd (\<lambda>w. w\<lparr>w_event_timer := map_store (k w) t (w_event_timer w)\<rparr>))"
  by (auto simp: obeys_def wp_basic intro!: event_timers map_ok_store map_ok_erase)

lemma subscription_keeps:
  "obeys N T P (link_event_subscribe_response_timeout pf h i)" "obeys N T P (event_subscribe_request pf h i out)"
  "obeys N T P (event_subscribe_response pf h i out)" "obeys N T P (event_subscribe_confirm pf h i out)"
  "obeys N T P (event_unsubscribe_request pf h i out)" "obeys N T P (event_unsubscribe_response pf h i out)"
  "obeys N T P (event_unsubscribe_confirm pf h i out)"
  unfolding link_event_subscribe_response_timeout_def event_subscribe_request_def local_event_subscribe_request_def
    event_subscribe_response_def event_subscribe_confirm_def event_unsubscribe_request_def
    local_event_unsubscribe_request_def link_unsubscribe_def event_unsubscribe_response_def event_unsubscribe_confirm_def lookup_eq
  by (intro event_timer_keeps keeps_intros service_keeps throws_intros allowed; simp)+

lemma forward_to_keeps: "obeys N T P (forward_to pf h p sel)"
  unfolding forward_to_def by (intro keeps_intros service_keeps throws_intros allowed; simp)

lemma indication_keeps: "obeys N T P (link_indication event pf h i out)"
  unfolding link_indication_def reset_if_local_def link_event_forward_def msg_forward_def lookup_eq
  by (intro keeps_intros service_keeps throws_intros allowed forward_to_keeps; simp)

lemma special_indication_keeps:
  "obeys N T P (link_detected_indication pf h i out)" "obeys N T P (link_handover_imminent_indication pf h i out)"
  "obeys N T P (link_handover_complete_indication pf h i out)"
  unfolding link_detected_indication_def link_handover_imminent_indication_def link_handover_complete_indication_def
    reset_if_local_def lookup_eq
  by (intro keeps_intros service_keeps throws_intros allowed forward_to_keeps; simp)+

lemmas event_keeps = subscription_keeps indication_keeps special_indication_keeps

subsection \<open>Command service\<close>

lemma responses_keeps [keeps_intros]: "obeys N X P (upd (\<lambda>w. w\<lparr>w_lrpool := f w\<rparr>))"
  by (simp add: obeys_def wp_basic responses)

lemma collect_keeps: "obeys N X P (collect_status tid ids srl)" "obeys N X P (collect_actions tid ids lar larl)"
proof -
  show "obeys N X P (collect_status tid ids srl)"
    by (induction ids arbitrary: srl; simp only: collect_status.simps lookup_eq)
      (auto intro!: keeps_intros service_keeps allowed split: link_response.split)
  show "obeys N X P (collect_actions tid ids lar larl)"
    by (induction ids arbitrary: lar larl; simp only: collect_actions.simps lookup_eq Let_def)
      (auto intro!: keeps_intros service_keeps allowed split: link_response.split)
qed

lemma link_command_keeps:
  "obeys N T P (link_get_parameters_response_handler pf h i)" "obeys N T P (link_get_parameters_request pf h i out)"
  "obeys N T P (link_get_parameters_confirm pf h i out)"
  "obeys N T P (link_configure_thresholds_response_timeout pf h i)" "obeys N T P (link_configure_thresholds_request pf h i out)"
  "obeys N T P (link_configure_thresholds_confirm pf h i out)"
  "obeys N T P (link_actions_response_handler pf h i)" "obeys N T P (link_actions_request pf h i out)"
  "obeys N T P (link_actions_confirm pf h i out)"
  unfolding link_get_parameters_response_handler_def link_get_parameters_request_def link_get_parameters_confirm_def
    link_configure_thresholds_response_timeout_def link_configure_thresholds_request_def
    link_configure_thresholds_confirm_def link_actions_response_handler_def link_actions_request_def
    link_actions_confirm_def respond_late_def lookup_eq
  by (intro responses_keeps keeps_intros service_keeps throws_intros allowed collect_keeps; simp)+

lemma conf_keeps:
  "obeys N T P (link_conf_response_handler pf h i)" "obeys N T P (l3_conf_response_handler pf h i)"
  "obeys N T P (link_conf_request pf h i out)" "obeys N T P (l3_conf_request pf h i out)" "obeys N T P (conf_confirm pf h i out)"
  unfolding link_conf_response_handler_def l3_conf_response_handler_def link_conf_request_def l3_conf_request_def
    conf_to_link_def conf_confirm_def respond_late_def lookup_eq
  by (intro keeps_intros service_keeps throws_intros allowed; simp)+

lemma passed_on_keeps:
  "obeys N T P (forward_response pf h i out)" "obeys N T P (generic_command_request cmd pf h i out)"
  "obeys N T P (generic_command_response pf h i out)"
  unfolding forward_response_def generic_command_request_def generic_command_response_def lookup_eq
  by (intro keeps_intros service_keeps throws_intros allowed; simp)+

lemmas command_keeps = link_command_keeps conf_keeps passed_on_keeps

subsection \<open>Management service\<close>

lemma discover_found_keeps: "obeys N T P (discover_found pf h out u poss asked missing)"
  by (induction poss arbitrary: asked missing)
    (auto simp: request_pos_capabilities_def send_out_def write_capabilities_def intro!: keeps_intros service_keeps throws_intros allowed)

lemma discovery_keeps:
  "obeys N T P (discover_request pf h i)" "obeys N T P (discover_response pf h i out)"
  unfolding discover_request_def discover_response_def discover_ask_found_def discover_try_next_def send_out_def
    next_mechanism_def read_capabilities_def write_capabilities_def
  by (intro keeps_intros service_keeps throws_intros allowed discover_found_keeps; simp)+

lemma management_keeps:
  "obeys N T P (service_management_init pf h)"
  "obeys N T P (capability_discover_request pf h i out)" "obeys N T P (capability_discover_response pf h i out)"
  "obeys N T P (capability_discover_confirm pf h i out)" "obeys N T P (register_request pf h i out)"
  "obeys N T P (register_response pf h i out)" "obeys N T P (deregister_request pf h i out)"
  "obeys N T P (deregister_response pf h i out)" "obeys N T P (link_register_indication pf h i out)"
  unfolding service_management_init_def capability_discover_request_def capability_discover_response_def
    capability_discover_confirm_def register_request_def register_response_def deregister_request_def
    deregister_response_def link_register_indication_def piggyback_capabilities_def get_capabilities_def
    set_capability_discover_response_def send_indication_def link_capability_discover_request_def read_capabilities_def write_capabilities_def
  by (intro keeps_intros service_keeps throws_intros allowed discovery_keeps; simp)+

lemma user_register_keeps: "obeys N T P (user_register_indication pf h i out)"
  unfolding user_register_indication_def
  by (intro keeps_intros service_keeps throws_intros) (auto intro!: users simp: ubook_add_def map_ok_store)

subsection \<open>The table of handlers\<close>

lemma registered_keeps:
  assumes "(mid, g) \<in> set (sm_register_callbacks pf h @ mies_register_callbacks pf h @ mics_register_callbacks pf h
      @ miis_register_callbacks pf h)"
  shows "obeys N T P (g i out)"
proof -
  note indications = link_up_indication_def link_down_indication_def link_going_down_indication_def
    link_parameters_report_indication_def link_conf_required_indication_def l3_conf_required_indication_def
  note forwarded = link_get_parameters_response_def link_configure_thresholds_response_def link_actions_response_def
    link_conf_response_def l3_conf_response_def link_conf_confirm_def l3_conf_confirm_def
  note handover = net_ho_candidate_query_request_def net_ho_candidate_query_response_def mn_ho_candidate_query_request_def
    mn_ho_candidate_query_response_def n2n_ho_query_resources_request_def n2n_ho_query_resources_response_def
    mn_ho_commit_request_def mn_ho_commit_response_def net_ho_commit_request_def net_ho_commit_response_def
    n2n_ho_commit_request_def n2n_ho_commit_response_def mn_ho_complete_request_def mn_ho_complete_response_def
    n2n_ho_complete_request_def n2n_ho_complete_response_def
  have "obeys N T P (g i out)" if "(mid, g) \<in> set (sm_register_callbacks pf h)"
    using that management_keeps user_register_keeps by (auto simp: sm_register_callbacks_def)
  moreover have "obeys N T P (g i out)" if "(mid, g) \<in> set (mies_register_callbacks pf h)"
    using that event_keeps by (auto simp: mies_register_callbacks_def indications)
  moreover have "obeys N T P (g i out)" if "(mid, g) \<in> set (mics_register_callbacks pf h)"
    using that command_keeps by (auto simp: mics_register_callbacks_def forwarded handover)
  moreover have "obeys N T P (g i out)" if "(mid, g) \<in> set (miis_register_callbacks pf h)"
    using that information_keeps by (auto simp: miis_register_callbacks_def)
  ultimately show ?thesis using assms by auto
qed

lemma callback_keeps: "mihf_callbacks pf h mid = Some g \<Longrightarrow> obeys N T P (g i out)"
  unfolding mihf_callbacks_def by (drule registered_in) (rule registered_keeps, auto)

lemma process_message_keeps: "obeys N T P (sac_process_message (mihf_callbacks pf h) i out)"
  unfolding sac_process_message_def
  by (intro keeps_intros service_keeps keeps_try_caught) (auto intro: callback_keeps simp: sac_caught_def)

lemma dispatch_keeps: "obeys N T P (sac_dispatch pf h (mihf_callbacks pf h) i)"
  unfolding sac_dispatch_def
  by (intro keeps_intros service_keeps keeps_try_caught) (auto intro: callback_keeps)

lemma on_timeout_keeps: "obeys N T P (on_timeout pf h k i)"
  by (cases k) (auto intro: subscription_keeps command_keeps)

lemma expire_keeps:
  "obeys N T P (expire pf h w_event_timer (\<lambda>f w. w\<lparr>w_event_timer := f (w_event_timer w)\<rparr>) tid)"
  "obeys N T P (expire pf h w_command_timer (\<lambda>f w. w\<lparr>w_command_timer := f (w_command_timer w)\<rparr>) tid)"
  unfolding expire_def lookup_eq
  by (intro keeps_intros on_timeout_keeps; auto simp: timer_fired_def intro!: event_timers command_timers map_ok_modify)+

lemma handle_receive_keeps: "(\<And>i. obeys N T P (dispatch i)) \<Longrightarrow> obeys N T P (handle_receive b dispatch ip scope port buff)"
  unfolding handle_receive_def by (intro keeps_intros service_keeps allowed received_ends)

end

end
