(* ===== verification/Mihf_Frames.thy ===== *)
theory Mihf_Frames
  imports Mihf_Handlers
begin

text \<open>
  Predicates of the state that do not depend on the transactions: the transaction layer keeps
  them if the message handler does. Together with the services this gives invariants of every
  event of the daemon; here the one of the registries.
\<close>

section \<open>Combinators\<close>

lemma keeps_goto: "(\<And>l. keeps T P (f l)) \<Longrightarrow> keeps T P (goto n f l)"
  by (induction n arbitrary: l) (auto intro!: keeps_intros)

lemma keeps_member:
  "keeps T (\<lambda>s. P (snd s)) (self f)" "keeps T (\<lambda>s. P (snd s)) (assign g)"
  "keeps T P m \<Longrightarrow> keeps T (\<lambda>s. P (snd s)) (on_net m)"
  by (auto simp: keeps_def wp_def self_def assign_def on_net_def split: prod.splits sum.splits)

lemma keeps_deref: "keeps T P (deref p)"
  by (simp add: deref_def keeps_basic split: option.split)

locale transaction_frame =
  fixes T :: "exn \<Rightarrow> bool" and P :: "'w pools_scheme \<Rightarrow> bool" and h :: "'w pools_scheme handler"
  assumes f_heap: "P (w\<lparr>n_heap := a\<rparr>) = P w" and f_next: "P (w\<lparr>n_next := b\<rparr>) = P w"
    and f_packets: "P (w\<lparr>n_sent := c\<rparr>) = P w" and f_requests: "P (w\<lparr>w_lpool := d\<rparr>) = P w"
    and f_src: "P (w\<lparr>src_obj := e\<rparr>) = P w" and f_dst: "P (w\<lparr>dst_obj := f\<rparr>) = P w"
    and f_new: "P (w\<lparr>t_next := g\<rparr>) = P w" and f_src_pool: "P (w\<lparr>src_pool := i\<rparr>) = P w"
    and f_dst_pool: "P (w\<lparr>dst_pool := j\<rparr>) = P w" and f_src_lock: "P (w\<lparr>src_lock := k\<rparr>) = P w"
    and f_dst_lock: "P (w\<lparr>dst_lock := l\<rparr>) = P w" and f_tid: "P (w\<lparr>o_tid := m\<rparr>) = P w"
    and handling: "keeps T P (h p q)"
begin

lemmas frame = f_heap f_next f_packets f_requests f_src f_dst f_new f_src_pool f_dst_pool f_src_lock f_dst_lock f_tid

lemma f_messages: "keeps X P (msg p)" "keeps X P (msg_upd p u)" "keeps X P (msg_new v)"
  by (simp_all add: keeps_def wp_msg frame)

lemma f_on_src:
  assumes "keeps X (\<lambda>s. P (snd s)) u"
  shows "keeps X P (on_src p u)"
  using keepsD [OF assms] by (auto simp: keeps_def wp_on_src frame)

lemma f_on_dst:
  assumes "keeps X (\<lambda>s. P (snd s)) u"
  shows "keeps X P (on_dst p u)"
  using keepsD [OF assms] by (auto simp: keeps_def wp_on_dst frame)

lemma f_with_src_lock:
  assumes "keeps X P u"
  shows "keeps X P (with_src_lock u)"
  using keepsD [OF assms] by (auto simp: keeps_def wp_lock frame)

lemma f_with_dst_lock:
  assumes "keeps X P u"
  shows "keeps X P (with_dst_lock u)"
  using keepsD [OF assms] by (auto simp: keeps_def wp_lock frame)

lemma f_sends: "keeps X P (net_sap_send pf p)"
proof (rule keepsI)
  fix w assume "P w"
  moreover obtain r pks where "net_sap_send pf p w = (r, w\<lparr>n_sent := n_sent w @ pks\<rparr>)"
    using sends_net_sap [of pf p] unfolding sends_def by metis
  ultimately show "leaves X P (net_sap_send pf p) w" by (cases r) (simp_all add: wp_def frame)
qed

lemma f_member:
  "keeps X (\<lambda>s. P (snd s)) the_in" "keeps X (\<lambda>s. P (snd s)) the_out" "keeps X (\<lambda>s. P (snd s)) (send_ptr pf v)"
  unfolding the_in_def the_out_def send_ptr_def by (intro keeps_intros keeps_member keeps_deref f_messages f_sends)+

lemmas f_parts = keeps_member keeps_deref f_messages f_sends f_member

lemma f_acks: "keeps X (\<lambda>s. P (snd s)) (ack_requestor pf)" "keeps X (\<lambda>s. P (snd s)) (ack_responder pf)"
proof -
  have "keeps X (\<lambda>s. P (snd s)) (ack_requestor_block pf l)" for l
    by (cases l; simp; intro keeps_intros f_parts)
  then show "keeps X (\<lambda>s. P (snd s)) (ack_requestor pf)"
    unfolding ack_requestor_def by (intro keeps_intros keeps_goto f_parts)
  have "keeps X (\<lambda>s. P (snd s)) (ack_responder_block pf l)" for l
    by (cases l; simp; intro keeps_intros f_parts)
  then show "keeps X (\<lambda>s. P (snd s)) (ack_responder pf)"
    unfolding ack_responder_def by (intro keeps_intros keeps_goto f_parts)
qed

lemma f_src_run: "keeps T P (src_run pf h t)"
proof -
  have "keeps T P (src_block pf h t l)" for l
    unfolding src_run_def
    by (cases l; simp add: src_init_def src_wait_ack_def src_wait_response_msg_def src_failure_def src_success_def
        src_process_begin_def src_process_end_def; intro keeps_intros f_on_src f_on_dst f_parts f_acks handling)
  then show ?thesis unfolding src_run_def by (intro keeps_intros keeps_goto)
qed

lemma f_dst_run: "keeps T P (dst_run pf h t)"
proof -
  have "keeps T P (dst_block pf h t l)" for l
    by (cases l; simp add: dst_init_begin_def dst_init_end_def dst_wait_response_prm_def dst_send_response_begin_def
        dst_send_response_def dst_failure_def dst_success_def; intro keeps_intros f_on_src f_on_dst f_parts f_acks handling)
  then show ?thesis unfolding dst_run_def by (intro keeps_intros keeps_goto)
qed

lemmas f_runs = f_src_run f_dst_run f_on_src f_on_dst f_with_src_lock f_with_dst_lock f_messages f_acks

lemma f_writes: "P (src_write t u w) = P w" "P (dst_write t v w) = P w"
  by (simp_all add: src_write_def dst_write_def frame)

lemma f_pools:
  "keeps X P (tpool_add_src t)" "keeps X P (tpool_add_dst t)" "keeps X P (tpool_del_src t)" "keeps X P (tpool_del_dst t)"
  "keeps X P (tpool_find_src ident tid)" "keeps X P (tpool_find_dst ident tid)"
  unfolding tpool_add_src_def tpool_add_dst_def tpool_del_src_def tpool_del_dst_def tpool_find_src_def tpool_find_dst_def
  by (intro f_runs keeps_intros; simp add: frame)+

lemma f_found:
  "keeps T P (in_src_transaction pf h p t)" "keeps T P (in_dst_transaction pf h p t)"
  "keeps T P (out_src_transaction pf h p t)" "keeps T P (out_dst_transaction pf h p t)"
  "keeps T P (new_dst_transaction pf h p)" "keeps T P (new_src_transaction pf h p)"
  unfolding in_src_transaction_def in_dst_transaction_def out_src_transaction_def out_dst_transaction_def
    new_dst_transaction_def new_src_transaction_def src_requests_def src_responds_def dst_requests_def src_finishes_def
    dst_finishes_def
  by (intro keeps_intros f_runs f_pools; simp add: f_writes frame)+

lemma message_in_frame: "keeps T P (message_in pf h p)"
  unfolding message_in_def by (intro keeps_intros f_messages f_pools f_found)

lemma message_out_frame: "keeps T P (message_out pf h p)"
  unfolding message_out_def by (intro keeps_intros f_messages f_pools f_found)

lemma collect_frame: "(\<And>p. keeps T P (u p)) \<Longrightarrow> keeps T P (collect v u ps ds)"
  by (induction ps arbitrary: ds) (auto intro!: keeps_intros)

lemma tick_frame: "keeps T P (tpool_tick pf h)"
  unfolding tpool_tick_def dec_src_def dec_dst_def src_dec_one_def dst_dec_one_def dec_one_def
  by (intro keeps_intros f_runs f_pools collect_frame; simp add: f_writes)

end

section \<open>Predicates of the registries\<close>

lemma running_cons:
  assumes "daemon_run multicast (Running w) (ev # evs) (Running w')"
  shows "\<exists>pf n w1. mihf_event pf n multicast ev w = (Inr (), w1) \<and> daemon_run multicast (Running w1) evs (Running w')"
proof -
  obtain d where d: "daemon_step multicast (Running w) ev d" "daemon_run multicast d evs (Running w')"
    using assms by (auto elim: daemon_run_consE)
  show ?thesis
  proof (cases d)
    case (Running w1)
    with d(1) obtain pf n where "mihf_event pf n multicast ev w = (Inr (), w1)" by (auto elim: daemon_stepE)
    with d(2) Running show ?thesis by blast
  qed (use d in \<open>cases evs; auto elim: daemon_run_consE\<close>)+
qed

locale registry_predicate = service_predicate "\<lambda>_. True" T P for T :: "exn \<Rightarrow> bool" and P +
  assumes of_src: "P (w\<lparr>src_obj := so\<rparr>) = P w" and of_dst: "P (w\<lparr>dst_obj := do\<rparr>) = P w"
    and of_new: "P (w\<lparr>t_next := tn\<rparr>) = P w" and of_src_pool: "P (w\<lparr>src_pool := sp\<rparr>) = P w"
    and of_dst_pool: "P (w\<lparr>dst_pool := dp\<rparr>) = P w" and of_src_lock: "P (w\<lparr>src_lock := sl\<rparr>) = P w"
    and of_dst_lock: "P (w\<lparr>dst_lock := dl\<rparr>) = P w" and of_tid: "P (w\<lparr>o_tid := ot\<rparr>) = P w"
begin

lemma over_transactions:
  assumes "\<And>i out. keeps T P (h i out)"
  shows "transaction_frame T P h"
  by (unfold_locales; rule heap next_message packets requests of_src of_dst of_new of_src_pool of_dst_pool of_src_lock
      of_dst_lock of_tid assms)

lemma over_services:
  assumes "\<And>i out. keeps T P (h i out)"
  shows "service_invariant (\<lambda>_. True) T P h"
  by unfold_locales (rule transaction_frame.message_out_frame [OF over_transactions [OF assms]])

lemma handler_holds: "keeps T P (mihf_handler pf n i out)"
  by (induction n arbitrary: i out)
    (simp_all add: keeps_basic service_invariant.process_message_keeps [OF over_services])

end

sublocale registry_predicate \<subseteq> services: service_invariant "\<lambda>_. True" T P "mihf_handler pf n" for pf n
  by (rule over_services [OF handler_holds])

sublocale registry_predicate \<subseteq> transactions: transaction_frame T P "mihf_handler pf n" for pf n
  by (rule over_transactions [OF handler_holds])

context registry_predicate
begin

lemma event_holds: "keeps T P (mihf_event pf n multicast ev)"
proof (cases ev)
  case (Local_datagram ip scope port buff)
  then show ?thesis
    by (auto intro!: services.handle_receive_keeps services.dispatch_keeps)
next
  case (Remote_datagram ip scope port buff)
  then show ?thesis
    by (auto intro!: services.handle_receive_keeps transactions.message_in_frame)
next
  case Pool_tick
  then show ?thesis by (simp add: transactions.tick_frame)
next
  case Book_tick
  have "map_ok b \<Longrightarrow> map_ok (abook_tick b)" for b
    by (auto simp: map_ok_def abook_tick_def comp_def split_beta)
  with Book_tick show ?thesis by (auto intro!: throw_keeps_on_abook peers)
qed (simp_all add: services.expire_keeps)

lemma run_holds:
  assumes "daemon_run multicast (Running w) evs (Running w')" "P w"
  shows "P w'"
  using assms
proof (induction evs arbitrary: w)
  case (Cons ev evs)
  from running_cons [OF Cons.prems(1)] obtain w1 pf n
    where 1: "mihf_event pf n multicast ev w = (Inr (), w1)" "daemon_run multicast (Running w1) evs (Running w')" by blast
  have "P w1" using keeps_Inr [OF event_holds Cons.prems(2) 1(1)] .
  with 1(2) show ?case by (rule Cons.IH)
qed simp

lemma start_holds: "mihf_start pf w = (Inr (), w') \<Longrightarrow> P w \<Longrightarrow> P w'"
  unfolding mihf_start_def
  by (rule keeps_Inr [OF service_invariant.management_keeps(1) [OF over_services]])
    (auto simp: sac_process_message_def intro!: keeps_intros keeps_messages)

end

section \<open>The registries\<close>

text \<open>
  The keys of the three books and of the timer tables are in order, no event is subscribed to
  twice by the same user for the same link, and every subscription is for an event a list of
  events can hold. What \<open>main\<close> has configured does not change.
\<close>

definition subscriptions_ok :: "event_registration_t list \<Rightarrow> bool" where
  "subscriptions_ok subs \<longleftrightarrow> sorted_wrt (\<lambda>s t. \<not> event_registration_eq s t) subs \<and> (\<forall>s \<in> set subs. er_event s < 32)"

definition configuration :: "world \<Rightarrow> mihf_id \<times> u16 \<times> u16 \<times> u16 \<times> octet_string list \<times> bool" where
  "configuration w = (n_mihfid w, n_rport w, w_lport w, w_link_delete w, w_dscv_order w, w_unsolicited w)"

definition registries_ok :: "world \<Rightarrow> bool" where
  "registries_ok w \<longleftrightarrow> map_ok (n_abook w) \<and> map_ok (w_lbook w) \<and> map_ok (w_ubook w) \<and> map_ok (w_event_timer w)
     \<and> map_ok (w_command_timer w) \<and> subscriptions_ok (w_subscriptions w)"

lemma subscribe_ok:
  assumes "subscriptions_ok subs"
  shows "subscriptions_ok (subscribe u l ev subs)"
  unfolding subscribe_def
  by (rule fold_invariant [where Q = "\<lambda>i. i < 32"])
    (use assms in \<open>auto simp: subscriptions_ok_def Let_def sorted_wrt_append list_ex_iff\<close>)

lemma unsubscribe_ok: "subscriptions_ok subs \<Longrightarrow> subscriptions_ok (unsubscribe u l ev subs)"
  by (simp add: subscriptions_ok_def unsubscribe_def sorted_wrt_filter)

interpretation registries: registry_predicate "\<lambda>_. True" "\<lambda>w. registries_ok w \<and> configuration w = c" for c
  by unfold_locales (auto simp: registries_ok_def configuration_def subscribe_ok unsubscribe_ok)

text \<open>
  C4: Type invariant of the registries. From the start of the daemon on, whatever datagrams
  arrive, whichever timers fire and whatever the platform refuses, the address book, the link
  book, the user book and the two timer tables have strictly ascending keys, the subscriptions
  hold no duplicate and no event outside the event list, and the configuration stays as it was.
\<close>

theorem registries_hold:
  assumes "map_ok abook" "map_ok lbook" "map_ok ubook"
    and "mihf_start pf (world_new mihfid tid rport lport del order uns abook lbook ubook) = (Inr (), w0)"
    and "daemon_run multicast (Running w0) evs (Running w)"
  shows "registries_ok w \<and> configuration w = (mihfid, rport, lport, del, order, uns)"
proof -
  let ?w = "world_new mihfid tid rport lport del order uns abook lbook ubook"
  have "registries_ok ?w \<and> configuration ?w = (mihfid, rport, lport, del, order, uns)"
    using assms(1-3) by (simp add: registries_ok_def configuration_def world_new_def subscriptions_ok_def map_ok_def)
  then show ?thesis using registries.run_holds [OF assms(5)] registries.start_holds [OF assms(4)] by metis
qed

text \<open>An MIHF without Link SAPs and users.\<close>

definition lonely :: world where
  "lonely = world_new ''m1'' 7 4551 1025 2 [] False [(''m1'', address_entry_new ''10.0.0.1'' 4551)] [] []"

lemma lonely_starts: "mihf_start all_up lonely = (Inr (), lonely)"
  by (simp add: mihf_start_def service_management_init_def lonely_def world_new_def update_capabilities_def on_abook_def
      update_local_capabilities_def lbook_get_ids_def ubook_get_ids_def map_keys_def abook_defs map_modify_def
      address_entry_new_def)

lemma lonely_ticks: "daemon_step True (Running lonely) Book_tick (Running lonely)"
  by (rule goes_on [of all_up 0]) (simp add: lonely_def world_new_def on_abook_def abook_tick_def address_entry_new_def)

theorem registries_hold_witness: "registries_ok lonely \<and> configuration lonely = (''m1'', 4551, 1025, 2, [], False)"
proof -
  have "daemon_run True (Running lonely) [Book_tick, Book_tick] (Running lonely)"
    by (auto intro: run_cons run_nil lonely_ticks)
  moreover have "map_ok [(''m1'', address_entry_new ''10.0.0.1'' 4551)]" "map_ok []" by (simp_all add: map_ok_def)
  ultimately show ?thesis
    using registries_hold [of "[(''m1'', address_entry_new ''10.0.0.1'' 4551)]" "[]" "[]" all_up "''m1''" 7 4551 1025 2 "[]" False lonely True
        "[Book_tick, Book_tick]" lonely] lonely_starts
    by (simp add: lonely_def map_ok_def)
qed

end
