(* ===== verification/Mihf_Tick.thy ===== *)
theory Mihf_Tick
  imports Mihf_Lifetime
begin

text \<open>
  The timer of the transaction pools: one tick takes a tick off the time to live of every
  transaction and removes those whose time is over or that have ended.
\<close>

section \<open>Source transactions\<close>

definition src_ended :: "bool \<Rightarrow> src_transaction \<Rightarrow> src_transaction" where
  "src_ended ok t = (if ok then t\<lparr>transaction_status := SUCCESS, src_state := SRC_SUCCESS\<rparr>
     else t\<lparr>transaction_status := FAILURE, src_state := SRC_FAILURE\<rparr>)"

text \<open>Where the state machine takes a transaction that has no message to process.\<close>

fun src_settled :: "src_transaction_state_t \<Rightarrow> src_transaction \<Rightarrow> src_transaction" where
  "src_settled SRC_WAIT_ACK t = (if ack_requestor_status t = ONGOING then t\<lparr>src_state := SRC_WAIT_ACK\<rparr>
     else src_ended (ack_requestor_status t = SUCCESS) t)"
| "src_settled SRC_WAIT_RESPONSE_MSG t = (if transaction_stop_when t = 0 then src_ended (response_received t) t
     else t\<lparr>src_state := SRC_WAIT_RESPONSE_MSG\<rparr>)"
| "src_settled SRC_SUCCESS t = src_ended True t"
| "src_settled SRC_FAILURE t = src_ended False t"
| "src_settled l t = t"

lemma src_goto_settles:
  assumes "l \<noteq> SRC_INIT" "l \<noteq> SRC_PROCESS_MSG"
    "l = SRC_WAIT_RESPONSE_MSG \<longrightarrow> transaction_stop_when (src_obj w p) = 0 \<or> \<not> msg_in_avail (src_obj w p)"
  shows "wp (goto (Suc (Suc n)) (src_block pf h p) l) Q E w = Q () (src_write p (src_settled l) w)"
  using assms
  by (cases l; cases "ack_requestor_status (src_obj w p)")
    (auto simp: wp_simps src_wait_ack_def src_wait_response_msg_def src_failure_def src_success_def src_ended_def
      src_write_def split: option.splits)

definition src_core :: "src_transaction \<Rightarrow> mihf_id \<times> u16 \<times> u32 \<times> bool" where
  "src_core t = (peer_mihf_id t, t_tid t, transaction_stop_when t, t_multicast t)"

lemma src_core_rsp_mask: "rsp_mask t' = rsp_mask t \<Longrightarrow> src_core t' = src_core t"
proof -
  have "src_core t = src_core (rsp_mask t)" for t by (simp add: src_core_def rsp_mask_def)
  then show "rsp_mask t' = rsp_mask t \<Longrightarrow> src_core t' = src_core t" by metis
qed

lemma src_core_upd [simp]:
  "src_core (t\<lparr>src_state := a\<rparr>) = src_core t" "src_core (t\<lparr>transaction_status := b\<rparr>) = src_core t"
  "src_core (t\<lparr>msg_in_avail := c\<rparr>) = src_core t" "src_core (t\<lparr>response_received := d\<rparr>) = src_core t"
  "src_core (t\<lparr>start_ack_responder := e\<rparr>) = src_core t" "src_core (t\<lparr>msg_out_avail := e\<rparr>) = src_core t"
  "src_core (t\<lparr>retransmission_when := f\<rparr>) = src_core t"
  by (simp_all add: src_core_def)

lemma src_core_settled [simp]: "src_core (src_settled l t) = src_core t"
  by (cases l) (simp_all add: src_ended_def)

lemma src_process_begin_core:
  "safe (src_process_begin pf) (\<lambda>_ s. src_core (fst s) = src_core t \<and> net_mask (snd s) = net_mask n) (t, n)"
  unfolding src_process_begin_def
  by (auto simp: wp_simps responded_def intro!: wp_mono [OF ack_responder_responds] dest!: src_core_rsp_mask)

lemma hold_write:
  assumes "pool_in (Some (ps, obj)) D X p0 k w" "p \<in> X"
  shows "pool_in (Some (ps, obj(p := t))) D X p0 k (w\<lparr>src_obj := (src_obj w)(p := t)\<rparr>)"
  using assms by (auto simp: pool_in_def)

lemma held_same: "pool_in (Some (ps, obj)) D X p0 k w \<Longrightarrow> q \<in> set ps \<Longrightarrow> src_obj w q = obj q"
  by (simp add: pool_in_def)

text \<open>A run of the state machine under the timer.\<close>

definition src_ran :: "src_transaction \<Rightarrow> src_transaction \<Rightarrow> bool" where
  "src_ran t t' \<longleftrightarrow> src_core t' = src_core t \<and> src_state t' \<noteq> SRC_INIT
     \<and> (src_state t' = SRC_PROCESS_MSG \<longrightarrow> src_state t = SRC_PROCESS_MSG)
     \<and> (transaction_status t' = ONGOING \<longrightarrow> src_state t \<noteq> SRC_PROCESS_MSG \<and> t' = t \<and> transaction_status t = ONGOING)"

lemma same_state: "src_state t = l \<Longrightarrow> t\<lparr>src_state := l\<rparr> = t"
  by (cases t) simp

lemma src_ended_status: "transaction_status (src_ended b t) \<noteq> ONGOING"
  by (simp add: src_ended_def)

lemma src_settled_ran:
  assumes "src_state t \<noteq> SRC_INIT" "src_state t \<noteq> SRC_PROCESS_MSG"
  shows "src_ran t (src_settled (src_state t) t)"
proof (cases "transaction_status (src_settled (src_state t) t) = ONGOING")
  case True
  then have "src_settled (src_state t) t = t"
    using assms
    by (cases "src_state t") (simp_all only: src_settled.simps src_ended_status same_state simp_thms split: if_splits)
  with assms True show ?thesis by (simp add: src_ran_def)
next
  case False
  moreover have "src_state (src_settled (src_state t) t) \<noteq> SRC_INIT" "src_state (src_settled (src_state t) t) \<noteq> SRC_PROCESS_MSG"
    using assms by (cases "src_state t"; simp add: src_ended_def)+
  ultimately show ?thesis by (simp add: src_ran_def)
qed

text \<open>
  The exceptions \<open>N\<close> a tick may throw: all those of the code, and those of the handler while the
  timer holds the mutex. The handler is called only for a transaction that is in \<open>SRC_PROCESS_MSG\<close>
  when the timer comes; \<open>B\<close> says that there may be one.
\<close>

locale bounded_handler = pool_handler h for h :: "'w pools_scheme handler" +
  fixes N :: "exn \<Rightarrow> bool" and B :: bool
  assumes allowed: "e \<noteq> out_of_fuel \<Longrightarrow> e \<noteq> deadlock \<Longrightarrow> N e"
    and handler_held: "B \<Longrightarrow> obeys N sac_caught (pool_in (Some (ps, obj)) D X p0 k) (h i out)"
begin

lemma fatal_allowed [intro]: "fatal e \<Longrightarrow> N e"
  by (rule allowed) auto

text \<open>
  A message whose handler was left by an exception is handed over again. The timer holds the
  mutex meanwhile; if the handler comes back, the transaction ends.
\<close>

lemma src_run_held:
  assumes "pool_in (Some (ps, obj)) D X p0 k w" "p \<in> X" "p \<in> set ps" "src_state (src_obj w p) = SRC_PROCESS_MSG"
    "transaction_stop_when (src_obj w p) = 0 \<or> \<not> t_multicast (src_obj w p)" B
  shows "wp (src_run pf h p) (\<lambda>_ w'. pool_in (Some (ps, obj(p := src_obj w' p))) D X p0 k w'
      \<and> src_core (src_obj w' p) = src_core (src_obj w p) \<and> src_state (src_obj w' p) \<noteq> SRC_INIT
      \<and> transaction_status (src_obj w' p) \<noteq> ONGOING) (\<lambda>e _. N e) w"
proof -
  let ?Q = "\<lambda>w'. pool_in (Some (ps, obj(p := src_obj w' p))) D X p0 k w' \<and> src_core (src_obj w' p) = src_core (src_obj w p)"
  have five: "(5 :: nat) = Suc (Suc (Suc (Suc (Suc 0))))" by simp
  have begin_ok: "wp (on_src p (src_process_begin pf)) (\<lambda>_. ?Q) (\<lambda>e _. N e) w"
    unfolding wp_on_src
    by (rule wp_mono [OF src_process_begin_core])
      (auto intro!: hold_write assms(2) net_mask_pool_in [OF _ assms(1)])
  have handled: "wp (h i out) (\<lambda>_. ?Q) (\<lambda>e _. N e) w1" if "?Q w1" for i out w1
    using obeysD [OF handler_held [OF assms(6)] that [THEN conjunct1]]
  proof (rule wp_mono)
    fix x and w2 :: "'w pools_scheme" assume 2: "pool_in (Some (ps, obj(p := src_obj w1 p))) D X p0 k w2"
    then have "src_obj w2 p = src_obj w1 p" using held_same [OF 2 assms(3)] by simp
    with 2 that show "?Q w2" by simp
  qed simp
  have end_ok: "wp (on_src p src_process_end) (\<lambda>r w2. ?Q w2 \<and> (\<exists>l. r = Some l \<and> l \<noteq> SRC_INIT \<and> l \<noteq> SRC_PROCESS_MSG
        \<and> (l = SRC_WAIT_RESPONSE_MSG \<longrightarrow> transaction_stop_when (src_obj w2 p) = 0)
        \<and> (l \<noteq> SRC_WAIT_RESPONSE_MSG \<longrightarrow> l = SRC_SUCCESS))) (\<lambda>e _. N e) w1" if "?Q w1" for w1
    using that assms(5) hold_write [OF that [THEN conjunct1] assms(2)]
    by (auto simp: wp_simps src_process_end_def src_core_def)
  have rest: "wp (goto (Suc (Suc n)) (src_block pf h p) l) (\<lambda>_ w'. pool_in (Some (ps, obj(p := src_obj w' p))) D X p0 k w'
      \<and> src_core (src_obj w' p) = src_core (src_obj w p) \<and> src_state (src_obj w' p) \<noteq> SRC_INIT
      \<and> transaction_status (src_obj w' p) \<noteq> ONGOING) (\<lambda>e _. N e) w2"
    if "?Q w2" "l \<noteq> SRC_INIT" "l \<noteq> SRC_PROCESS_MSG" "l = SRC_WAIT_RESPONSE_MSG \<longrightarrow> transaction_stop_when (src_obj w2 p) = 0"
      "l \<noteq> SRC_WAIT_RESPONSE_MSG \<longrightarrow> l = SRC_SUCCESS" for l w2 n
    using that hold_write [OF that(1) [THEN conjunct1] assms(2), of "src_settled l (src_obj w2 p)"]
    by (cases "l = SRC_SUCCESS") (auto simp: src_goto_settles src_write_def src_ended_def simp del: goto.simps)
  show ?thesis
    unfolding src_run_def wp_bnd wp_basic assms(4) five goto.simps(2) [of "Suc (Suc (Suc (Suc 0)))"] src_block.simps
    by (auto simp: wp_bnd wp_seq simp del: goto.simps
        intro!: wp_mono [OF begin_ok] wp_mono [OF handled] wp_mono [OF end_ok] rest)
qed

lemma src_run_any:
  assumes "pool_in (Some (ps, obj)) D X p0 k w" "p \<in> X" "p \<in> set ps" "src_state (src_obj w p) \<noteq> SRC_INIT"
    "src_state (src_obj w p) = SRC_PROCESS_MSG \<longrightarrow> transaction_stop_when (src_obj w p) = 0 \<or> \<not> t_multicast (src_obj w p)"
    "src_state (src_obj w p) = SRC_WAIT_RESPONSE_MSG \<longrightarrow> transaction_stop_when (src_obj w p) = 0 \<or> \<not> msg_in_avail (src_obj w p)"
    "src_state (src_obj w p) = SRC_PROCESS_MSG \<longrightarrow> B"
  shows "wp (src_run pf h p) (\<lambda>_ w'. pool_in (Some (ps, obj(p := src_obj w' p))) D X p0 k w'
      \<and> src_ran (src_obj w p) (src_obj w' p)) (\<lambda>e _. N e) w"
proof (cases "src_state (src_obj w p) = SRC_PROCESS_MSG")
  case True
  with assms(5,7) have "transaction_stop_when (src_obj w p) = 0 \<or> \<not> t_multicast (src_obj w p)" B by blast+
  from src_run_held [OF assms(1-3) True this] show ?thesis by (rule wp_mono) (auto simp: src_ran_def True)
next
  case False
  have five: "(5 :: nat) = Suc (Suc 3)" by simp
  have settled: "src_ran (src_obj w p) (src_settled (src_state (src_obj w p)) (src_obj w p))"
    using False assms(4) by (rule src_settled_ran [rotated])
  have held: "pool_in (Some (ps, obj(p := src_settled (src_state (src_obj w p)) (src_obj w p)))) D X p0 k
      (src_write p (src_settled (src_state (src_obj w p))) w)"
    unfolding src_write_def by (rule hold_write [OF assms(1,2)])
  have obj: "src_obj (src_write p f w) p = f (src_obj w p)" for f by (simp add: src_write_def)
  show ?thesis
    unfolding src_run_def wp_bnd wp_basic five src_goto_settles [OF assms(4) False assms(6)] obj
    using held settled by (rule conjI)
qed

end

section \<open>The counters of a source transaction\<close>

lemma ack_requestor_retries:
  assumes "ack_req_state t = ACK_REQ_WAIT_ACK" "retransmission_when t = 0" "ack_requestor_status t = ONGOING"
  shows "safe (ack_requestor pf) (\<lambda>_ s. requested (t, n) s \<and> ack_linked (fst s)
    \<and> (ack_requestor_status (fst s) = ONGOING \<longrightarrow> retransmission_when (fst s) \<noteq> 0)) (t, n)"
  using assms unfolding ack_requestor_def
  by (auto simp: wp_simps goto_numeral requested_def req_mask_def net_mask_def ack_linked_def intro!: safe_send_ptr)

lemma req_mask_src:
  assumes "req_mask t' = req_mask (t :: src_transaction)"
  shows "src_state t' = src_state t" "src_core t' = src_core t" "t_out t' = t_out t" "t_in t' = t_in t"
    "msg_in_avail t' = msg_in_avail t" "start_ack_requestor t' = start_ack_requestor t"
    "transaction_status t' = transaction_status t"
  using assms [THEN arg_cong [where f = src_state]] assms [THEN arg_cong [where f = src_core]]
    assms [THEN arg_cong [where f = t_out]] assms [THEN arg_cong [where f = t_in]]
    assms [THEN arg_cong [where f = msg_in_avail]] assms [THEN arg_cong [where f = start_ack_requestor]]
    assms [THEN arg_cong [where f = transaction_status]]
  by (simp_all add: req_mask_def src_core_def)

definition tick_stop :: "'t transaction_scheme \<Rightarrow> 't transaction_scheme" where
  "tick_stop t = t\<lparr>transaction_stop_when := transaction_stop_when t - 1\<rparr>"

definition tick_retransmission :: "src_transaction \<Rightarrow> src_transaction" where
  "tick_retransmission t = t\<lparr>retransmission_when := retransmission_when t - 1\<rparr>"

lemma one_less:
  fixes x :: u32
  assumes "0 < x" "x \<le> 15" "x - 1 \<noteq> 0"
  shows "0 < x - 1 \<and> x - 1 \<le> 15"
proof -
  have "x \<noteq> 0" "x \<noteq> 1" using assms by auto
  then have "unat x \<noteq> 0" "unat x \<noteq> 1" by (auto simp: word_unat_eq_iff)
  then have "1 < unat x" by linarith
  with assms \<open>x \<noteq> 0\<close> show ?thesis by (auto simp: word_le_nat_alt word_less_nat_alt unat_minus_one)
qed

lemma unat_less: "(x :: u32) \<noteq> 0 \<Longrightarrow> unat x \<le> Suc k \<Longrightarrow> unat (x - 1) \<le> k"
  by (simp add: unat_minus_one)

lemma tick_member:
  assumes "src_member p0 (Suc k) p t" "transaction_stop_when (tick_stop t) \<noteq> 0"
  shows "ack_requestor_status t \<noteq> ONGOING \<Longrightarrow> src_member p0 k p (tick_stop t)"
    "ack_requestor_status t = ONGOING \<Longrightarrow> retransmission_when t - 1 \<noteq> 0 \<Longrightarrow>
       src_member p0 k p (tick_retransmission (tick_stop t))"
    "ack_requestor_status t = ONGOING \<Longrightarrow> retransmission_when t - 1 = 0 \<Longrightarrow>
       ack_req_state t = ACK_REQ_WAIT_ACK \<and> start_ack_requestor t \<and> \<not> t_multicast t
       \<and> (src_state t = SRC_WAIT_RESPONSE_MSG \<longrightarrow> \<not> msg_in_avail t)"
proof -
  have stop: "0 < transaction_stop_when t" "transaction_stop_when t \<le> 15" "transaction_stop_when t \<noteq> 0"
    using assms(1) by (auto simp: src_member_def src_sound_def live_def)
  note less = one_less [OF stop(1,2)] unat_less [OF stop(3)]
  show "ack_requestor_status t \<noteq> ONGOING \<Longrightarrow> src_member p0 k p (tick_stop t)"
    "ack_requestor_status t = ONGOING \<Longrightarrow> retransmission_when t - 1 \<noteq> 0 \<Longrightarrow>
       src_member p0 k p (tick_retransmission (tick_stop t))"
    using assms less by (auto simp: src_member_def src_sound_def src_calm_def live_def ack_linked_def tick_stop_def
        tick_retransmission_def split: if_splits)
  show "ack_requestor_status t = ONGOING \<Longrightarrow> retransmission_when t - 1 = 0 \<Longrightarrow>
       ack_req_state t = ACK_REQ_WAIT_ACK \<and> start_ack_requestor t \<and> \<not> t_multicast t
       \<and> (src_state t = SRC_WAIT_RESPONSE_MSG \<longrightarrow> \<not> msg_in_avail t)"
    using assms less stop by (auto simp: src_member_def src_sound_def src_calm_def live_def ack_linked_def tick_stop_def
        split: if_splits)
qed

lemma retried_member:
  assumes "src_member p0 (Suc k) p t" "transaction_stop_when (tick_stop t) \<noteq> 0"
    "ack_requestor_status t = ONGOING" "retransmission_when t - 1 = 0"
    "req_mask t' = req_mask (tick_retransmission (tick_stop t))" "ack_linked t'"
    "ack_requestor_status t' = ONGOING \<longrightarrow> retransmission_when t' \<noteq> 0"
  shows "src_member p0 k p t'"
proof -
  have stop: "0 < transaction_stop_when t" "transaction_stop_when t \<le> 15" "transaction_stop_when t \<noteq> 0"
    using assms(1) by (auto simp: src_member_def src_sound_def live_def)
  have "transaction_stop_when t' = transaction_stop_when t - 1" "t_multicast t' = t_multicast t"
    using req_mask_src(2) [OF assms(5)] by (simp_all add: src_core_def tick_stop_def tick_retransmission_def)
  with assms one_less [OF stop(1,2)] unat_less [OF stop(3)] tick_member(3) [OF assms(1-4)] req_mask_src [OF assms(5)]
  show ?thesis
    by (auto simp: src_member_def src_sound_def src_calm_def live_def tick_stop_def tick_retransmission_def)
qed

abbreviation retransmits :: "('w \<Rightarrow> 't transaction_scheme) \<Rightarrow> (('t transaction_scheme \<Rightarrow> 't transaction_scheme) \<Rightarrow> 'w \<Rightarrow> 'w)
    \<Rightarrow> ('w, unit) eff \<Rightarrow> ('w, unit) eff \<Rightarrow> ('w, unit) eff" where
  "retransmits read write ack run \<equiv> bnd (gets read) (\<lambda>t. on_cond (ack_requestor_status t = ONGOING)
     (seq (upd (write (\<lambda>t. t\<lparr>retransmission_when := retransmission_when t - 1\<rparr>)))
     (bnd (gets read) (\<lambda>t. on_cond (retransmission_when t = 0) (seq ack run)))))"

abbreviation src_retransmits :: "platform \<Rightarrow> 'w pools_scheme handler \<Rightarrow> tptr \<Rightarrow> ('w pools_scheme, unit) eff" where
  "src_retransmits pf h p \<equiv> retransmits (\<lambda>w. src_obj w p) (src_write p) (on_src p (ack_requestor pf)) (src_run pf h p)"

definition t_key :: "'t transaction_scheme \<Rightarrow> mihf_id \<times> u16" where
  "t_key t = (peer_mihf_id t, t_tid t)"

lemma dec_one_wp:
  "wp (dec_one read write ack run) Q E w =
     (if transaction_stop_when (read (write tick_stop w)) = 0
      then wp run (\<lambda>_ w2. wp (retransmits read write ack run) (\<lambda>_ w3.
        Q (transaction_status (read w2) = ONGOING \<or> transaction_status (read w3) \<noteq> ONGOING) w3) E w2) E (write tick_stop w)
      else wp (retransmits read write ack run) (\<lambda>_ w3. Q (transaction_status (read w3) \<noteq> ONGOING) w3) E (write tick_stop w))"
proof -
  have stop: "(\<lambda>t. t\<lparr>transaction_stop_when := transaction_stop_when t - 1\<rparr>) = tick_stop" by (simp add: fun_eq_iff tick_stop_def)
  show ?thesis
    unfolding dec_one_def stop wp_seq wp_bnd wp_basic wp_if by (simp add: wp_seq wp_bnd wp_basic wp_pair)
qed

lemma hold_refl: "pool_in (Some (ps, obj)) D X p0 k w \<Longrightarrow> p \<in> set ps \<Longrightarrow> pool_in (Some (ps, obj(p := src_obj w p))) D X p0 k w"
  using held_same [of ps obj D X p0 k w p] by simp

lemma src_write_obj [simp]: "src_obj (src_write p f w) p = f (src_obj w p)"
  by (simp add: src_write_def)

lemma hold_src_write:
  assumes "pool_in (Some (ps, obj)) D X p0 k w" "p \<in> X"
  shows "pool_in (Some (ps, obj(p := f (src_obj w p)))) D X p0 k (src_write p f w)"
  unfolding src_write_def by (rule hold_write [OF assms])

text \<open>A transaction with at most \<open>k\<close> ticks to live, and not inside its handler unless \<open>B\<close> allows it.\<close>

definition src_due :: "bool \<Rightarrow> tptr \<Rightarrow> nat \<Rightarrow> tptr \<Rightarrow> src_transaction \<Rightarrow> bool" where
  "src_due B p0 k p t \<longleftrightarrow> src_member p0 k p t \<and> (src_state t = SRC_PROCESS_MSG \<longrightarrow> B)"

text \<open>A transaction in the pool whose handler was left by an exception.\<close>

definition src_left :: "'w pools_scheme \<Rightarrow> bool" where
  "src_left w \<longleftrightarrow> (\<exists>p \<in> set (src_pool w). src_state (src_obj w p) = SRC_PROCESS_MSG)"

context bounded_handler
begin

lemma expired_retransmits:
  assumes "pool_in (Some (ps, obj)) D X p0 k w" "p \<in> X" "p \<in> set ps" "src_state (src_obj w p) \<noteq> SRC_INIT"
    "transaction_stop_when (src_obj w p) = 0" "src_state (src_obj w p) = SRC_PROCESS_MSG \<longrightarrow> B"
  shows "wp (src_retransmits pf h p) (\<lambda>_ w'. pool_in (Some (ps, obj(p := src_obj w' p))) D X p0 k w'
      \<and> src_core (src_obj w' p) = src_core (src_obj w p)
      \<and> (transaction_status (src_obj w p) \<noteq> ONGOING \<longrightarrow> transaction_status (src_obj w' p) \<noteq> ONGOING)) (\<lambda>e _. N e) w"
proof -
  let ?w = "src_write p (\<lambda>t. t\<lparr>retransmission_when := retransmission_when t - 1\<rparr>) w"
  let ?post = "\<lambda>w'. pool_in (Some (ps, obj(p := src_obj w' p))) D X p0 k w' \<and> src_core (src_obj w' p) = src_core (src_obj w p)
      \<and> (transaction_status (src_obj w p) \<noteq> ONGOING \<longrightarrow> transaction_status (src_obj w' p) \<noteq> ONGOING)"
  have w: "pool_in (Some (ps, obj(p := src_obj ?w p))) D X p0 k ?w"
    using hold_src_write [OF assms(1,2)] by simp
  have stop: "transaction_stop_when t = 0" if "src_core t = src_core (src_obj w p)" for t
    using that assms(5) by (simp add: src_core_def)
  have run: "wp (src_run pf h p) (\<lambda>_. ?post) (\<lambda>e _. N e) w2"
    if "pool_in (Some (ps, obj2)) D X p0 k w2" "req_mask (src_obj w2 p) = req_mask (src_obj ?w p)" "obj2 = obj(p := src_obj w2 p)"
    for w2 obj2
  proof -
    have same: "src_state (src_obj w2 p) = src_state (src_obj w p)" "src_core (src_obj w2 p) = src_core (src_obj w p)"
      "transaction_status (src_obj w2 p) = transaction_status (src_obj w p)"
      using req_mask_src [OF that(2)] by simp_all
    show ?thesis
      by (rule wp_mono [OF src_run_any [OF that(1) assms(2,3)]])
        (use assms(4,6) stop [OF same(2)] that(3) in \<open>auto simp: same src_ran_def\<close>)
  qed
  have "wp (on_src p (ack_requestor pf)) (\<lambda>_. wp (src_run pf h p) (\<lambda>_. ?post) (\<lambda>e _. N e)) (\<lambda>e _. N e) ?w"
    unfolding wp_on_src
    by (rule wp_mono [OF ack_requestor_requests])
      (auto simp: requested_def intro!: run [OF hold_write [OF net_mask_pool_in [OF _ w] assms(2)]])
  then show ?thesis
    unfolding wp_bnd wp_basic wp_on_cond wp_seq
    using w hold_refl [OF assms(1,3)] by auto
qed

lemma live_retransmits:
  assumes "pool_in (Some (ps, obj)) D X p0 k w" "p \<in> X" "p \<in> set ps" "src_obj w p = tick_stop t0"
    "src_member p0 (Suc (fst k)) p t0" "transaction_stop_when (tick_stop t0) \<noteq> 0" "src_state t0 = SRC_PROCESS_MSG \<longrightarrow> B"
  shows "wp (src_retransmits pf h p) (\<lambda>_ w'. pool_in (Some (ps, obj(p := src_obj w' p))) D X p0 k w'
      \<and> src_core (src_obj w' p) = src_core (src_obj w p)
      \<and> (transaction_status (src_obj w' p) = ONGOING \<longrightarrow> src_due B p0 (fst k) p (src_obj w' p))) (\<lambda>e _. N e) w"
proof -
  let ?w = "src_write p (\<lambda>t. t\<lparr>retransmission_when := retransmission_when t - 1\<rparr>) w"
  let ?t = "tick_retransmission (tick_stop t0)"
  let ?post = "\<lambda>w'. pool_in (Some (ps, obj(p := src_obj w' p))) D X p0 k w' \<and> src_core (src_obj w' p) = src_core (src_obj w p)
      \<and> (transaction_status (src_obj w' p) = ONGOING \<longrightarrow> src_due B p0 (fst k) p (src_obj w' p))"
  have w: "pool_in (Some (ps, obj(p := src_obj ?w p))) D X p0 k ?w"
    using hold_src_write [OF assms(1,2)] by simp
  have t: "src_obj ?w p = ?t" using assms(4) by (simp add: tick_retransmission_def)
  note member = tick_member [OF assms(5,6)]
  have ack: "wp (on_src p (ack_requestor pf)) (\<lambda>_. wp (src_run pf h p) (\<lambda>_. ?post) (\<lambda>e _. N e)) (\<lambda>e _. N e) ?w"
    if retry: "ack_requestor_status t0 = ONGOING" "retransmission_when t0 - 1 = 0"
    unfolding wp_on_src t
  proof (rule wp_mono [OF ack_requestor_retries])
    fix x and s :: "src_transaction \<times> 'w pools_scheme"
    assume s: "requested (?t, ?w) s \<and> ack_linked (fst s)
      \<and> (ack_requestor_status (fst s) = ONGOING \<longrightarrow> retransmission_when (fst s) \<noteq> 0)"
    let ?v = "(snd s)\<lparr>src_obj := (src_obj (snd s))(p := fst s)\<rparr>"
    have m: "req_mask (fst s) = req_mask ?t" "net_mask (snd s) = net_mask ?w" using s by (simp_all add: requested_def)
    have v: "pool_in (Some (ps, obj(p := fst s))) D X p0 k ?v"
      using hold_write [OF net_mask_pool_in [OF m(2) w] assms(2), of "fst s"] by simp
    have same: "src_state (fst s) = src_state t0" "src_core (fst s) = src_core (src_obj w p)" "msg_in_avail (fst s) = msg_in_avail t0"
      using req_mask_src [OF m(1)] assms(4) by (simp_all add: tick_stop_def tick_retransmission_def src_core_def)
    then have "\<not> t_multicast (fst s)" using member(3) [OF retry] assms(4) by (simp add: src_core_def tick_stop_def)
    moreover have "src_member p0 (fst k) p (fst s)" using retried_member [OF assms(5,6) retry m(1)] s by blast
    moreover have "src_state t0 \<noteq> SRC_INIT" using assms(5) by (simp add: src_member_def src_sound_def)
    ultimately show "wp (src_run pf h p) (\<lambda>_. ?post) (\<lambda>e _. N e) ?v"
      using member(3) [OF retry] same assms(7)
      by (intro wp_mono [OF src_run_any [OF v assms(2,3)]]) (auto simp: src_ran_def src_due_def)
  qed (use member(3) [OF retry] retry in \<open>auto simp: tick_retransmission_def tick_stop_def\<close>)
  show ?thesis
    unfolding wp_bnd wp_basic wp_on_cond wp_seq
    using w t ack hold_refl [OF assms(1,3)] member(1,2) assms(4,7)
    by (auto simp: tick_stop_def tick_retransmission_def src_due_def)
qed

lemma src_dec_one_ok:
  assumes "pool_in (Some (ps, obj)) D X p0 k w" "p \<in> X" "p \<in> set ps" "src_due B p0 (Suc (fst k)) p (obj p)"
  shows "wp (src_dec_one pf h p) (\<lambda>b w'. pool_in (Some (ps, obj(p := src_obj w' p))) D X p0 k w'
      \<and> t_key (src_obj w' p) = t_key (obj p) \<and> (b \<or> src_due B p0 (fst k) p (src_obj w' p))) (\<lambda>e _. N e) w"
proof -
  let ?w = "src_write p tick_stop w"
  let ?obj = "obj(p := tick_stop (obj p))"
  have same: "src_obj w p = obj p" using held_same [OF assms(1,3)] .
  have w: "pool_in (Some (ps, ?obj)) D X p0 k ?w" "src_obj ?w p = tick_stop (obj p)"
    using hold_src_write [OF assms(1,2), of tick_stop] same by simp_all
  have key: "t_key t = t_key (obj p)" if "src_core t = src_core (tick_stop (obj p))" for t
    using that by (simp add: src_core_def t_key_def tick_stop_def)
  have due: "src_member p0 (Suc (fst k)) p (obj p)" "src_state (obj p) = SRC_PROCESS_MSG \<longrightarrow> B"
    using assms(4) by (simp_all add: src_due_def)
  have state: "src_state (tick_stop (obj p)) \<noteq> SRC_INIT" "src_state (tick_stop (obj p)) = src_state (obj p)"
    using due(1) by (simp_all add: tick_stop_def src_member_def src_sound_def)
  show ?thesis
  proof (cases "transaction_stop_when (tick_stop (obj p)) = 0")
    case True
    let ?Q = "\<lambda>b w'. pool_in (Some (ps, obj(p := src_obj w' p))) D X p0 k w'
      \<and> t_key (src_obj w' p) = t_key (obj p) \<and> (b \<or> src_due B p0 (fst k) p (src_obj w' p))"
    have *: "wp (src_retransmits pf h p) (\<lambda>_ w3. ?Q (transaction_status (src_obj w2 p) = ONGOING
          \<or> transaction_status (src_obj w3 p) \<noteq> ONGOING) w3) (\<lambda>e _. N e) w2"
      if 2: "pool_in (Some (ps, obj(p := src_obj w2 p))) D X p0 k w2" "src_ran (tick_stop (obj p)) (src_obj w2 p)" for w2
    proof -
      have "transaction_stop_when (src_obj w2 p) = 0" "src_state (src_obj w2 p) \<noteq> SRC_INIT"
        "src_state (src_obj w2 p) = SRC_PROCESS_MSG \<longrightarrow> B"
        using 2(2) True due(2) state(2) by (simp_all add: src_ran_def src_core_def)
      from expired_retransmits [OF 2(1) assms(2,3) this(2,1,3), of pf] show ?thesis
        by (rule wp_mono) (use 2(2) key in \<open>auto simp: src_ran_def\<close>)
    qed
    have "wp (src_run pf h p) (\<lambda>_ w2. wp (src_retransmits pf h p) (\<lambda>_ w3. ?Q (transaction_status (src_obj w2 p) = ONGOING
          \<or> transaction_status (src_obj w3 p) \<noteq> ONGOING) w3) (\<lambda>e _. N e) w2) (\<lambda>e _. N e) ?w"
      by (rule wp_mono [OF src_run_any [OF w(1) assms(2,3)]]) (use True state due(2) * in \<open>auto simp: same\<close>)
    with True show ?thesis unfolding src_dec_one_def dec_one_wp w(2) by simp
  next
    case False
    have "wp (src_retransmits pf h p) (\<lambda>_ w'. pool_in (Some (ps, obj(p := src_obj w' p))) D X p0 k w'
      \<and> t_key (src_obj w' p) = t_key (obj p)
      \<and> (transaction_status (src_obj w' p) \<noteq> ONGOING \<or> src_due B p0 (fst k) p (src_obj w' p))) (\<lambda>e _. N e) ?w"
      by (rule wp_mono [OF live_retransmits [OF w(1) assms(2,3) w(2) due(1) False due(2)]]) (auto simp: key same)
    with False show ?thesis unfolding src_dec_one_def dec_one_wp w(2) by simp
  qed
qed

end

text \<open>
  The loop of \<open>dec\<close>: the transactions it has passed have one tick less to live or are to be deleted,
  those ahead of it are as they were.
\<close>

definition swept :: "(tptr \<Rightarrow> 't transaction_scheme \<Rightarrow> bool) \<Rightarrow> (tptr \<Rightarrow> 't transaction_scheme \<Rightarrow> bool)
    \<Rightarrow> tptr list \<Rightarrow> tptr list \<Rightarrow> tptr list \<Rightarrow> (tptr \<Rightarrow> 't transaction_scheme) \<Rightarrow> bool" where
  "swept M M' ps qs ds obj \<longleftrightarrow> set ds \<subseteq> set ps \<and> set qs \<subseteq> set ps \<and> distinct qs \<and> (\<forall>q \<in> set qs. M q (obj q))
     \<and> (\<forall>q \<in> set ps - set qs. M' q (obj q) \<or> (\<exists>d \<in> set ds. t_key (obj d) = t_key (obj q)))"

lemma swept_step:
  assumes "swept M M' ps (q # qs) ds obj" "t_key t = t_key (obj q)" "b \<or> M' q t"
    "\<And>p. p \<in> set ps \<Longrightarrow> obj1 p = (obj(q := t)) p"
  shows "swept M M' ps qs (if b then set_insert obj1 q ds else ds) (obj(q := t))"
proof -
  let ?ds = "if b then set_insert obj1 q ds else ds"
  have q: "q \<in> set ps" "q \<notin> set qs" "set ds \<subseteq> set ps" using assms(1) by (auto simp: swept_def)
  have key: "t_key ((obj(q := t)) p) = t_key (obj p)" for p using assms(2) by auto
  have same: "t_key (obj1 p) = t_key (obj p)" if "p \<in> set ps" for p using assms(4) [OF that] key by metis
  have found: "\<exists>d \<in> set ?ds. t_key (obj d) = t_key (obj q)" if b
  proof (cases "list_ex (equivalent obj1 q) ds")
    case True
    then obtain d where d: "d \<in> set ds" "t_key (obj1 d) = t_key (obj1 q)"
      by (auto simp: list_ex_iff equivalent_same t_key_def)
    with q have "t_key (obj d) = t_key (obj q)" using same [of d] same [of q] by auto
    with d that True show ?thesis by (auto simp: set_insert_def)
  qed (use that in \<open>simp add: set_insert_def\<close>)
  have more: "set ds \<subseteq> set ?ds" "set ?ds \<subseteq> set ps" using q by (auto simp: set_insert_def)
  have "M' p ((obj(q := t)) p) \<or> (\<exists>d \<in> set ?ds. t_key (obj d) = t_key (obj p))"
    if "p \<in> set ps" "p \<notin> set qs" for p
  proof (cases "p = q")
    case True
    with assms(3) found show ?thesis by auto
  next
    case False
    with that assms(1) have "M' p (obj p) \<or> (\<exists>d \<in> set ds. t_key (obj d) = t_key (obj p))"
      by (simp add: swept_def)
    with False more(1) show ?thesis by auto
  qed
  moreover have "M p ((obj(q := t)) p)" if "p \<in> set qs" for p
    using assms(1) that q by (auto simp: swept_def)
  ultimately show ?thesis using assms(1) more(2) unfolding swept_def key by simp
qed

lemma del_src_all:
  "\<not> src_lock w \<Longrightarrow> for_each tpool_del_src ds w =
     (Inr (), w\<lparr>src_pool := filter (\<lambda>q. \<forall>d \<in> set ds. \<not> equivalent (src_obj w) d q) (src_pool w)\<rparr>)"
  by (induction ds arbitrary: w) (simp_all add: tpool_src_run set_erase_def conj_commute)

context bounded_handler
begin

lemma collect_src:
  assumes "pool_in (Some (ps, obj)) D (set ps) p0 k w" "swept (src_due B p0 (Suc (fst k))) (src_due B p0 (fst k)) ps qs ds obj"
  shows "wp (collect (\<lambda>w. set_insert (src_obj w)) (src_dec_one pf h) qs ds)
    (\<lambda>ds' w'. \<exists>obj'. pool_in (Some (ps, obj')) D (set ps) p0 k w' \<and> swept (src_due B p0 (Suc (fst k))) (src_due B p0 (fst k)) ps [] ds' obj') (\<lambda>e _. N e) w"
  using assms
proof (induction qs arbitrary: obj ds w)
  case Nil
  then show ?case by (auto simp: wp_pair)
next
  case (Cons q qs)
  have q: "q \<in> set ps" "src_due B p0 (Suc (fst k)) q (obj q)" using Cons.prems(2) by (auto simp: swept_def)
  show ?case
    unfolding collect.simps wp_bnd wp_basic
  proof (rule wp_mono [OF src_dec_one_ok [OF Cons.prems(1) q(1,1,2)]])
    fix b and w1 :: "'w pools_scheme"
    assume 1: "pool_in (Some (ps, obj(q := src_obj w1 q))) D (set ps) p0 k w1
      \<and> t_key (src_obj w1 q) = t_key (obj q) \<and> (b \<or> src_due B p0 (fst k) q (src_obj w1 q))"
    have "swept (src_due B p0 (Suc (fst k))) (src_due B p0 (fst k)) ps qs (if b then set_insert (src_obj w1) q ds else ds) (obj(q := src_obj w1 q))"
      using 1 held_same [OF 1 [THEN conjunct1]] by (intro swept_step [OF Cons.prems(2)]) auto
    then show "wp (collect (\<lambda>w. set_insert (src_obj w)) (src_dec_one pf h) qs (if b then set_insert (src_obj w1) q ds else ds))
      (\<lambda>ds' w'. \<exists>obj'. pool_in (Some (ps, obj')) D (set ps) p0 k w' \<and> swept (src_due B p0 (Suc (fst k))) (src_due B p0 (fst k)) ps [] ds' obj') (\<lambda>e _. N e) w1"
      by (rule Cons.IH [OF 1 [THEN conjunct1]])
  qed simp
qed

lemma dec_src_ok:
  assumes "pool_ok D {} p0 (Suc a, b) w" "src_left w \<longrightarrow> B"
  shows "wp (dec_src pf h) (\<lambda>_ w'. pool_ok D {} p0 (a, b) w' \<and> (src_left w' \<longrightarrow> B)) (\<lambda>e _. N e) w"
proof -
  let ?ps = "src_pool w" and ?post = "\<lambda>w'. pool_ok D {} p0 (a, b) w' \<and> (src_left w' \<longrightarrow> B)"
  have "pool_in (Some (?ps, src_obj w)) D (set ?ps) p0 (a, b) (w\<lparr>src_lock := True\<rparr>)"
    "swept (src_due B p0 (Suc a)) (src_due B p0 a) ?ps ?ps [] (src_obj w)"
    using assms by (auto simp: pool_in_def swept_def src_due_def src_left_def)
  from collect_src [OF this(1), unfolded fst_conv, OF this(2), of pf]
  have "wp (collect (\<lambda>w. set_insert (src_obj w)) (src_dec_one pf h) ?ps [])
      (\<lambda>ds w'. ?post (w'\<lparr>src_lock := False,
         src_pool := filter (\<lambda>q. \<forall>d \<in> set ds. \<not> equivalent (src_obj w') d q) (src_pool w')\<rparr>)) (\<lambda>e _. N e) (w\<lparr>src_lock := True\<rparr>)"
  proof (rule wp_mono)
    fix ds and w1 :: "'w pools_scheme"
    assume "\<exists>obj. pool_in (Some (?ps, obj)) D (set ?ps) p0 (a, b) w1 \<and> swept (src_due B p0 (Suc a)) (src_due B p0 a) ?ps [] ds obj"
    then obtain obj where 1: "pool_in (Some (?ps, obj)) D (set ?ps) p0 (a, b) w1" "swept (src_due B p0 (Suc a)) (src_due B p0 a) ?ps [] ds obj" by auto
    have "src_due B p0 a q (src_obj w1 q)" if "q \<in> set ?ps" "\<forall>d \<in> set ds. \<not> equivalent (src_obj w1) d q" for q
    proof -
      have "t_key (obj d) \<noteq> t_key (obj q)" if "d \<in> set ds" for d
        using \<open>\<forall>d \<in> set ds. _ d\<close> that 1(2) \<open>q \<in> set ?ps\<close> held_same [OF 1(1)]
        by (fastforce simp: swept_def equivalent_same t_key_def)
      with 1(2) that(1) show ?thesis using held_same [OF 1(1) that(1)] by (auto simp: swept_def)
    qed
    with 1 show "?post (w1\<lparr>src_lock := False,
         src_pool := filter (\<lambda>q. \<forall>d \<in> set ds. \<not> equivalent (src_obj w1) d q) (src_pool w1)\<rparr>)"
      by (auto simp: pool_in_def src_due_def src_left_def)
  qed
  then show ?thesis
    unfolding dec_src_def wp_bnd wp_lock wp_basic using pool_unlocked [OF assms(1)]
    by (auto simp: wp_def del_src_all split: prod.splits sum.splits)
qed

end

section \<open>Destination transactions\<close>

text \<open>The state machine of a destination transaction in the pool does not call the handler.\<close>

abbreviation dst_retransmits :: "platform \<Rightarrow> 'w pools_scheme handler \<Rightarrow> tptr \<Rightarrow> ('w pools_scheme, unit) eff" where
  "dst_retransmits pf h p \<equiv> retransmits (\<lambda>w. dst_obj w p) (dst_write p) (on_dst p (ack_requestor pf)) (dst_run pf h p)"

lemma dst_write_obj [simp]: "dst_obj (dst_write p f w) p = f (dst_obj w p)"
  by (simp add: dst_write_def)

lemma dst_mask_write [simp]: "dst_mask p (dst_write p f w) = dst_mask p w"
  unfolding dst_write_def by (rule dst_mask_on) simp

lemma dst_moved_trans: "dst_moved p w w1 \<Longrightarrow> dst_moved p w1 w2 \<Longrightarrow> dst_moved p w w2"
  by (auto simp: dst_moved_def dst_same_def)

lemma dst_runs:
  assumes "dst_state (dst_obj w p) \<noteq> DST_INIT"
  shows "wp (dst_run pf h p) (\<lambda>_ w'. dst_moved p w w' \<and> dst_state (dst_obj w' p) \<noteq> DST_INIT) (\<lambda>e _. fatal e) w"
  by (rule wp_mono [OF dst_run_moves [OF assms]]) (auto simp: dst_arrives_def)

lemma dst_retransmits_moves:
  assumes "dst_state (dst_obj w p) \<noteq> DST_INIT"
  shows "wp (dst_retransmits pf h p) (\<lambda>_ w'. dst_moved p w w' \<and> dst_state (dst_obj w' p) \<noteq> DST_INIT) (\<lambda>e _. fatal e) w"
proof -
  let ?w = "dst_write p (\<lambda>t. t\<lparr>retransmission_when := retransmission_when t - 1\<rparr>) w"
  have w: "dst_moved p w ?w" "dst_state (dst_obj ?w p) \<noteq> DST_INIT"
    using assms by (simp_all add: dst_moved_def dst_same_def dst_core_def)
  have run: "wp (dst_run pf h p) (\<lambda>_ w'. dst_moved p w w' \<and> dst_state (dst_obj w' p) \<noteq> DST_INIT) (\<lambda>e _. fatal e) w1"
    if "dst_moved p w w1" "dst_state (dst_obj w1 p) \<noteq> DST_INIT" for w1
    by (rule wp_mono [OF dst_runs [OF that(2)]]) (auto intro: dst_moved_trans [OF that(1)])
  have "wp (on_dst p (ack_requestor pf)) (\<lambda>_. wp (dst_run pf h p)
      (\<lambda>_ w'. dst_moved p w w' \<and> dst_state (dst_obj w' p) \<noteq> DST_INIT) (\<lambda>e _. fatal e)) (\<lambda>e _. fatal e) ?w"
    unfolding wp_on_dst
  proof (rule wp_mono [OF ack_requestor_requests])
    fix x s assume "requested (dst_obj ?w p, ?w) s"
    then have "req_mask (fst s) = req_mask (dst_obj ?w p)" "net_mask (snd s) = net_mask ?w" by (simp_all add: requested_def)
    then have "dst_moved p ?w ((snd s)\<lparr>dst_obj := (dst_obj (snd s))(p := fst s)\<rparr>)"
      "dst_state (fst s) = dst_state (dst_obj ?w p)"
      using dst_core_masks(1) [of "fst s" "dst_obj ?w p"] by (auto simp: dst_moved_def dst_mask_on)
    then show "wp (dst_run pf h p) (\<lambda>_ w'. dst_moved p w w' \<and> dst_state (dst_obj w' p) \<noteq> DST_INIT) (\<lambda>e _. fatal e)
        ((snd s)\<lparr>dst_obj := (dst_obj (snd s))(p := fst s)\<rparr>)"
      using w by (intro run dst_moved_trans [OF w(1)]) auto
  qed auto
  then show ?thesis
    unfolding wp_bnd wp_basic wp_on_cond wp_seq using w assms by (auto simp: dst_moved_def dst_same_def)
qed

lemma dst_dec_one_ok:
  assumes "dst_member p0 (Suc k) p (dst_obj w p)"
  shows "wp (dst_dec_one pf h p) (\<lambda>b w'. dst_mask p w' = dst_mask p w \<and> t_key (dst_obj w' p) = t_key (dst_obj w p)
      \<and> (b \<or> dst_member p0 k p (dst_obj w' p))) (\<lambda>e _. fatal e) w"
proof -
  let ?t = "dst_obj w p" and ?w = "dst_write p tick_stop w"
  let ?Q = "\<lambda>b w'. dst_mask p w' = dst_mask p w \<and> t_key (dst_obj w' p) = t_key ?t \<and> (b \<or> dst_member p0 k p (dst_obj w' p))"
  have w: "dst_state (dst_obj ?w p) \<noteq> DST_INIT" "dst_obj ?w p = tick_stop ?t"
    using assms by (simp_all add: dst_member_def dst_sound_def tick_stop_def)
  have moved: "dst_mask p w' = dst_mask p w" "t_key (dst_obj w' p) = t_key ?t" if "dst_moved p ?w w'" for w'
    using that by (auto simp: dst_moved_def dst_same_def dst_core_def t_key_def tick_stop_def)
  have stop: "0 < transaction_stop_when ?t" "transaction_stop_when ?t \<le> 15" "transaction_stop_when ?t \<noteq> 0"
    using assms by (auto simp: dst_member_def dst_sound_def live_def)
  show ?thesis
  proof (cases "transaction_stop_when (tick_stop ?t) = 0")
    case True
    have "wp (dst_retransmits pf h p) (\<lambda>_ w3. ?Q (transaction_status (dst_obj w2 p) = ONGOING
        \<or> transaction_status (dst_obj w3 p) \<noteq> ONGOING) w3) (\<lambda>e _. fatal e) w2"
      if 2: "dst_moved p ?w w2" "dst_state (dst_obj w2 p) \<noteq> DST_INIT" for w2
    proof (rule wp_mono [OF dst_retransmits_moves [OF 2(2)]])
      fix x w3 assume "dst_moved p w2 w3 \<and> dst_state (dst_obj w3 p) \<noteq> DST_INIT"
      then have 3: "dst_moved p w2 w3" by blast
      then have "transaction_status (dst_obj w2 p) \<noteq> ONGOING \<longrightarrow> transaction_status (dst_obj w3 p) \<noteq> ONGOING"
        by (simp add: dst_moved_def dst_same_def)
      with moved [OF dst_moved_trans [OF 2(1) 3]]
      show "?Q (transaction_status (dst_obj w2 p) = ONGOING \<or> transaction_status (dst_obj w3 p) \<noteq> ONGOING) w3" by blast
    qed simp
    then have "wp (dst_run pf h p) (\<lambda>_ w2. wp (dst_retransmits pf h p) (\<lambda>_ w3. ?Q (transaction_status (dst_obj w2 p) = ONGOING
        \<or> transaction_status (dst_obj w3 p) \<noteq> ONGOING) w3) (\<lambda>e _. fatal e) w2) (\<lambda>e _. fatal e) ?w"
      by (intro wp_mono [OF dst_runs [OF w(1)]]) auto
    with True show ?thesis unfolding dst_dec_one_def dec_one_wp w(2) by simp
  next
    case False
    have "dst_member p0 k p (dst_obj w' p)" if "dst_moved p ?w w'" "dst_state (dst_obj w' p) \<noteq> DST_INIT" for w'
      using that assms one_less [OF stop(1,2)] unat_less [OF stop(3)] False
      by (auto simp: dst_moved_def dst_same_def dst_core_def dst_member_def dst_sound_def live_def tick_stop_def)
    then have "wp (dst_retransmits pf h p) (\<lambda>_ w3. ?Q (transaction_status (dst_obj w3 p) \<noteq> ONGOING) w3) (\<lambda>e _. fatal e) ?w"
      by (intro wp_mono [OF dst_retransmits_moves [OF w(1)]]) (auto simp: moved)
    with False show ?thesis unfolding dst_dec_one_def dec_one_wp w(2) by simp
  qed
qed

text \<open>The loop changes nothing but destination transactions.\<close>

definition dst_only :: "'w pools_scheme \<Rightarrow> 'w pools_scheme \<Rightarrow> bool" where
  "dst_only w w' \<longleftrightarrow> src_pool w' = src_pool w \<and> dst_pool w' = dst_pool w \<and> src_obj w' = src_obj w \<and> t_next w' = t_next w
     \<and> src_lock w' = src_lock w \<and> dst_lock w' = dst_lock w"

lemma dst_mask_only: "dst_mask p w' = dst_mask p w \<Longrightarrow> dst_only w w'"
  using dst_mask_pools [of p w' w] by (simp add: dst_only_def)

lemma dst_only_trans: "dst_only w w1 \<Longrightarrow> dst_only w1 w2 \<Longrightarrow> dst_only w w2"
  by (simp add: dst_only_def)

lemma collect_dst:
  assumes "swept (dst_member p0 (Suc k)) (dst_member p0 k) ps qs ds (dst_obj w)"
  shows "wp (collect (\<lambda>w. set_insert (dst_obj w)) (dst_dec_one pf h) qs ds)
    (\<lambda>ds' w'. dst_only w w' \<and> swept (dst_member p0 (Suc k)) (dst_member p0 k) ps [] ds' (dst_obj w')) (\<lambda>e _. fatal e) w"
  using assms
proof (induction qs arbitrary: ds w)
  case Nil
  then show ?case by (auto simp: wp_pair dst_only_def)
next
  case (Cons q qs)
  have q: "q \<in> set ps" "dst_member p0 (Suc k) q (dst_obj w q)" using Cons.prems by (auto simp: swept_def)
  show ?case
    unfolding collect.simps wp_bnd wp_basic
  proof (rule wp_mono [OF dst_dec_one_ok [OF q(2)]])
    fix b w1
    assume 1: "dst_mask q w1 = dst_mask q w \<and> t_key (dst_obj w1 q) = t_key (dst_obj w q) \<and> (b \<or> dst_member p0 k q (dst_obj w1 q))"
    have obj: "dst_obj w1 = (dst_obj w)(q := dst_obj w1 q)"
      using dst_mask_pools(7) [of q w1 w] 1 by (auto simp: fun_eq_iff)
    have "swept (dst_member p0 (Suc k)) (dst_member p0 k) ps qs (if b then set_insert (dst_obj w1) q ds else ds)
        ((dst_obj w)(q := dst_obj w1 q))"
      using 1 obj by (intro swept_step [OF Cons.prems]) metis+
    then have "swept (dst_member p0 (Suc k)) (dst_member p0 k) ps qs (if b then set_insert (dst_obj w1) q ds else ds) (dst_obj w1)"
      by (simp flip: obj)
    from Cons.IH [OF this] show "wp (collect (\<lambda>w. set_insert (dst_obj w)) (dst_dec_one pf h) qs
        (if b then set_insert (dst_obj w1) q ds else ds))
      (\<lambda>ds' w'. dst_only w w' \<and> swept (dst_member p0 (Suc k)) (dst_member p0 k) ps [] ds' (dst_obj w')) (\<lambda>e _. fatal e) w1"
      by (rule wp_mono) (use 1 dst_mask_only [of q w1 w] dst_only_trans [of w w1] in blast)+
  qed simp
qed

lemma del_dst_all:
  "\<not> dst_lock w \<Longrightarrow> for_each tpool_del_dst ds w =
     (Inr (), w\<lparr>dst_pool := filter (\<lambda>q. \<forall>d \<in> set ds. \<not> equivalent (dst_obj w) d q) (dst_pool w)\<rparr>)"
  by (induction ds arbitrary: w) (simp_all add: tpool_dst_run set_erase_def conj_commute)

lemma dec_dst_ok:
  assumes "pool_ok {} {} p0 (a, Suc b) w"
  shows "wp (dec_dst pf h) (\<lambda>_ w'. pool_ok {} {} p0 (a, b) w' \<and> src_left w' = src_left w) (\<lambda>e _. fatal e) w"
proof -
  let ?post = "\<lambda>w'. pool_ok {} {} p0 (a, b) w' \<and> src_left w' = src_left w"
  let ?ps = "dst_pool w" and ?w = "w\<lparr>dst_lock := True\<rparr>"
  have "swept (dst_member p0 (Suc b)) (dst_member p0 b) ?ps ?ps [] (dst_obj ?w)"
    using assms by (auto simp: pool_in_def swept_def)
  from collect_dst [OF this, of pf h]
  have "wp (collect (\<lambda>w. set_insert (dst_obj w)) (dst_dec_one pf h) ?ps [])
      (\<lambda>ds w'. ?post (w'\<lparr>dst_lock := False,
         dst_pool := filter (\<lambda>q. \<forall>d \<in> set ds. \<not> equivalent (dst_obj w') d q) (dst_pool w')\<rparr>)) (\<lambda>e _. fatal e) ?w"
  proof (rule wp_mono)
    fix ds w1
    assume 1: "dst_only ?w w1 \<and> swept (dst_member p0 (Suc b)) (dst_member p0 b) ?ps [] ds (dst_obj w1)"
    have "dst_member p0 b q (dst_obj w1 q)" if "q \<in> set ?ps" "\<forall>d \<in> set ds. \<not> equivalent (dst_obj w1) d q" for q
      using that 1 by (auto simp: swept_def equivalent_same t_key_def)
    with 1 assms show "?post (w1\<lparr>dst_lock := False,
         dst_pool := filter (\<lambda>q. \<forall>d \<in> set ds. \<not> equivalent (dst_obj w1) d q) (dst_pool w1)\<rparr>)"
      by (auto simp: pool_in_def dst_only_def src_left_def)
  qed
  then show ?thesis
    unfolding dec_dst_def wp_bnd wp_lock wp_basic using pool_unlocked [OF assms]
    by (auto simp: wp_def del_dst_all split: prod.splits sum.splits)
qed

section \<open>One tick\<close>

context bounded_handler
begin

lemma tick_ok:
  assumes "pool_ok {} {} p0 (Suc k, Suc k) w" "src_left w \<longrightarrow> B"
  shows "wp (tpool_tick pf h) (\<lambda>_ w'. pool_ok {} {} p0 (k, k) w' \<and> (src_left w' \<longrightarrow> B)) (\<lambda>e _. N e) w"
proof -
  have src: "wp (on_cond (0 < length (src_pool w)) (dec_src pf h))
      (\<lambda>_ w'. pool_ok {} {} p0 (k, Suc k) w' \<and> (src_left w' \<longrightarrow> B)) (\<lambda>e _. N e) w"
    using dec_src_ok [OF assms] assms by (auto simp: wp_on_cond pool_in_def)
  have dst: "wp (on_cond (0 < length (dst_pool w1)) (dec_dst pf h))
      (\<lambda>_ w'. pool_ok {} {} p0 (k, k) w' \<and> (src_left w' \<longrightarrow> B)) (\<lambda>e _. N e) w1"
    if "pool_ok {} {} p0 (k, Suc k) w1" "src_left w1 \<longrightarrow> B" for w1
    using wp_mono [OF dec_dst_ok [OF that(1)] _ fatal_allowed] that by (auto simp: wp_on_cond pool_in_def)
  show ?thesis
    unfolding tpool_tick_def wp_seq wp_bnd wp_basic by (rule wp_mono [OF src]) (use dst in auto)
qed

end

end
