(* ===== verification/Mihf_Liveness.thy ===== *)
theory Mihf_Liveness
  imports Mihf_Frames Mihf_Tick
begin

text \<open>
  The life of a transaction with a peer: every event of the daemon keeps the invariant of the
  pools, and the timer removes a transaction after at most fifteen ticks.
\<close>

section \<open>Every event but the tick\<close>

lemma src_held_world [simp]:
  fixes w :: world
  shows "src_held L (w\<lparr>w_lbook := a\<rparr>) = src_held L w" "src_held L (w\<lparr>w_ubook := b\<rparr>) = src_held L w"
    "src_held L (w\<lparr>w_lrpool := c\<rparr>) = src_held L w" "src_held L (w\<lparr>w_subscriptions := d\<rparr>) = src_held L w"
    "src_held L (w\<lparr>w_event_timer := e\<rparr>) = src_held L w" "src_held L (w\<lparr>w_command_timer := e\<rparr>) = src_held L w"
  by (rule src_held_cong; simp)+

lemma pool_in_world [simp]:
  fixes w :: world
  shows "pool_in L D X p0 k (w\<lparr>w_lbook := a\<rparr>) = pool_in L D X p0 k w"
    "pool_in L D X p0 k (w\<lparr>w_ubook := b\<rparr>) = pool_in L D X p0 k w"
    "pool_in L D X p0 k (w\<lparr>w_lrpool := c\<rparr>) = pool_in L D X p0 k w"
    "pool_in L D X p0 k (w\<lparr>w_subscriptions := d\<rparr>) = pool_in L D X p0 k w"
    "pool_in L D X p0 k (w\<lparr>w_event_timer := e\<rparr>) = pool_in L D X p0 k w"
    "pool_in L D X p0 k (w\<lparr>w_command_timer := e\<rparr>) = pool_in L D X p0 k w"
  by (simp_all add: pool_in_def)

locale world_pool_handler = pool_handler h for h :: "world handler"
begin

lemma pool_services: "service_invariant (\<lambda>_. True) sac_caught (pool_ok D {} p0 k) h"
  by unfold_locales (auto simp: message_out_keeps)

end

lemma mihf_handler_pool: "world_pool_handler (mihf_handler pf n)"
proof (induction n)
  case 0
  show ?case by unfold_locales (simp add: keeps_def wp_pair sac_caught_def)
next
  case (Suc n)
  show ?case
    by unfold_locales
      (simp add: service_invariant.process_message_keeps [OF world_pool_handler.pool_services [OF Suc]])
qed

interpretation mihf: world_pool_handler "mihf_handler pf n" for pf n
  by (rule mihf_handler_pool)

interpretation mihf_services: service_invariant "\<lambda>_. True" sac_caught "pool_ok D {} p0 k" "mihf_handler pf n" for D p0 k pf n
  by (rule mihf.pool_services)

text \<open>
  While the timer holds the mutex of the source pool a handler cannot reach another transaction
  that calls a handler: one level of calls is enough, whatever handler is at the level below.
\<close>

interpretation held_services:
  service_invariant "\<lambda>e. e \<noteq> out_of_fuel" sac_caught "pool_in (Some (ps, obj)) D X p0 k" h for ps obj D X p0 k h
  by unfold_locales (auto simp: message_out_held)

interpretation mihf_tick: bounded_handler "mihf_handler pf (Suc n)" "\<lambda>e. e \<noteq> out_of_fuel" True for pf n
  by unfold_locales (auto simp: held_services.process_message_keeps)

text \<open>Without a transaction that was left inside its handler the tick does not depend on the handler at all.\<close>

interpretation mihf_calm: bounded_handler "mihf_handler pf n" "\<lambda>e. e \<notin> {out_of_fuel, deadlock}" False for pf n
  by unfold_locales auto

interpretation mihf_any: bounded_handler "mihf_handler pf n" "\<lambda>_. True" True for pf n
proof unfold_locales
  fix ps obj D X p0 k i out
  show "keeps sac_caught (pool_in (Some (ps, obj)) D X p0 k) (mihf_handler pf n i out)"
    by (cases n) (auto intro!: keeps_basic obeys_weaken [OF held_services.process_message_keeps])
qed simp

lemma event_pool_ok:
  assumes "ev \<noteq> Pool_tick"
  shows "keeps sac_caught (pool_ok D {} p0 k) (mihf_event pf n multicast ev)"
proof (cases ev)
  case (Local_datagram ip scope port buff)
  then show ?thesis
    by (auto intro!: mihf_services.handle_receive_keeps mihf_services.dispatch_keeps)
next
  case (Remote_datagram ip scope port buff)
  then show ?thesis
    by (auto intro!: mihf_services.handle_receive_keeps mihf.message_in_keeps)
next
  case Book_tick
  then show ?thesis by (auto intro!: throw_keeps_on_abook)
qed (use assms in \<open>simp_all add: mihf_services.expire_keeps\<close>)

section \<open>The invariant along a run\<close>

text \<open>
  Every transaction in a pool is well formed and has between 1 and 15 ticks to live. The pointer 0
  is never given out, so it can stand for no transaction in particular.
\<close>

definition transactions_ok :: "world \<Rightarrow> bool" where
  "transactions_ok w \<longleftrightarrow> pool_ok {} {} 0 (15, 15) w"

lemma sound_le:
  "src_sound t \<Longrightarrow> unat (transaction_stop_when t) \<le> 15" "dst_sound u \<Longrightarrow> unat (transaction_stop_when u) \<le> 15"
  by (simp_all add: src_sound_def dst_sound_def live_def word_le_nat_alt)

lemma pool_ok_any:
  assumes "transactions_ok w" "p < t_next w"
  shows "pool_ok {} {} p (15, 15) w"
  using assms by (auto simp: transactions_ok_def pool_in_def src_member_def dst_member_def sound_le)

lemma pool_ok_mono: "pool_ok D X p (k, k) w \<Longrightarrow> k \<le> l \<Longrightarrow> pool_ok D X p (l, l) w"
  by (force simp: pool_in_def src_member_def dst_member_def)

lemma pool_ok_gone:
  assumes "pool_ok {} {} p (0, 0) w"
  shows "p \<notin> set (src_pool w) \<and> p \<notin> set (dst_pool w)"
  using assms
  by (auto simp: pool_in_def src_member_def dst_member_def src_sound_def dst_sound_def live_def unat_eq_0 word_less_nat_alt)

definition ticks :: "io_event list \<Rightarrow> nat" where
  "ticks evs = length (filter (\<lambda>ev. ev = Pool_tick) evs)"

lemma event_ticks:
  assumes "mihf_event pf n multicast ev w = (Inr (), w')" "pool_ok {} {} p (k, k) w"
  shows "pool_ok {} {} p (k - ticks [ev], k - ticks [ev]) w'"
proof (cases "ev = Pool_tick")
  case True
  have "pool_ok {} {} p (Suc (k - 1), Suc (k - 1)) w" by (rule pool_ok_mono [OF assms(2)]) simp
  from wp_Inr [OF mihf_any.tick_ok [OF this]] True assms(1) show ?thesis by (auto simp: ticks_def)
next
  case False
  with keeps_Inr [OF event_pool_ok assms(2,1)] show ?thesis by (simp add: ticks_def)
qed

lemma run_ticks:
  assumes "daemon_run multicast (Running w) evs (Running w')" "pool_ok {} {} p (k, k) w"
  shows "pool_ok {} {} p (k - ticks evs, k - ticks evs) w'"
  using assms
proof (induction evs arbitrary: w k)
  case Nil
  then show ?case by (simp add: ticks_def)
next
  case (Cons ev evs)
  obtain w1 pf n where 1: "mihf_event pf n multicast ev w = (Inr (), w1)" "daemon_run multicast (Running w1) evs (Running w')"
    using running_cons [OF Cons.prems(1)] by blast
  from Cons.IH [OF 1(2) event_ticks [OF 1(1) Cons.prems(2)]] show ?case
    by (simp add: ticks_def split: if_splits)
qed

lemma start_pool_ok:
  assumes "mihf_start pf w = (Inr (), w')" "pool_ok {} {} p (k, k) w"
  shows "pool_ok {} {} p (k, k) w'"
proof -
  have "world_pool_handler (sac_process_message Map.empty)"
    by unfold_locales (auto simp: sac_process_message_def keeps_def wp_simps)
  then have "service_invariant (\<lambda>_. True) sac_caught (pool_ok {} {} p (k, k)) (sac_process_message Map.empty)"
    by (rule world_pool_handler.pool_services)
  from keeps_Inr [OF service_invariant.management_keeps(1) [OF this] assms(2)] assms(1) show ?thesis
    unfolding mihf_start_def by blast
qed

text \<open>
  C3: Invariant of the transaction pools. From the start of the daemon on, whatever happens, between
  two events both mutexes are free, no transaction is in a pool twice, and every transaction in a
  pool is well formed: it has been started, it has its messages, it has between 1 and 15 ticks to
  live, a source transaction that waits for an acknowledgement will be retransmitted, and one that
  has ended is in an end state.
\<close>

theorem transactions_hold:
  assumes "mihf_start pf (world_new mihfid tid rport lport del order uns abook lbook ubook) = (Inr (), w0)"
    and "daemon_run multicast (Running w0) evs (Running w)"
  shows "transactions_ok w \<and> \<not> src_lock w \<and> \<not> dst_lock w \<and> distinct (src_pool w) \<and> distinct (dst_pool w)
    \<and> (\<forall>p \<in> set (src_pool w). src_sound (src_obj w p) \<and> src_calm (src_obj w p))
    \<and> (\<forall>p \<in> set (dst_pool w). dst_sound (dst_obj w p))"
proof -
  have "pool_ok {} {} 0 (15, 15) (world_new mihfid tid rport lport del order uns abook lbook ubook)"
    by (simp add: world_new_def pool_in_def)
  from run_ticks [OF assms(2) start_pool_ok [OF assms(1) this]] have "transactions_ok w"
    unfolding transactions_ok_def by (rule pool_ok_mono) simp
  then show ?thesis by (auto simp: transactions_ok_def pool_in_def src_member_def dst_member_def)
qed

lemma lonely_pool_tick: "daemon_step True (Running lonely) Pool_tick (Running lonely)"
  by (rule goes_on [of all_up 0]) (simp add: lonely_def world_new_def tpool_tick_def)

theorem transactions_hold_witness: "transactions_ok lonely \<and> \<not> src_lock lonely"
proof -
  have "daemon_run True (Running lonely) [Pool_tick, Book_tick] (Running lonely)"
    by (auto intro: run_cons run_nil lonely_ticks lonely_pool_tick)
  then show ?thesis
    using transactions_hold [of all_up "''m1''" 7 4551 1025 2 "[]" False
        "[(''m1'', address_entry_new ''10.0.0.1'' 4551)]" "[]" "[]" lonely True] lonely_starts
    unfolding lonely_def by blast
qed

text \<open>
  C1: Every transaction with a peer ends. Whatever datagrams arrive and whatever is sent meanwhile,
  after fifteen ticks of the timer a transaction that is in one of the pools, or that is being
  handled, has left the pools, if the daemon is still running. So a peer that never answers, or one
  that keeps sending, cannot keep a transaction alive.
\<close>

theorem transactions_end:
  assumes "transactions_ok w" "p < t_next w" "daemon_run multicast (Running w) evs (Running w')" "15 \<le> ticks evs"
  shows "p \<notin> set (src_pool w') \<and> p \<notin> set (dst_pool w')"
  using run_ticks [OF assms(3) pool_ok_any [OF assms(1,2)]] assms(4) by (intro pool_ok_gone) simp

text \<open>An MIHF that has passed a request on to a user that does not answer.\<close>

definition waiting :: "u32 \<Rightarrow> u32 \<Rightarrow> world" where
  "waiting stop retr = lonely\<lparr>dst_obj := (\<lambda>_. dst_transaction_new 0)(1 := (dst_transaction_new 0)\<lparr>t_in := Some 0,
     t_out := Some 1, dst_state := DST_WAIT_RESPONSE_PRM, transaction_stop_when := stop, retransmission_when := retr\<rparr>),
     dst_pool := [1], t_next := 2\<rparr>"

lemmas waiting_defs = waiting_def lonely_def world_new_def dst_transaction_new_def dst_transaction.defs transaction.defs
  transaction_new_def

lemma waiting_tick:
  assumes "stop - 1 \<noteq> 0" "retr - 1 \<noteq> 0"
  shows "daemon_step True (Running (waiting stop retr)) Pool_tick (Running (waiting (stop - 1) (retr - 1)))"
proof (rule goes_on [of all_up 0])
  show "mihf_event all_up 0 True Pool_tick (waiting stop retr) = (Inr (), waiting (stop - 1) (retr - 1))"
    using assms
    by (simp add: waiting_defs tpool_tick_def dec_dst_def with_dst_lock_def dst_dec_one_def dec_one_def dst_write_def)
qed

lemma waiting_expires:
  assumes "retr - 1 \<noteq> 0"
  obtains w' where "daemon_step True (Running (waiting 1 retr)) Pool_tick (Running w')"
proof -
  have "fst (mihf_event all_up 0 True Pool_tick (waiting 1 retr)) = Inr ()"
    using assms
    by (simp add: waiting_defs tpool_tick_def dec_dst_def with_dst_lock_def dst_dec_one_def dec_one_def dst_write_def
        dst_run_def goto_numeral on_dst_def dst_wait_response_prm_def dst_failure_def tpool_del_dst_def set_insert_def)
  then show thesis using that goes_on [of all_up 0] by (metis prod.collapse)
qed

lemma waiting_ok: "transactions_ok (waiting 15 100)"
  by (simp add: transactions_ok_def pool_in_def waiting_defs dst_member_def dst_sound_def live_def)

lemma waiting_run:
  assumes "daemon_run True (Running (waiting 1 86)) evs d"
  shows "n \<le> 14 \<Longrightarrow> daemon_run True (Running (waiting (of_nat (Suc n)) (of_nat (86 + n)))) (replicate n Pool_tick @ evs) d"
proof (induction n)
  case 0
  with assms show ?case by simp
next
  case (Suc n)
  have "(of_nat (Suc n) :: u32) \<noteq> 0" "(of_nat (86 + n) :: u32) \<noteq> 0"
    using Suc.prems by (simp_all add: word_unat_eq_iff unsigned_of_nat take_bit_eq_mod del: of_nat_Suc of_nat_add)
  then show ?case
    using waiting_tick [of "of_nat (Suc (Suc n))" "of_nat (86 + Suc n)"] Suc by (auto intro: run_cons)
qed

theorem transactions_end_witness:
  "\<exists>w'. daemon_run True (Running (waiting 15 100)) (replicate 15 Pool_tick) (Running w')
     \<and> 1 \<in> set (dst_pool (waiting 15 100)) \<and> 1 \<notin> set (dst_pool w')"
proof -
  obtain w' where "daemon_step True (Running (waiting 1 86)) Pool_tick (Running w')"
    by (rule waiting_expires [of 86]) simp_all
  then have "daemon_run True (Running (waiting 1 86)) [Pool_tick] (Running w')" by (auto intro: run_cons run_nil)
  from waiting_run [OF this, of 14]
  have run: "daemon_run True (Running (waiting 15 100)) (replicate 15 Pool_tick) (Running w')"
    by (simp add: numeral_eq_Suc)
  have "1 < t_next (waiting 15 100)" "15 \<le> ticks (replicate 15 Pool_tick)" by (simp_all add: waiting_defs ticks_def)
  from transactions_end [OF waiting_ok this(1) run this(2)] run show ?thesis by (auto simp: waiting_defs)
qed

text \<open>
  A transaction that was left inside its handler is handed over again under the mutex of the timer,
  and a handler that sends then waits for that mutex. The tick still reaches no bound of the model
  with one level of handler calls: the daemon goes on, terminates or hangs.
\<close>

lemma pool_tick_steps:
  assumes "transactions_ok w"
  shows "\<exists>d. daemon_step multicast (Running w) Pool_tick d"
proof -
  have "pool_ok {} {} 0 (Suc 15, Suc 15) w"
    using assms unfolding transactions_ok_def by (rule pool_ok_mono) simp
  then have tick: "wp (tpool_tick pf (mihf_handler pf (Suc 0))) (\<lambda>_ w'. pool_ok {} {} 0 (15, 15) w' \<and> (src_left w' \<longrightarrow> True))
      (\<lambda>e _. e \<noteq> out_of_fuel) w" for pf
    by (intro mihf_tick.tick_ok) simp_all
  have real: "mihf_event pf (Suc 0) multicast Pool_tick w \<noteq> (Inl out_of_fuel, w')" for pf w'
    using tick [of pf] by (auto simp: wp_def simp del: mihf_handler.simps)
  obtain r w' where run: "mihf_event all_up (Suc 0) multicast Pool_tick w = (r, w')" by fastforce
  show ?thesis
  proof (cases r)
    case (Inl e)
    with run real show ?thesis by (cases "e = deadlock") (blast intro: hangs terminates)+
  next
    case (Inr x)
    with run show ?thesis by (auto intro: goes_on simp del: mihf_event.simps)
  qed
qed

text \<open>
  C2: A tick of the pool timer ends and does not block, as long as no transaction of the pool was
  left inside its handler by an exception. Whatever the platform refuses and however deep handlers
  may be nested, the tick then calls no handler; it returns with the invariant of the pools, and
  again with no transaction inside its handler, so the next tick is served the same way; or sending
  throws an exception of the code, which ends the daemon. In particular no tick waits for a mutex
  that the timer holds itself.
\<close>

theorem pool_tick_completes:
  assumes "transactions_ok w" "\<not> src_left w"
  shows "(\<exists>w'. mihf_event pf n multicast Pool_tick w = (Inr (), w') \<and> transactions_ok w' \<and> \<not> src_left w'
       \<and> daemon_step multicast (Running w) Pool_tick (Running w'))
     \<or> (\<exists>e w'. mihf_event pf n multicast Pool_tick w = (Inl e, w') \<and> e \<notin> {out_of_fuel, deadlock}
       \<and> daemon_step multicast (Running w) Pool_tick (Terminated e))"
proof -
  obtain r w' where run: "mihf_event pf n multicast Pool_tick w = (r, w')" by fastforce
  have "pool_ok {} {} 0 (Suc 15, Suc 15) w"
    using assms(1) unfolding transactions_ok_def by (rule pool_ok_mono) simp
  then have "wp (tpool_tick pf (mihf_handler pf n)) (\<lambda>_ w'. pool_ok {} {} 0 (15, 15) w' \<and> (src_left w' \<longrightarrow> False))
      (\<lambda>e _. e \<notin> {out_of_fuel, deadlock}) w"
    using assms(2) by (intro mihf_calm.tick_ok) simp_all
  then have tick: "case r of Inr x \<Rightarrow> transactions_ok w' \<and> \<not> src_left w' | Inl e \<Rightarrow> e \<notin> {out_of_fuel, deadlock}"
    using run by (simp add: wp_def transactions_ok_def split: sum.splits)
  show ?thesis
  proof (cases r)
    case (Inl e)
    with tick run terminates [of pf n multicast Pool_tick w e w'] show ?thesis by (simp del: mihf_event.simps)
  next
    case (Inr x)
    with tick run goes_on [of pf n multicast Pool_tick w w'] show ?thesis by (simp del: mihf_event.simps)
  qed
qed

theorem pool_tick_completes_witness:
  "\<not> src_left (waiting 15 100) \<and> (\<exists>d. daemon_step False (Running (waiting 15 100)) Pool_tick d \<and> d \<noteq> Hung)"
proof -
  have "\<not> src_left (waiting 15 100)" by (simp add: src_left_def waiting_defs)
  with pool_tick_completes [OF waiting_ok this, of all_up 0 False] show ?thesis by auto
qed

text \<open>
  C38: The state machines of a transaction return. From every state the acknowledgement responder
  and requestor return or throw an exception of the code, and so do the source and the destination
  machine with every message handler that does: none of the four loops, none blocks on a mutex, and
  the bounds on the blocks in their definitions are never reached.
\<close>

theorem machines_return:
  fixes w :: "'w tworld_scheme"
  assumes "\<And>i out v. fst (h i out v) \<notin> {Inl out_of_fuel, Inl deadlock}"
  shows "fst (ack_responder pf s) \<notin> {Inl out_of_fuel, Inl deadlock}
     \<and> fst (ack_requestor pf s) \<notin> {Inl out_of_fuel, Inl deadlock}
     \<and> fst (src_run pf h p w) \<notin> {Inl out_of_fuel, Inl deadlock}
     \<and> fst (dst_run pf h p w) \<notin> {Inl out_of_fuel, Inl deadlock}"
proof -
  have "throws (\<lambda>e. e \<notin> {out_of_fuel, deadlock}) (h i out)" for i out
    unfolding throws_def using assms [of i out] by (metis fst_conv insertCI insertE singletonD)
  note run = machines_throw [OF this]
  show ?thesis
    by (intro conjI throws_fst run throws_mono [OF ack_throws(1)] throws_mono [OF ack_throws(2)]) (auto dest: fatal_real)
qed

theorem machines_return_witness:
  "fst (dst_run all_up (\<lambda>_ _ v. (Inr True, v)) 1 (waiting 0 100)) \<notin> {Inl out_of_fuel, Inl deadlock}
   \<and> transaction_status (dst_obj (snd (dst_run all_up (\<lambda>_ _ v. (Inr True, v)) 1 (waiting 0 100))) 1) = FAILURE"
proof -
  have "transaction_status (dst_obj (snd (dst_run all_up (\<lambda>_ _ v. (Inr True, v)) 1 (waiting 0 100))) 1) = FAILURE"
    by (simp add: waiting_defs dst_run_def goto_numeral on_dst_def dst_wait_response_prm_def dst_failure_def)
  with machines_return [of "\<lambda>_ _ v. (Inr True, v)" all_up "(dst_obj lonely 1, lonely)" 1 "waiting 0 100"]
  show ?thesis by simp
qed

end
