(* ===== verification/Sap_Services.thy ===== *)
theory Sap_Services
  imports Mih_Message
begin

text \<open>
  The client side of the protocol: the I/O services an MIH user (\<open>lib/odtone/sap/user.cpp\<close>) and a link
  SAP (\<open>lib/odtone/sap/link.cpp\<close>) are built on. A callback of the application is known by a number and
  its calls are recorded; an empty \<open>boost::function\<close> is \<open>None\<close>. \<open>armed\<close> says that the socket has a
  pending receive: a completion consumes it, and an exception that leaves the completion handler leaves
  the socket deaf.
\<close>

section \<open>State\<close>

datatype errc = no_error | transport_error nat | bad_message

datatype callee = default_handler | handler nat

record user_sap =
  u_id :: mihf_id
  u_rmap :: "(u16, nat option) stdmap"
  u_armed :: bool
  u_sent :: "(frame \<times> nat option) list"
  u_calls :: "(callee \<times> meta_message \<times> errc) list"

definition user_new :: "mihf_id \<Rightarrow> user_sap" where
  "user_new i = \<lparr>u_id = i, u_rmap = [], u_armed = True, u_sent = [], u_calls = []\<rparr>"

definition u_call :: "callee \<Rightarrow> meta_message \<Rightarrow> errc \<Rightarrow> (user_sap, unit) eff" where
  "u_call h m ec = upd (\<lambda>s. s\<lparr>u_calls := u_calls s @ [(h, m, ec)]\<rparr>)"

section \<open>The MIH user\<close>

text \<open>
  The keys of \<open>_rmap\<close> are transaction identifiers, 16 bits wide. The search for a free one does not end
  when every identifier is taken, and has a bound here.
\<close>

definition wrap_tid :: "u16 \<Rightarrow> u16" where
  "wrap_tid i = (if i \<ge> 0x0FFF then 1 else i)"

fun free_tid :: "nat \<Rightarrow> (u16, nat option) stdmap \<Rightarrow> u16 \<Rightarrow> exn + u16" where
  "free_tid 0 rmap i = Inl out_of_fuel"
| "free_tid (Suc n) rmap i =
     (if map_of rmap i \<noteq> None then free_tid n rmap (wrap_tid (i + 1)) else Inr i)"

definition first_tid :: "u16 \<Rightarrow> (u16, nat option) stdmap \<Rightarrow> u16" where
  "first_tid rnd rmap =
     (let i = rnd AND 0x0FFF;
          i = (if rmap \<noteq> [] then fst (last rmap) + 1 else i) in
      wrap_tid i)"

definition user_async_send :: "nat \<Rightarrow> u16 \<Rightarrow> meta_message \<Rightarrow> nat option \<Rightarrow> (user_sap, meta_message) eff" where
  "user_async_send n rnd msg h =
     bnd (if msg_opcode msg = 1 then
            bnd (gets u_rmap) (\<lambda>rmap.
            case free_tid n rmap (first_tid rnd rmap) of
              Inl e \<Rightarrow> throw e
            | Inr i \<Rightarrow>
                seq (upd (\<lambda>s. s\<lparr>u_rmap := map_store i h (u_rmap s)\<rparr>)) (ret (msg\<lparr>m_tid := i\<rparr>, None)))
          else ret (msg, h)) (\<lambda>(msg, h).
     bnd (gets u_id) (\<lambda>i.
     let msg = msg\<lparr>m_src := i\<rparr> in
     case get_frame msg of
       Inl e \<Rightarrow> throw e
     | Inr fm \<Rightarrow> seq (upd (\<lambda>s. s\<lparr>u_sent := u_sent s @ [(fm, h)]\<rparr>)) (ret msg)))"

definition get_handler :: "u16 \<Rightarrow> (user_sap, nat option) eff" where
  "get_handler tid =
     bnd (gets (\<lambda>s. map_of (u_rmap s) tid)) (\<lambda>e.
     case e of
       None \<Rightarrow> ret None
     | Some h \<Rightarrow> seq (upd (\<lambda>s. s\<lparr>u_rmap := map_erase tid (u_rmap s)\<rparr>)) (ret h))"

definition user_dispatch :: "frame \<Rightarrow> meta_message \<Rightarrow> (user_sap, unit) eff" where
  "user_dispatch fm pm =
     (if frame_opcode fm = 0 then
        bnd (get_handler (frame_tid fm)) (\<lambda>h.
        case h of
          Some h \<Rightarrow> u_call (handler h) pm no_error
        | None \<Rightarrow>
            if frame_sid fm = 1 \<and> frame_aid fm = 1 then u_call default_handler pm no_error
            else u_call default_handler pm bad_message)
      else if frame_opcode fm \<noteq> 3 then u_call default_handler pm bad_message
      else u_call default_handler pm no_error)"

definition user_recv_handler :: "u8 list \<Rightarrow> errc \<Rightarrow> (user_sap, unit) eff" where
  "user_recv_handler buff ec =
     seq (upd (u_armed_update (\<lambda>_. False)))
     (seq
       (if ec \<noteq> no_error then u_call default_handler meta_message_new ec
        else
          (case frame_cast buff of
             None \<Rightarrow> ret ()
           | Some fm \<Rightarrow>
               (case message_of_frame fm of
                  Inl e \<Rightarrow> throw e
                | Inr pm \<Rightarrow> user_dispatch fm pm)))
       (upd (u_armed_update (\<lambda>_. True))))"

definition user_send_handler :: "frame \<Rightarrow> nat option \<Rightarrow> errc \<Rightarrow> (user_sap, unit) eff" where
  "user_send_handler fm h ec =
     bnd (if ec \<noteq> no_error \<and> h = None then get_handler (frame_tid fm) else ret h) (\<lambda>h.
     case h of
       None \<Rightarrow> ret ()
     | Some h \<Rightarrow>
         (case message_of_frame fm of
            Inl e \<Rightarrow> throw e
          | Inr pm \<Rightarrow> u_call (handler h) pm ec))"

section \<open>The link SAP\<close>

record link_sap =
  l_link_id :: mihf_id
  l_mihf_id :: mihf_id
  l_armed :: bool
  l_sent :: "(frame \<times> nat option) list"
  l_calls :: "(meta_message \<times> errc) list"
  l_done :: "(nat \<times> errc) list"

definition link_new :: "mihf_id \<Rightarrow> mihf_id \<Rightarrow> link_sap" where
  "link_new link_id mihf = \<lparr>l_link_id = link_id, l_mihf_id = mihf, l_armed = True, l_sent = [], l_calls = [], l_done = []\<rparr>"

definition link_async_send :: "meta_message \<Rightarrow> nat option \<Rightarrow> (link_sap, meta_message) eff" where
  "link_async_send msg h =
     bnd (gets (\<lambda>s. msg\<lparr>m_src := l_link_id s, m_dst := l_mihf_id s\<rparr>)) (\<lambda>msg.
     case get_frame msg of
       Inl e \<Rightarrow> throw e
     | Inr fm \<Rightarrow> seq (upd (\<lambda>s. s\<lparr>l_sent := l_sent s @ [(fm, h)]\<rparr>)) (ret msg))"

definition link_recv_handler :: "u8 list \<Rightarrow> errc \<Rightarrow> (link_sap, unit) eff" where
  "link_recv_handler buff ec =
     seq (upd (l_armed_update (\<lambda>_. False)))
     (seq
       (if ec \<noteq> no_error then upd (\<lambda>s. s\<lparr>l_calls := l_calls s @ [(meta_message_new, ec)]\<rparr>)
        else
          (case frame_cast buff of
             None \<Rightarrow> ret ()
           | Some fm \<Rightarrow>
               (case message_of_frame fm of
                  Inl e \<Rightarrow> throw e
                | Inr pm \<Rightarrow> upd (\<lambda>s. s\<lparr>l_calls := l_calls s @ [(pm, ec)]\<rparr>))))
       (upd (l_armed_update (\<lambda>_. True))))"

definition link_send_handler :: "frame \<Rightarrow> nat option \<Rightarrow> errc \<Rightarrow> (link_sap, unit) eff" where
  "link_send_handler fm h ec =
     (case h of None \<Rightarrow> ret () | Some h \<Rightarrow> upd (\<lambda>s. s\<lparr>l_done := l_done s @ [(h, ec)]\<rparr>))"

section \<open>Transaction identifiers of a user\<close>

text \<open>Steps from the identifier \<open>i\<close> to the identifier \<open>t\<close> in the cycle 1, ..., 4094.\<close>

definition tid_distance :: "nat \<Rightarrow> nat \<Rightarrow> nat" where
  "tid_distance i t = (if i \<le> t then t - i else 4094 - (i - t))"

lemma unat_wrap_tid: "unat i < 4095 \<Longrightarrow> unat (wrap_tid (i + 1)) = (if unat i + 1 < 4095 then unat i + 1 else 1)"
proof -
  assume "unat i < 4095"
  then have "unat (i + 1) = unat i + 1"
    by (subst unat_add_lem [THEN iffD1]) simp_all
  then show ?thesis by (simp add: wrap_tid_def word_le_nat_alt not_le)
qed

lemma free_tid_found:
  assumes "map_of rmap t = None" "0 < unat t" "unat t < 4095" "unat i < 4095"
    and "tid_distance (unat i) (unat t) < n"
  shows "\<exists>j. free_tid n rmap i = Inr j"
  using assms(4,5)
proof (induction n arbitrary: i)
  case (Suc n)
  show ?case
  proof (cases "map_of rmap i = None")
    case False
    then have "i \<noteq> t" using assms(1) by auto
    then have ne: "unat i \<noteq> unat t" by (simp add: word_unat_eq_iff)
    have "tid_distance (unat (wrap_tid (i + 1))) (unat t) < n" "unat (wrap_tid (i + 1)) < 4095"
      using Suc.prems assms(2,3) ne by (auto simp: unat_wrap_tid tid_distance_def split: if_splits)
    with Suc.IH False show ?thesis by simp
  qed simp
qed simp

lemma free_tid_sound:
  "free_tid n rmap i = Inr j \<Longrightarrow> unat i < 4095 \<Longrightarrow> map_of rmap j = None \<and> unat j < 4095"
proof (induction n arbitrary: i)
  case (Suc n)
  then show ?case by (auto simp: unat_wrap_tid split: if_splits)
qed simp

lemma free_tid_full:
  assumes "\<And>t. 0 < unat t \<Longrightarrow> unat t < 4095 \<Longrightarrow> map_of rmap t \<noteq> None"
  shows "0 < unat i \<Longrightarrow> unat i < 4095 \<Longrightarrow> free_tid n rmap i = Inl out_of_fuel"
proof (induction n arbitrary: i)
  case (Suc n)
  then show ?case using assms [of i] by (auto simp: unat_wrap_tid)
qed simp

lemma free_tid_mono: "free_tid n rmap i = Inr j \<Longrightarrow> n \<le> k \<Longrightarrow> free_tid k rmap i = Inr j"
proof (induction n arbitrary: i k)
  case (Suc n)
  then show ?case by (cases k) (auto split: if_splits)
qed simp

lemma first_tid_range: "unat (first_tid rnd rmap) < 4095"
  by (auto simp: first_tid_def Let_def wrap_tid_def word_le_nat_alt not_le)

definition rmap_ok :: "(u16, nat option) stdmap \<Rightarrow> bool" where
  "rmap_ok rmap \<longleftrightarrow> map_ok rmap \<and> (\<forall>k \<in> set (map_keys rmap). unat k < 4095)"

lemma first_tid_pos: "rmap_ok rmap \<Longrightarrow> rmap \<noteq> [] \<Longrightarrow> 0 < unat (first_tid rnd rmap)"
proof -
  assume ok: "rmap_ok rmap" and ne: "rmap \<noteq> []"
  then have "unat (fst (last rmap)) < 4095" by (auto simp: rmap_ok_def map_keys_def)
  with ne show ?thesis by (simp add: first_tid_def unat_wrap_tid)
qed

lemma erase_fresh_store: "map_of m k = None \<Longrightarrow> map_erase k (map_store k v m) = m"
proof (induction m)
  case (Cons e es)
  have "map_of es k = None \<Longrightarrow> filter (\<lambda>e. fst e \<noteq> k) es = es"
    by (induction es) (auto split: if_splits)
  with Cons show ?case by (cases e) (auto simp: map_erase_def split: if_splits)
qed (simp add: map_erase_def)

lemma rmap_ok_store: "rmap_ok m \<Longrightarrow> unat k < 4095 \<Longrightarrow> rmap_ok (map_store k v m)"
  by (auto simp: rmap_ok_def map_ok_store smap.keys_store)

lemma rmap_ok_erase: "rmap_ok m \<Longrightarrow> rmap_ok (map_erase k m)"
  by (auto simp: rmap_ok_def map_ok_erase set_map_keys map_of_erase split: if_splits)

lemma user_async_send_run:
  assumes "free_tid n (u_rmap s) (first_tid rnd (u_rmap s)) = r"
  shows "user_async_send n rnd msg h s =
    (if msg_opcode msg = 1 then
       (case r of
          Inl e \<Rightarrow> (Inl e, s)
        | Inr i \<Rightarrow>
            (case get_frame (msg\<lparr>m_tid := i, m_src := u_id s\<rparr>) of
               Inl e \<Rightarrow> (Inl e, s\<lparr>u_rmap := map_store i h (u_rmap s)\<rparr>)
             | Inr fm \<Rightarrow> (Inr (msg\<lparr>m_tid := i, m_src := u_id s\<rparr>),
                 s\<lparr>u_rmap := map_store i h (u_rmap s), u_sent := u_sent s @ [(fm, None)]\<rparr>)))
     else
       (case get_frame (msg\<lparr>m_src := u_id s\<rparr>) of
          Inl e \<Rightarrow> (Inl e, s)
        | Inr fm \<Rightarrow> (Inr (msg\<lparr>m_src := u_id s\<rparr>), s\<lparr>u_sent := u_sent s @ [(fm, h)]\<rparr>)))"
  using assms by (auto simp: user_async_send_def Let_def split: sum.split)

text \<open>
  C16: A user's request gets a transaction identifier that no waiting request of the user has and that is
  below 4095, and its handler is registered under it, as long as one of the 4094 identifiers is free;
  the search then looks at no more than 4095 of them. When all are taken it never ends.
\<close>

theorem user_request_identifier:
  assumes "rmap_ok (u_rmap s)" "msg_opcode msg = 1"
  shows "if \<exists>t. 0 < unat t \<and> unat t < 4095 \<and> map_of (u_rmap s) t = None
    then \<exists>i. unat i < 4095 \<and> map_of (u_rmap s) i = None \<and> (\<forall>n \<ge> 4095.
      user_async_send n rnd msg h s =
        (case get_frame (msg\<lparr>m_tid := i, m_src := u_id s\<rparr>) of
           Inl e \<Rightarrow> (Inl e, s\<lparr>u_rmap := map_store i h (u_rmap s)\<rparr>)
         | Inr fm \<Rightarrow> (Inr (msg\<lparr>m_tid := i, m_src := u_id s\<rparr>),
             s\<lparr>u_rmap := map_store i h (u_rmap s), u_sent := u_sent s @ [(fm, None)]\<rparr>)))
    else \<forall>n. user_async_send n rnd msg h s = (Inl out_of_fuel, s)"
proof (cases "\<exists>t. 0 < unat t \<and> unat t < 4095 \<and> map_of (u_rmap s) t = None")
  case True
  then obtain t where t: "map_of (u_rmap s) t = None" "0 < unat t" "unat t < 4095" by blast
  let ?i = "first_tid rnd (u_rmap s)"
  have "tid_distance (unat ?i) (unat t) < 4095"
    using t first_tid_range [of rnd "u_rmap s"] by (auto simp: tid_distance_def)
  then obtain j where j: "free_tid 4095 (u_rmap s) ?i = Inr j"
    using free_tid_found [OF t first_tid_range] by blast
  then have "unat j < 4095" "map_of (u_rmap s) j = None" "\<And>n. 4095 \<le> n \<Longrightarrow> free_tid n (u_rmap s) ?i = Inr j"
    using free_tid_sound [OF j first_tid_range] free_tid_mono [OF j] by blast+
  with True assms(2) show ?thesis
    by (auto simp: user_async_send_run)
next
  case False
  then have "map_of (u_rmap s) 1 \<noteq> None" by (auto dest!: spec [of _ 1])
  then have "u_rmap s \<noteq> []" by auto
  then have "free_tid n (u_rmap s) (first_tid rnd (u_rmap s)) = Inl out_of_fuel" for n
    using False assms(1) by (intro free_tid_full first_tid_pos first_tid_range) auto
  then show ?thesis
    unfolding if_not_P [OF False] using assms(2) by (simp add: user_async_send_run)
qed

definition sap_example :: meta_message where
  "sap_example = meta_message_new\<lparr>m_mid := request Capability_discover\<rparr>"

lemma sap_example_request: "msg_opcode sap_example = 1"
  by (simp add: sap_example_def msg_opcode_def request_def msg_id_def)

theorem user_request_identifier_witness:
  "\<exists>i. unat i < 4095 \<and> user_async_send 4095 0 sap_example (Some 3) (user_new ''user'') =
     (case get_frame (sap_example\<lparr>m_tid := i, m_src := ''user''\<rparr>) of
        Inl e \<Rightarrow> (Inl e, user_new ''user''\<lparr>u_rmap := [(i, Some 3)]\<rparr>)
      | Inr fm \<Rightarrow> (Inr (sap_example\<lparr>m_tid := i, m_src := ''user''\<rparr>),
          user_new ''user''\<lparr>u_rmap := [(i, Some 3)], u_sent := [(fm, None)]\<rparr>))"
proof -
  have "\<exists>t :: u16. 0 < unat t \<and> unat t < 4095 \<and> map_of (u_rmap (user_new ''user'')) t = None"
    by (rule exI [of _ 1]) (simp add: user_new_def)
  moreover have "rmap_ok (u_rmap (user_new ''user''))"
    by (simp add: user_new_def rmap_ok_def map_ok_def map_keys_def)
  ultimately obtain i where "unat i < 4095" "\<forall>n\<ge>4095. user_async_send n 0 sap_example (Some 3) (user_new ''user'') =
     (case get_frame (sap_example\<lparr>m_tid := i, m_src := u_id (user_new ''user'')\<rparr>) of
        Inl e \<Rightarrow> (Inl e, user_new ''user''\<lparr>u_rmap := map_store i (Some 3) (u_rmap (user_new ''user''))\<rparr>)
      | Inr fm \<Rightarrow> (Inr (sap_example\<lparr>m_tid := i, m_src := u_id (user_new ''user'')\<rparr>),
          user_new ''user''\<lparr>u_rmap := map_store i (Some 3) (u_rmap (user_new ''user'')),
            u_sent := u_sent (user_new ''user'') @ [(fm, None)]\<rparr>))"
    using user_request_identifier [of "user_new ''user''" sap_example 0 "Some 3", OF _ sap_example_request] by auto
  then show ?thesis
    by (intro exI [of _ i]) (simp add: user_new_def split: sum.split)
qed

lemma user_dispatch_confirm:
  assumes "frame_opcode fm = 0"
  shows "user_dispatch fm pm s =
    (case map_of (u_rmap s) (frame_tid fm) of
       Some (Some h) \<Rightarrow> (Inr (), s\<lparr>u_rmap := map_erase (frame_tid fm) (u_rmap s), u_calls := u_calls s @ [(handler h, pm, no_error)]\<rparr>)
     | Some None \<Rightarrow> (Inr (), s\<lparr>u_rmap := map_erase (frame_tid fm) (u_rmap s),
         u_calls := u_calls s @ [(default_handler, pm, if frame_sid fm = 1 \<and> frame_aid fm = 1 then no_error else bad_message)]\<rparr>)
     | None \<Rightarrow> (Inr (), s\<lparr>u_calls := u_calls s @
         [(default_handler, pm, if frame_sid fm = 1 \<and> frame_aid fm = 1 then no_error else bad_message)]\<rparr>))"
  using assms by (auto simp: user_dispatch_def get_handler_def u_call_def split: option.split)

lemma confirm_frame:
  assumes "m_mid c = confirm p"
  shows "frame_opcode (frame_bytes c) = 0"
    "frame_sid (frame_bytes c) = 1 \<and> frame_aid (frame_bytes c) = 1 \<longleftrightarrow> p = Capability_discover"
proof -
  have b: "frame_bytes c ! 2 = byte_at 8 (confirm p)" "frame_bytes c ! 3 = byte_at 0 (confirm p)"
    by (simp_all add: frame_bytes_def enc_header_def assms)
  show "frame_opcode (frame_bytes c) = 0"
    by (cases p) (simp_all add: frame_opcode_def b confirm_def msg_id_def byte_at_def mask_defs)
  show "frame_sid (frame_bytes c) = 1 \<and> frame_aid (frame_bytes c) = 1 \<longleftrightarrow> p = Capability_discover"
    by (cases p) (simp_all add: frame_sid_def frame_aid_def b confirm_def msg_id_def byte_at_def mask_defs)
qed

text \<open>The message of a received frame: the sender's message without the sender's own bookkeeping.\<close>

definition received :: "meta_message \<Rightarrow> meta_message" where
  "received c = c\<lparr>m_payload := (m_payload c)\<lparr>a_pos := 0\<rparr>, mm_local := False, mm_ip := [], mm_scope := 0, mm_port := 0\<rparr>"

text \<open>
  C15: The confirm of a user's request reaches the handler the request was sent with, once: when the frame
  of a confirm with the request's transaction identifier arrives, the handler is called with that
  message, the user's table is again what it was before the request, and the same frame received a
  second time goes to the default handler, as an error unless it announces capabilities.
\<close>

theorem user_confirm_delivered:
  assumes "rmap_ok (u_rmap s)" "msg_opcode msg = 1"
    and "user_async_send n rnd msg (Some h) s = (Inr msg', s1)"
    and "message_ok c" "m_mid c = confirm p" "m_tid c = m_tid msg'"
  shows "\<exists>fm s2 s3. get_frame c = Inr fm \<and>
    user_recv_handler fm no_error s1 = (Inr (), s2) \<and>
    u_calls s2 = u_calls s1 @ [(handler h, received c, no_error)] \<and> u_rmap s2 = u_rmap s \<and> u_armed s2 \<and>
    user_recv_handler fm no_error s2 = (Inr (), s3) \<and> u_rmap s3 = u_rmap s \<and>
    u_calls s3 = u_calls s2 @
      [(default_handler, received c, if p = Capability_discover then no_error else bad_message)]"
proof -
  obtain i where i: "free_tid n (u_rmap s) (first_tid rnd (u_rmap s)) = Inr i"
      "u_rmap s1 = map_store i (Some h) (u_rmap s)" "m_tid msg' = i"
    using assms(2,3) by (cases "free_tid n (u_rmap s) (first_tid rnd (u_rmap s))")
      (auto simp: user_async_send_run split: sum.splits)
  have fresh: "map_of (u_rmap s) i = None"
    using free_tid_sound [OF i(1) first_tid_range] by simp
  have stored: "map_of (u_rmap s1) i = Some (Some h)"
    using assms(1) by (simp add: i(2) map_of_store rmap_ok_def)
  have erased: "map_erase i (u_rmap s1) = u_rmap s"
    using fresh by (simp add: i(2) erase_fresh_store)
  have "frame_tid (frame_bytes c) = i" using assms i by (simp add: frame_bytes_fields)
  then show ?thesis
    using assms(4,6) i(3) fresh stored erased confirm_frame [OF assms(5)]
    by (simp add: user_recv_handler_def user_dispatch_confirm get_frame_bytes frame_bytes_fields
        message_of_frame_bytes received_def)
qed

theorem user_confirm_delivered_witness:
  "\<exists>s1 fm s2. user_async_send 1 0 sap_example (Some 3) (user_new ''user'') = (Inr (sap_example\<lparr>m_src := ''user''\<rparr>), s1) \<and>
     get_frame (sap_example\<lparr>m_mid := confirm Capability_discover\<rparr>) = Inr fm \<and>
     user_recv_handler fm no_error s1 = (Inr (), s2) \<and>
     u_calls s2 = [(handler 3, received (sap_example\<lparr>m_mid := confirm Capability_discover\<rparr>), no_error)]"
proof -
  have ok: "message_ok (sap_example\<lparr>m_mid := confirm Capability_discover\<rparr>)" "message_ok (sap_example\<lparr>m_src := ''user''\<rparr>)"
    by (simp_all add: sap_example_def message_ok_def header_ok_def meta_message_new_def enc_ids_def id_codec_def
        tlv_codec_def octet_string_codec_def tlv_wf_def enc_tlv_def enc_bytes_def enc_len_def len_ok_def archive_new_def)
  have tid: "sap_example\<lparr>m_tid := 0, m_src := ''user''\<rparr> = sap_example\<lparr>m_src := ''user''\<rparr>"
    by (simp add: sap_example_def meta_message_new_def)
  have new: "u_id (user_new ''user'') = ''user''" "u_rmap (user_new ''user'') = []" "u_sent (user_new ''user'') = []"
    by (simp_all add: user_new_def)
  have free: "free_tid 1 (u_rmap (user_new ''user'')) (first_tid 0 (u_rmap (user_new ''user''))) = Inr 0"
    by (simp add: user_new_def first_tid_def wrap_tid_def)
  have send: "user_async_send 1 0 sap_example (Some 3) (user_new ''user'') = (Inr (sap_example\<lparr>m_src := ''user''\<rparr>),
      user_new ''user''\<lparr>u_rmap := [(0, Some 3)], u_sent := [(frame_bytes (sap_example\<lparr>m_src := ''user''\<rparr>), None)]\<rparr>)"
    using user_async_send_run [OF free, of sap_example "Some 3"] sap_example_request get_frame_bytes [OF ok(2)]
    by (simp add: tid new)
  then show ?thesis
    using user_confirm_delivered [OF _ sap_example_request send ok(1), of Capability_discover]
    by (auto simp: user_new_def rmap_ok_def map_ok_def map_keys_def)
qed

text \<open>The table of a user is well formed in every state its operations lead to.\<close>

inductive user_step :: "user_sap \<Rightarrow> user_sap \<Rightarrow> bool" where
  sends: "user_async_send n rnd msg h s = (r, t) \<Longrightarrow> user_step s t"
| receives: "user_recv_handler buff ec s = (r, t) \<Longrightarrow> user_step s t"
| sent: "user_send_handler fm h ec s = (r, t) \<Longrightarrow> user_step s t"

lemma get_handler_keeps: "rmap_ok (u_rmap s) \<Longrightarrow> get_handler tid s = (r, t) \<Longrightarrow> rmap_ok (u_rmap t)"
  by (auto simp: get_handler_def rmap_ok_erase split: option.splits)

lemma user_step_keeps: "user_step s t \<Longrightarrow> rmap_ok (u_rmap s) \<Longrightarrow> rmap_ok (u_rmap t)"
proof (induction rule: user_step.induct)
  case (sends n rnd msg h s r t)
  have "unat i < 4095" if "free_tid n (u_rmap s) (first_tid rnd (u_rmap s)) = Inr i" for i
    using free_tid_sound [OF that first_tid_range] by simp
  with sends show ?case
    by (auto simp: user_async_send_run [OF refl] rmap_ok_store split: if_splits sum.splits)
next
  case (receives buff ec s r t)
  then show ?case
    by (auto simp: user_recv_handler_def user_dispatch_def u_call_def seq_def bnd_def get_handler_def rmap_ok_erase
        split: if_splits option.splits sum.splits prod.splits)
next
  case (sent fm h ec s r t)
  then show ?case
    by (auto simp: user_send_handler_def u_call_def seq_def bnd_def get_handler_def rmap_ok_erase
        split: if_splits option.splits sum.splits prod.splits)
qed

lemma user_reachable_ok: "user_step\<^sup>*\<^sup>* (user_new i) s \<Longrightarrow> rmap_ok (u_rmap s)"
proof (induction rule: rtranclp_induct)
  case base
  show ?case by (simp add: user_new_def rmap_ok_def map_ok_def map_keys_def)
qed (rule user_step_keeps)

end
