(* ===== verification/Link_Sap.thy ===== *)
theory Link_Sap
  imports Sap_Services Mih_Tlv_Types Mih_Wp
begin

text \<open>
  The Link SAP for 802.11 devices, \<open>app/sap_80211/main.cpp\<close>, with its timer tasks, the completion
  handlers of the supplicant interface (\<open>app/common/dbus/wpa_supplicant/Interface.cpp\<close>) and the DHCP
  client (\<open>app/common/dhcp/dhclient.cpp\<close>). What the kernel, the supplicant and the shell answer is a
  parameter, the record \<open>device\<close>, whose operations may throw and may change the state \<open>'d\<close> of the
  device. All handlers run on the thread of the \<open>io_service\<close>.
\<close>

section \<open>Timer tasks\<close>

text \<open>\<open>tt_armed\<close>: the timer has a pending wait.\<close>

record timer_task =
  tt_running :: bool
  tt_armed :: bool
  tt_period :: u32

definition timer_task_new :: "u32 \<Rightarrow> timer_task" where
  "timer_task_new period = \<lparr>tt_running = False, tt_armed = False, tt_period = period\<rparr>"

definition task_start :: "timer_task \<Rightarrow> timer_task" where
  "task_start t = t\<lparr>tt_armed := True, tt_running := True\<rparr>"

definition task_stop :: "timer_task \<Rightarrow> timer_task" where
  "task_stop t = t\<lparr>tt_armed := False, tt_running := False\<rparr>"

definition task_handler ::
  "('s \<Rightarrow> timer_task) \<Rightarrow> ((timer_task \<Rightarrow> timer_task) \<Rightarrow> 's \<Rightarrow> 's) \<Rightarrow> ('s, unit) eff \<Rightarrow> ('s, unit) eff" where
  "task_handler sel change task = bnd (gets sel) (\<lambda>t. on_cond (tt_armed t)
     (seq (upd (change (tt_armed_update (\<lambda>_. False))))
     (seq task (upd (change (tt_armed_update (\<lambda>_. True)))))))"

section \<open>State\<close>

record threshold_cross_data =
  tc_one_shot :: bool
  tc_type :: link_param_type
  tc_th :: threshold

record periodic_report_data =
  pr_task :: timer_task
  pr_type :: link_param_type

record wpa_interface =
  wpa_wired :: bool
  buffered_handlers :: "u16 list"
  completion_handlers :: "u16 list"

record 'd sap =
  ls :: link_sap
  threshold_check_task :: timer_task
  scheduled_scan_task :: "timer_task option"
  capabilities_event_list :: bitmap
  capabilities_command_list :: bitmap
  subscribed_event_list :: bitmap
  th_cross_list :: "threshold_cross_data list"
  period_rpt_list :: "periodic_report_data list"
  wpa :: wpa_interface
  resolv_conf :: octet_string
  devname :: octet_string
  sap_id :: link_tuple_id
  dev :: 'd

record poa_info = link_det_info +
  poa_channel_id :: u32

datatype wpa_value = Wpa_int int | Wpa_string octet_string

text \<open>
  The operations of \<open>if_80211\<close>, of the supplicant proxy and of \<open>system\<close>. \<open>dv_lexical_int\<close> is
  \<open>boost::lexical_cast<int>\<close>, \<open>dv_op_mode_state\<close> the alternative a \<open>link_states_rsp\<close> takes when an
  operation mode is assigned to it, and \<open>dv_threshold\<close> what an uninitialised threshold holds.
\<close>

record 'd device =
  dv_link_tuple_id :: "('d, link_tuple_id) eff"
  dv_link_up :: "('d, bool) eff"
  dv_get_poa_info :: "('d, poa_info) eff"
  dv_get_current_data_rate :: "transport_addr \<Rightarrow> ('d, u32) eff"
  dv_get_packet_error_rate :: "('d, u32) eff"
  dv_get_op_mode :: "('d, u8) eff"
  dv_set_op_mode :: "u8 \<Rightarrow> ('d, unit) eff"
  dv_trigger_scan :: "bool \<Rightarrow> ('d, unit) eff"
  dv_get_scan_results :: "('d, link_scan_rsp list) eff"
  dv_clear_addresses :: "('d, unit) eff"
  dv_clear_routes :: "('d, unit) eff"
  dv_add_addresses :: "ip_info list \<Rightarrow> ('d, unit) eff"
  dv_add_routes :: "ip_info list \<Rightarrow> ('d, unit) eff"
  dv_disconnect :: "('d, unit) eff"
  dv_add_network :: "(octet_string, wpa_value) stdmap \<Rightarrow> ('d, octet_string) eff"
  dv_select_network :: "octet_string \<Rightarrow> ('d, unit) eff"
  dv_system :: "octet_string \<Rightarrow> ('d, int) eff"
  dv_lexical_int :: "octet_string \<Rightarrow> int option"
  dv_op_mode_state :: "u8 \<Rightarrow> link_states_rsp"
  dv_threshold :: threshold

definition on_dev :: "('d, 'a) eff \<Rightarrow> ('d sap, 'a) eff" where
  "on_dev m s = (case m (dev s) of (r, d) \<Rightarrow> (r, s\<lparr>dev := d\<rparr>))"

section \<open>TLVs of the indications\<close>

definition tlv_ip_renewal_flag :: "bool tlv_name" where "tlv_ip_renewal_flag = (17, bool_codec)"
definition tlv_ip_mob_mgmt :: "bitmap tlv_name" where "tlv_ip_mob_mgmt = (18, bitmap_codec 16)"
definition tlv_link_dn_reason :: "u8 tlv_name" where "tlv_link_dn_reason = (20, enumeration_codec)"
definition tlv_link_gd_reason :: "u8 tlv_name" where "tlv_link_gd_reason = (22, enumeration_codec)"
definition tlv_link_param_rpt_list :: "link_param_report list tlv_name" where
  "tlv_link_param_rpt_list = (23, vector_codec link_param_report_codec)"

section \<open>Messages to the MIHF\<close>

definition sap_send :: "u16 \<Rightarrow> u16 \<Rightarrow> (oarchive, unit) eff \<Rightarrow> ('d sap, unit) eff" where
  "sap_send tid mid tlvs s =
     (case msg_write mid None tlvs (meta_message_new\<lparr>m_tid := tid\<rparr>) of
        (Inl e, _) \<Rightarrow> (Inl e, s)
      | (Inr _, m) \<Rightarrow>
          (case link_async_send m None (ls s) of
             (Inl e, l) \<Rightarrow> (Inl e, s\<lparr>ls := l\<rparr>)
           | (Inr _, l) \<Rightarrow> (Inr (), s\<lparr>ls := l\<rparr>)))"

definition subscribed_to :: "nat \<Rightarrow> ('d sap, unit) eff \<Rightarrow> ('d sap, unit) eff" where
  "subscribed_to ev m = bnd (gets (\<lambda>s. bm_get (subscribed_event_list s) ev)) (\<lambda>b. on_cond b m)"

section \<open>Cleaning up\<close>

definition dhclient_pidfile :: "octet_string \<Rightarrow> octet_string \<Rightarrow> octet_string" where
  "dhclient_pidfile d v = ''dhclient_'' @ d @ ''_'' @ v @ ''.pid''"

definition dhclient_bind :: "'d device \<Rightarrow> octet_string \<Rightarrow> ('d sap, unit) eff" where
  "dhclient_bind dv v = bnd (gets devname) (\<lambda>d.
     bnd (on_dev (dv_system dv (''/usr/sbin/dhclient -'' @ v @ '' -pf '' @ dhclient_pidfile d v @ '' -1 '' @ d))) (\<lambda>result.
     on_cond (result \<noteq> 0) (throw runtime_error)))"

definition dhclient_release :: "'d device \<Rightarrow> octet_string \<Rightarrow> ('d sap, unit) eff" where
  "dhclient_release dv v = bnd (gets devname) (\<lambda>d.
     bnd (on_dev (dv_system dv (''/usr/sbin/dhclient -x -pf '' @ dhclient_pidfile d v @ '' -n''))) (\<lambda>result.
     on_cond (result \<noteq> 0) (throw runtime_error)))"

definition clean_l2 :: "'d device \<Rightarrow> ('d sap, unit) eff" where
  "clean_l2 dv = try_catch (on_dev (dv_disconnect dv)) (\<lambda>e. e = dbus_error) (ret ())"

definition clean_l3 :: "'d device \<Rightarrow> ('d sap, unit) eff" where
  "clean_l3 dv = seq (on_dev (dv_clear_addresses dv)) (seq (on_dev (dv_clear_routes dv))
     (seq (dhclient_release dv ''4'') (seq (dhclient_release dv ''6'')
     (upd (\<lambda>s. s\<lparr>resolv_conf := []\<rparr>)))))"

section \<open>Events\<close>

definition dispatch_link_up ::
  "link_tuple_id \<Rightarrow> link_addr option \<Rightarrow> link_addr option \<Rightarrow> bool option \<Rightarrow> bitmap option \<Rightarrow> ('d sap, unit) eff" where
  "dispatch_link_up lid old_router new_router ip_renew mobility_management =
     seq (upd (\<lambda>s. case scheduled_scan_task s of
            None \<Rightarrow> s
          | Some t \<Rightarrow> if tt_running t then s\<lparr>scheduled_scan_task := Some (task_stop t)\<rparr> else s))
     (seq (upd (\<lambda>s. if 0 < length (th_cross_list s) \<and> \<not> tt_running (threshold_check_task s)
            then s\<lparr>threshold_check_task := task_start (threshold_check_task s)\<rparr> else s))
     (seq (upd (\<lambda>s. s\<lparr>period_rpt_list := map (pr_task_update task_start) (period_rpt_list s)\<rparr>))
     (subscribed_to 1 (sap_send 0 (indication Link_up)
        (seq (wr tlv_link_identifier lid) (seq (wr_opt tlv_old_access_router old_router)
        (seq (wr_opt tlv_new_access_router new_router) (seq (wr_opt tlv_ip_renewal_flag ip_renew)
        (wr_opt tlv_ip_mob_mgmt mobility_management)))))))))"

definition dispatch_link_down :: "link_tuple_id \<Rightarrow> link_addr option \<Rightarrow> u8 \<Rightarrow> ('d sap, unit) eff" where
  "dispatch_link_down lid old_router rs =
     seq (upd (\<lambda>s. case scheduled_scan_task s of
            None \<Rightarrow> s
          | Some t \<Rightarrow> if \<not> tt_running t then s\<lparr>scheduled_scan_task := Some (task_start t)\<rparr> else s))
     (seq (upd (\<lambda>s. if 0 < length (th_cross_list s) \<and> tt_running (threshold_check_task s)
            then s\<lparr>threshold_check_task := task_stop (threshold_check_task s)\<rparr> else s))
     (seq (upd (\<lambda>s. s\<lparr>period_rpt_list := map (pr_task_update task_stop) (period_rpt_list s)\<rparr>))
     (subscribed_to 2 (sap_send 0 (indication Link_down)
        (seq (wr tlv_link_identifier lid) (seq (wr_opt tlv_old_access_router old_router) (wr tlv_link_dn_reason rs)))))))"

definition dispatch_link_going_down :: "link_tuple_id \<Rightarrow> u16 \<Rightarrow> u8 \<Rightarrow> ('d sap, unit) eff" where
  "dispatch_link_going_down lid interval rs = subscribed_to 4 (sap_send 0 (indication Link_going_down)
     (seq (wr tlv_link_identifier lid) (seq (wr tlv_time_interval interval) (wr tlv_link_gd_reason rs))))"

definition dispatch_link_detected :: "link_det_info \<Rightarrow> ('d sap, unit) eff" where
  "dispatch_link_detected l = subscribed_to 0 (sap_send 0 (indication Link_detected) (wr tlv_link_det_info l))"

definition dispatch_link_parameters_report :: "link_tuple_id \<Rightarrow> link_param_report list \<Rightarrow> ('d sap, unit) eff" where
  "dispatch_link_parameters_report lid rpt_list = subscribed_to 3 (sap_send 0 (indication Link_parameters_report)
     (seq (wr tlv_link_identifier lid) (wr tlv_link_param_rpt_list rpt_list)))"

text \<open>The field and the text of the request are only logged; the list holds one empty configuration.\<close>

definition dispatch_link_conf_required :: "link_tuple_id \<Rightarrow> octet_string \<Rightarrow> octet_string \<Rightarrow> ('d sap, unit) eff" where
  "dispatch_link_conf_required lid field txt = subscribed_to 8 (sap_send 0 (indication Link_conf_required)
     (seq (wr tlv_link_identifier lid) (wr tlv_configuration_list [\<lparr>cfg_key = [], cfg_value = []\<rparr>])))"

definition dispatch_link_conf_completion :: "'d device \<Rightarrow> u16 \<Rightarrow> status \<Rightarrow> ('d sap, unit) eff" where
  "dispatch_link_conf_completion dv tid st =
     seq (on_cond (st \<noteq> status_success) (clean_l2 dv)) (sap_send tid (confirm Link_conf) (wr tlv_status st))"

definition dispatch_status_failure :: "u16 \<Rightarrow> u16 \<Rightarrow> ('d sap, unit) eff" where
  "dispatch_status_failure tid mid = sap_send tid mid (wr tlv_status status_failure)"

section \<open>Link parameters\<close>

definition link_parameter_supported :: "link_param_type \<Rightarrow> bool" where
  "link_parameter_supported pt = (case pt of
     Lp_802_11 p \<Rightarrow> p = 0
   | Lp_gen p \<Rightarrow> p = 0 \<or> p = 1 \<or> p = 4
   | _ \<Rightarrow> False)"

text \<open>A percentage as it is, a value in dBm sign-extended to the 16 bits of a \<open>link_param_val\<close>.\<close>

definition signal_value :: "sig_strength \<Rightarrow> u16" where
  "signal_value g = (case g of Sig_percentage v \<Rightarrow> ucast v | Sig_dbm v \<Rightarrow> scast v)"

definition link_get_parameter :: "'d device \<Rightarrow> link_param_type \<Rightarrow> ('d sap, link_param option) eff" where
  "link_get_parameter dv pt = bnd (on_dev (dv_get_poa_info dv)) (\<lambda>ap_info.
     let res = (\<lambda>v. ret (Some \<lparr>lpa_type = pt, lpa_value = Lpv_val v\<rparr>)) in
     case pt of
       Lp_802_11 p \<Rightarrow>
         if p = 0 then res (signal_value (ldi_signal ap_info))
         else if p = 1 then res (if bm_get (ldi_net_capabilities ap_info) 1 then 0 else 1)
         else ret None
     | Lp_gen p \<Rightarrow>
         if p = 0 then
           (case poa_addr (ldi_id ap_info) of
              Some (Mac_addr addr) \<Rightarrow> bnd (on_dev (dv_get_current_data_rate dv addr)) (\<lambda>rate. res (ucast rate))
            | _ \<Rightarrow> throw bad_get)
         else if p = 1 then res (signal_value (ldi_signal ap_info))
         else if p = 4 then bnd (on_dev (dv_get_packet_error_rate dv)) (\<lambda>per. res (ucast per))
         else ret None
     | _ \<Rightarrow> ret None)"

section \<open>Threshold checks and periodic reports\<close>

definition get_val :: "link_param_value \<Rightarrow> exn + u16" where
  "get_val v = (case v of Lpv_val x \<Rightarrow> Inr x | Lpv_qos _ \<Rightarrow> Inl bad_get)"

definition crosses :: "threshold \<Rightarrow> u16 \<Rightarrow> bool" where
  "crosses th v = (if threshold_x_dir th = 0 then threshold_val th < v
     else if threshold_x_dir th = 1 then v < threshold_val th else False)"

text \<open>
  The loop of \<open>global_thresholds_check\<close> from the position \<open>i\<close> of the iterator. A parameter that
  cannot be read makes the loop go round at the same position; \<open>n\<close> bounds the rounds.
\<close>

fun thresholds_loop :: "'d device \<Rightarrow> nat \<Rightarrow> nat \<Rightarrow> link_param_report list \<Rightarrow> ('d sap, link_param_report list) eff" where
  "thresholds_loop dv 0 i rpt_list = throw out_of_fuel"
| "thresholds_loop dv (Suc n) i rpt_list = bnd (gets th_cross_list) (\<lambda>ths.
     if i < length ths then
       bnd (link_get_parameter dv (tc_type (ths ! i))) (\<lambda>status_param. case status_param of
         None \<Rightarrow> thresholds_loop dv n i rpt_list
       | Some sp \<Rightarrow>
           (case get_val (lpa_value sp) of
              Inl e \<Rightarrow> throw e
            | Inr uintval \<Rightarrow>
                if crosses (tc_th (ths ! i)) uintval then
                  let rpt = \<lparr>lpr_param = \<lparr>lpa_type = tc_type (ths ! i), lpa_value = lpa_value sp\<rparr>, lpr_thold = Some (tc_th (ths ! i))\<rparr> in
                  if tc_one_shot (ths ! i)
                  then seq (upd (\<lambda>s. s\<lparr>th_cross_list := take i ths @ drop (Suc i) ths\<rparr>)) (thresholds_loop dv n i (rpt_list @ [rpt]))
                  else thresholds_loop dv n (Suc i) (rpt_list @ [rpt])
                else thresholds_loop dv n (Suc i) rpt_list))
     else ret rpt_list)"

definition global_thresholds_check :: "'d device \<Rightarrow> nat \<Rightarrow> ('d sap, unit) eff" where
  "global_thresholds_check dv n = subscribed_to 3 (try_catch
     (bnd (on_dev (dv_link_tuple_id dv)) (\<lambda>lid.
      bnd (thresholds_loop dv n 0 []) (\<lambda>rpt_list.
      on_cond (0 < length rpt_list) (dispatch_link_parameters_report lid rpt_list))))
     catchable (ret ()))"

definition report_value :: "'d device \<Rightarrow> link_param_type \<Rightarrow> ('d sap, unit) eff" where
  "report_value dv pt = try_catch
     (bnd (link_get_parameter dv pt) (\<lambda>status_param. case status_param of
        None \<Rightarrow> ret ()
      | Some sp \<Rightarrow> bnd (on_dev (dv_link_tuple_id dv)) (\<lambda>lid.
          dispatch_link_parameters_report lid [\<lparr>lpr_param = sp, lpr_thold = None\<rparr>])))
     catchable (ret ())"

definition scheduled_scan_trigger :: "'d device \<Rightarrow> ('d sap, unit) eff" where
  "scheduled_scan_trigger dv = try_catch (on_dev (dv_trigger_scan dv False)) catchable (ret ())"

section \<open>Commands\<close>

definition handle_capability_discover :: "u16 \<Rightarrow> ('d sap, unit) eff" where
  "handle_capability_discover tid = bnd (gets capabilities_event_list) (\<lambda>evts. bnd (gets capabilities_command_list) (\<lambda>cmds.
     sap_send tid (confirm Capability_discover)
       (seq (wr tlv_status status_success) (seq (wr tlv_link_evt_list evts) (wr tlv_link_cmd_list cmds)))))"

definition handle_event_subscribe :: "u16 \<Rightarrow> bitmap \<Rightarrow> ('d sap, unit) eff" where
  "handle_event_subscribe tid events = bnd (gets capabilities_event_list) (\<lambda>caps.
     let events = bm_common events caps in
     seq (upd (\<lambda>s. s\<lparr>subscribed_event_list := bm_merge (subscribed_event_list s) events\<rparr>))
     (sap_send tid (confirm Event_subscribe) (seq (wr tlv_status status_success) (wr tlv_link_evt_list events))))"

definition handle_event_unsubscribe :: "u16 \<Rightarrow> bitmap \<Rightarrow> ('d sap, unit) eff" where
  "handle_event_unsubscribe tid events = bnd (gets capabilities_event_list) (\<lambda>caps.
     let events = bm_common events caps in
     seq (upd (\<lambda>s. s\<lparr>subscribed_event_list := bm_except (subscribed_event_list s) events\<rparr>))
     (sap_send tid (confirm Event_unsubscribe) (seq (wr tlv_status status_success) (wr tlv_link_evt_list events))))"

fun get_parameters :: "'d device \<Rightarrow> link_param_type list \<Rightarrow> ('d sap, link_param list) eff" where
  "get_parameters dv [] = ret []"
| "get_parameters dv (pt # pts) = bnd (link_get_parameter dv pt) (\<lambda>p. bnd (get_parameters dv pts) (\<lambda>ps.
     ret (case p of None \<Rightarrow> ps | Some sp \<Rightarrow> sp # ps)))"

definition handle_link_get_parameters ::
  "'d device \<Rightarrow> u16 \<Rightarrow> link_param_type list \<Rightarrow> bitmap \<Rightarrow> bitmap \<Rightarrow> ('d sap, unit) eff" where
  "handle_link_get_parameters dv tid param_list states_req desc_req = try_catch
     (bnd (get_parameters dv param_list) (\<lambda>status_list.
      bnd (on_dev (dv_get_poa_info dv)) (\<lambda>ap_info.
      let channel = (if bm_get states_req 1 then [Channel_id (ucast (poa_channel_id ap_info))] else []) in
      bnd (if bm_get states_req 0 then bnd (on_dev (dv_get_op_mode dv)) (\<lambda>m. ret (channel @ [dv_op_mode_state dv m])) else ret channel) (\<lambda>states_list.
      sap_send tid (confirm Link_get_parameters)
        (seq (wr tlv_status status_success) (seq (wr tlv_link_parameters_status_list status_list)
        (seq (wr tlv_link_states_rsp states_list) (wr (tlv_link_descriptor_rsp Num_cos) []))))))))
     catchable (dispatch_status_failure tid (confirm Link_get_parameters))"

text \<open>
  One parameter of the request: its effect on the two lists and the statuses it adds to the
  answer. The threshold of a status that is not assigned one is uninitialised.
\<close>

definition cfg_status :: "link_param_type \<Rightarrow> threshold \<Rightarrow> bool \<Rightarrow> link_cfg_status" where
  "cfg_status t th st = \<lparr>lcs_type = t, lcs_thold = th, lcs_status = st\<rparr>"

definition same_threshold :: "link_param_type \<Rightarrow> threshold \<Rightarrow> threshold_cross_data \<Rightarrow> bool" where
  "same_threshold t th c \<longleftrightarrow> tc_type c = t \<and> threshold_val (tc_th c) = threshold_val th
     \<and> threshold_x_dir (tc_th c) = threshold_x_dir th"

definition configure_param :: "'d device \<Rightarrow> link_cfg_param \<Rightarrow> ('d sap, link_cfg_status list) eff" where
  "configure_param dv param =
     (let t = lcp_type param; ths = lcp_threshold_list param in
      if \<not> link_parameter_supported t then ret [cfg_status t (dv_threshold dv) False]
      else if lcp_action param = 2 then
        if length ths = 0 then
          seq (upd (\<lambda>s. s\<lparr>th_cross_list := filter (\<lambda>c. tc_type c \<noteq> t) (th_cross_list s),
                  period_rpt_list := filter (\<lambda>r. pr_type r \<noteq> t) (period_rpt_list s)\<rparr>))
          (ret [cfg_status t (dv_threshold dv) True])
        else
          seq (for_each (\<lambda>th. upd (\<lambda>s. s\<lparr>th_cross_list := filter (\<lambda>c. \<not> same_threshold t th c) (th_cross_list s)\<rparr>)) ths)
          (ret (map (\<lambda>th. cfg_status t th True) ths))
      else (case lcp_timer_interval param of
        Some period \<Rightarrow>
          seq (upd (\<lambda>s. s\<lparr>period_rpt_list := period_rpt_list s
                 @ [\<lparr>pr_task = task_start (timer_task_new (ucast period)), pr_type = t\<rparr>]\<rparr>))
          (ret [])
      | None \<Rightarrow>
          seq (for_each (\<lambda>th. upd (\<lambda>s. s\<lparr>th_cross_list := th_cross_list s
                 @ [\<lparr>tc_one_shot = (lcp_action param = 1), tc_type = t, tc_th = th\<rparr>]\<rparr>)) ths)
          (ret (map (\<lambda>th. cfg_status t th True) ths))))"

fun configure_params :: "'d device \<Rightarrow> link_cfg_param list \<Rightarrow> ('d sap, link_cfg_status list) eff" where
  "configure_params dv [] = ret []"
| "configure_params dv (p # ps) =
     bnd (configure_param dv p) (\<lambda>st. bnd (configure_params dv ps) (\<lambda>sts. ret (st @ sts)))"

definition handle_link_configure_thresholds :: "'d device \<Rightarrow> u16 \<Rightarrow> link_cfg_param list \<Rightarrow> ('d sap, unit) eff" where
  "handle_link_configure_thresholds dv tid param_list =
     bnd (configure_params dv param_list) (\<lambda>status_list.
     seq (upd (\<lambda>s. let t = threshold_check_task s in
            if 0 < length (th_cross_list s) \<and> \<not> tt_running t then s\<lparr>threshold_check_task := task_start t\<rparr>
            else if length (th_cross_list s) = 0 \<and> tt_running t then s\<lparr>threshold_check_task := task_stop t\<rparr>
            else s))
     (sap_send tid (confirm Link_configure_thresholds)
        (seq (wr tlv_status status_success) (wr tlv_link_cfg_status_list status_list))))"

text \<open>The wait for the delay blocks the thread and has no other effect.\<close>

definition handle_link_actions :: "'d device \<Rightarrow> u16 \<Rightarrow> link_action \<Rightarrow> u16 \<Rightarrow> link_addr option \<Rightarrow> ('d sap, unit) eff" where
  "handle_link_actions dv tid action delay poa = try_catch
     (if bm_get (lac_attr action) 1 \<or> bm_get (lac_attr action) 2 \<or> poa \<noteq> None
      then dispatch_status_failure tid (confirm Link_actions)
      else seq (on_dev (dv_set_op_mode dv (lac_type action)))
       (bnd (if lac_type action \<noteq> 3 \<and> bm_get (lac_attr action) 0
             then seq (on_dev (dv_trigger_scan dv True)) (on_dev (dv_get_scan_results dv)) else ret []) (\<lambda>scan_rsp_list.
        seq (on_cond (lac_type action = 3 \<or> lac_type action = 1) (seq (clean_l2 dv) (clean_l3 dv)))
        (sap_send tid (confirm Link_actions)
          (seq (wr tlv_status status_success) (seq (wr tlv_link_scan_rsp_list scan_rsp_list) (wr tlv_link_ac_result 0)))))))
     catchable (dispatch_status_failure tid (confirm Link_actions))"

definition integer_settings :: "octet_string list" where
  "integer_settings = [''scan_ssid'', ''mode'', ''frequency'', ''wep_tx_keyidx'', ''eapol_flags'', ''engine'',
     ''fragment_size'', ''proactive_key_caching'']"

definition supplicant_value :: "'d device \<Rightarrow> configuration \<Rightarrow> exn + wpa_value" where
  "supplicant_value dv c =
     (if list_ex (iequals (cfg_key c)) integer_settings
      then case dv_lexical_int dv (cfg_value c) of None \<Rightarrow> Inl bad_lexical_cast | Some i \<Rightarrow> Inr (Wpa_int i)
      else Inr (Wpa_string (cfg_value c)))"

fun network_settings :: "'d device \<Rightarrow> configuration list \<Rightarrow> (octet_string, wpa_value) stdmap
    \<Rightarrow> exn + (octet_string, wpa_value) stdmap" where
  "network_settings dv [] network_map = Inr network_map"
| "network_settings dv (c # cs) network_map =
     (case supplicant_value dv c of
        Inl e \<Rightarrow> Inl e
      | Inr v \<Rightarrow> network_settings dv cs (map_store (cfg_key c) v network_map))"

definition add_completion_handler :: "u16 \<Rightarrow> wpa_interface \<Rightarrow> wpa_interface" where
  "add_completion_handler h w =
     (if wpa_wired w then w\<lparr>completion_handlers := completion_handlers w @ [h]\<rparr>
      else w\<lparr>buffered_handlers := buffered_handlers w @ [h]\<rparr>)"

definition handle_link_conf :: "'d device \<Rightarrow> u16 \<Rightarrow> configuration list \<Rightarrow> ('d sap, unit) eff" where
  "handle_link_conf dv tid lconf = try_catch
     (case network_settings dv lconf [] of
        Inl e \<Rightarrow> throw e
      | Inr network_map \<Rightarrow> try_catch
          (bnd (on_dev (dv_add_network dv network_map)) (\<lambda>wpa_network.
           seq (upd (\<lambda>s. s\<lparr>wpa := add_completion_handler tid (wpa s)\<rparr>))
           (on_dev (dv_select_network dv wpa_network))))
          (\<lambda>e. e = dbus_error) (dispatch_status_failure tid (confirm Link_conf)))
     catchable (dispatch_status_failure tid (confirm Link_conf))"

fun join :: "octet_string \<Rightarrow> octet_string list \<Rightarrow> octet_string" where
  "join sep [] = []"
| "join sep [x] = x"
| "join sep (x # xs) = x @ sep @ join sep xs"

definition resolv_append :: "octet_string \<Rightarrow> ('d sap, unit) eff" where
  "resolv_append l = upd (\<lambda>s. s\<lparr>resolv_conf := resolv_conf s @ l @ [CHR 0x0A]\<rparr>)"

definition handle_l3_conf :: "'d device \<Rightarrow> u16 \<Rightarrow> bitmap \<Rightarrow> ip_info list option \<Rightarrow> ip_info list option
    \<Rightarrow> transport_addr list option \<Rightarrow> octet_string list option \<Rightarrow> ('d sap, unit) eff" where
  "handle_l3_conf dv tid cfg_methods address_list route_list dns_list domain_list = try_catch
     (seq (clean_l3 dv)
     (seq (on_cond (bm_get cfg_methods 1) (dhclient_bind dv ''4''))
     (seq (on_cond (bm_get cfg_methods 12) (dhclient_bind dv ''6''))
     (seq (case address_list of None \<Rightarrow> ret () | Some l \<Rightarrow> on_dev (dv_add_addresses dv l))
     (seq (case route_list of None \<Rightarrow> ret () | Some l \<Rightarrow> on_dev (dv_add_routes dv l))
     (seq (case dns_list of None \<Rightarrow> ret () | Some l \<Rightarrow> for_each (\<lambda>a. resolv_append (''nameserver '' @ ip_address a)) l)
     (seq (case domain_list of None \<Rightarrow> ret () | Some l \<Rightarrow> resolv_append (''search '' @ join '' '' l))
     (sap_send tid (confirm L3_conf) (wr tlv_status status_success)))))))))
     catchable (dispatch_status_failure tid (confirm L3_conf))"

section \<open>The callback for messages of the MIHF\<close>

definition msg_args :: "meta_message \<Rightarrow> (iarchive, 'b) eff \<Rightarrow> ('b \<Rightarrow> ('d sap, unit) eff) \<Rightarrow> ('d sap, unit) eff" where
  "msg_args m tlvs k = (case fst (msg_read 0 tlvs m) of Inl e \<Rightarrow> throw e | Inr x \<Rightarrow> k x)"

definition default_handler_80211 :: "'d device \<Rightarrow> meta_message \<Rightarrow> errc \<Rightarrow> ('d sap, unit) eff" where
  "default_handler_80211 dv m ec =
     (let tid = m_tid m in
      if ec \<noteq> no_error then ret ()
      else if m_mid m = request Capability_discover then handle_capability_discover tid
      else if m_mid m = request Event_subscribe then
        msg_args m (rd tlv_link_evt_list) (handle_event_subscribe tid)
      else if m_mid m = request Event_unsubscribe then
        msg_args m (rd tlv_link_evt_list) (handle_event_unsubscribe tid)
      else if m_mid m = request Link_get_parameters then
        msg_args m (bnd (rd tlv_link_parameters_req) (\<lambda>p. bnd (rd tlv_link_states_req) (\<lambda>s.
            bnd (rd tlv_link_descriptor_req) (\<lambda>d. ret (p, s, d)))))
          (\<lambda>(p, s, d). handle_link_get_parameters dv tid p s d)
      else if m_mid m = request Link_configure_thresholds then
        msg_args m (rd tlv_link_cfg_param_list) (handle_link_configure_thresholds dv tid)
      else if m_mid m = request Link_actions then
        msg_args m (bnd (rd tlv_link_action) (\<lambda>a. bnd (rd tlv_time_interval) (\<lambda>d. bnd (rd_opt tlv_poa) (\<lambda>p. ret (a, d, p)))))
          (\<lambda>(a, d, p). handle_link_actions dv tid a d p)
      else if m_mid m = request Link_conf then
        msg_args m (bnd (rd tlv_link_identifier) (\<lambda>_. bnd (rd_opt tlv_poa) (\<lambda>_. rd tlv_configuration_list)))
          (handle_link_conf dv tid)
      else if m_mid m = request L3_conf then
        msg_args m (bnd (rd tlv_link_identifier) (\<lambda>_. bnd (rd tlv_ip_cfg_methods) (\<lambda>c. bnd (rd_opt tlv_ip_addr_list) (\<lambda>a.
            bnd (rd_opt tlv_ip_route_list) (\<lambda>r. bnd (rd_opt tlv_ip_dns_list) (\<lambda>d. bnd (rd_opt tlv_fqdn_list) (\<lambda>f.
            ret (c, a, r, d, f))))))))
          (\<lambda>(c, a, r, d, f). handle_l3_conf dv tid c a r d f)
      else ret ())"

section \<open>The supplicant interface\<close>

definition complete_all :: "'d device \<Rightarrow> status \<Rightarrow> ('d sap, unit) eff" where
  "complete_all dv st = bnd (gets (completion_handlers \<circ> wpa)) (for_each (\<lambda>h.
     seq (dispatch_link_conf_completion dv h st)
     (upd (\<lambda>s. s\<lparr>wpa := wpa s\<lparr>completion_handlers := tl (completion_handlers (wpa s))\<rparr>\<rparr>))))"

text \<open>\<open>None\<close>: the signal carries no property \<open>State\<close>.\<close>

definition properties_changed :: "'d device \<Rightarrow> octet_string option \<Rightarrow> ('d sap, unit) eff" where
  "properties_changed dv state = (case state of
     None \<Rightarrow> ret ()
   | Some v \<Rightarrow>
       if iequals v ''associating''
       then upd (\<lambda>s. s\<lparr>wpa := wpa s\<lparr>completion_handlers := buffered_handlers (wpa s), buffered_handlers := []\<rparr>\<rparr>)
       else let success = iequals v ''completed'' in
         on_cond (success \<or> iequals v ''disconnected'') (complete_all dv (if success then status_success else status_failure)))"

definition network_request :: "'d device \<Rightarrow> octet_string \<Rightarrow> octet_string \<Rightarrow> ('d sap, unit) eff" where
  "network_request dv field txt = seq (complete_all dv status_authorization_failure)
     (bnd (gets sap_id) (\<lambda>lid. dispatch_link_conf_required lid field txt))"

section \<open>Start and events\<close>

definition supported_events :: bitmap where
  "supported_events = fold bm_set [0, 1, 2, 3, 4, 8] (bm_new 32)"

definition supported_commands :: bitmap where
  "supported_commands = fold bm_set [1, 2, 3, 4, 6, 7] (bm_new 32)"

definition mihf_sap_init :: "link_tuple_id \<Rightarrow> ('d sap, unit) eff" where
  "mihf_sap_init ident = sap_send 0 (indication Link_register) (wr tlv_interface_type_addr (link_id.truncate ident))"

text \<open>
  The state of \<open>main\<close> with the configured identifiers and periods, and its first steps on it. A
  threshold period of 0 is refused.
\<close>

definition sap_new :: "mihf_id \<Rightarrow> mihf_id \<Rightarrow> u32 \<Rightarrow> u32 \<Rightarrow> bool \<Rightarrow> octet_string \<Rightarrow> octet_string \<Rightarrow> link_tuple_id \<Rightarrow> 'd \<Rightarrow> 'd sap" where
  "sap_new link_id mihf th_period sched_scan_period wired resolv name ident d =
     \<lparr>ls = link_new link_id mihf, threshold_check_task = timer_task_new th_period,
      scheduled_scan_task = (if 0 < sched_scan_period then Some (timer_task_new sched_scan_period) else None),
      capabilities_event_list = supported_events, capabilities_command_list = supported_commands,
      subscribed_event_list = bm_new 32, th_cross_list = [], period_rpt_list = [],
      wpa = \<lparr>wpa_wired = wired, buffered_handlers = [], completion_handlers = []\<rparr>,
      resolv_conf = resolv, devname = name, sap_id = ident, dev = d\<rparr>"

definition sap_main :: "'d device \<Rightarrow> ('d sap, bool) eff" where
  "sap_main dv = bnd (gets (tt_period \<circ> threshold_check_task)) (\<lambda>th_period.
     if th_period = 0 then ret False
     else bnd (gets sap_id) (\<lambda>ident. seq (mihf_sap_init ident)
       (bnd (gets scheduled_scan_task) (\<lambda>t. case t of
          None \<Rightarrow> ret True
        | Some t \<Rightarrow> bnd (on_dev (dv_link_up dv)) (\<lambda>up.
            seq (on_cond (\<not> up) (upd (\<lambda>s. s\<lparr>scheduled_scan_task := Some (task_start t)\<rparr>))) (ret True))))))"

text \<open>\<open>link::recv_handler\<close> with \<open>default_handler\<close> as its callback.\<close>

definition sap_receive :: "'d device \<Rightarrow> u8 list \<Rightarrow> ('d sap, unit) eff" where
  "sap_receive dv buff = (case frame_cast buff of
     None \<Rightarrow> ret ()
   | Some fm \<Rightarrow> (case message_of_frame fm of
       Inl e \<Rightarrow> throw e
     | Inr pm \<Rightarrow> default_handler_80211 dv pm no_error))"

datatype sap_event =
    Mihf_datagram "u8 list"
  | Device_up link_tuple_id "link_addr option" "link_addr option" "bool option" "bitmap option"
  | Device_down link_tuple_id "link_addr option" u8
  | Device_going_down link_tuple_id u16 u8
  | Device_detected link_det_info
  | Threshold_timer
  | Report_timer nat
  | Scan_timer
  | Properties_changed "octet_string option"
  | Network_request octet_string octet_string

definition report_task_update :: "nat \<Rightarrow> (timer_task \<Rightarrow> timer_task) \<Rightarrow> 'd sap \<Rightarrow> 'd sap" where
  "report_task_update i f s = s\<lparr>period_rpt_list := (period_rpt_list s)[i := (period_rpt_list s ! i)\<lparr>pr_task := f (pr_task (period_rpt_list s ! i))\<rparr>]\<rparr>"

fun sap_event_run :: "'d device \<Rightarrow> nat \<Rightarrow> sap_event \<Rightarrow> ('d sap, unit) eff" where
  "sap_event_run dv n (Mihf_datagram buff) = sap_receive dv buff"
| "sap_event_run dv n (Device_up lid old_router new_router ip_renew mob) = dispatch_link_up lid old_router new_router ip_renew mob"
| "sap_event_run dv n (Device_down lid old_router rs) = dispatch_link_down lid old_router rs"
| "sap_event_run dv n (Device_going_down lid interval rs) = dispatch_link_going_down lid interval rs"
| "sap_event_run dv n (Device_detected l) = dispatch_link_detected l"
| "sap_event_run dv n Threshold_timer =
     task_handler threshold_check_task threshold_check_task_update (global_thresholds_check dv n)"
| "sap_event_run dv n (Report_timer i) = bnd (gets period_rpt_list) (\<lambda>rs. on_cond (i < length rs)
     (task_handler (\<lambda>s. pr_task (period_rpt_list s ! i)) (report_task_update i) (report_value dv (pr_type (rs ! i)))))"
| "sap_event_run dv n Scan_timer = bnd (gets scheduled_scan_task) (\<lambda>t. on_cond (t \<noteq> None)
     (task_handler (\<lambda>s. the (scheduled_scan_task s)) (\<lambda>f s. s\<lparr>scheduled_scan_task := map_option f (scheduled_scan_task s)\<rparr>)
       (scheduled_scan_trigger dv)))"
| "sap_event_run dv n (Properties_changed state) = properties_changed dv state"
| "sap_event_run dv n (Network_request field txt) = network_request dv field txt"

text \<open>The states of a run. Between two events the device may change by itself.\<close>

inductive sap_reachable :: "'d device \<Rightarrow> 'd sap \<Rightarrow> bool" for dv where
  sap_starts: "sap_main dv (sap_new link_id mihf th_period sched wired resolv name ident d) = (Inr True, s)
    \<Longrightarrow> sap_reachable dv s"
| sap_event: "sap_reachable dv s \<Longrightarrow> sap_event_run dv n ev s = (Inr (), s') \<Longrightarrow> sap_reachable dv s'"
| sap_device: "sap_reachable dv s \<Longrightarrow> sap_reachable dv (s\<lparr>dev := d\<rparr>)"

end
