(* ===== verification/Link_Sap_Inv.thy ===== *)
theory Link_Sap_Inv
  imports Link_Sap
begin

text \<open>
  What holds of the Link SAP in every state it reaches, and what its threshold check and its
  configuration commands do.
\<close>

section \<open>Reading the device\<close>

definition only_dev :: "('d sap, 'a) eff \<Rightarrow> bool" where
  "only_dev m \<longleftrightarrow> (\<forall>s. \<exists>r d. m s = (r, s\<lparr>dev := d\<rparr>))"

named_theorems only_dev_intros \<open>operations that change nothing but the device\<close>

lemma only_devE:
  assumes "only_dev m"
  obtains r d where "m s = (r, s\<lparr>dev := d\<rparr>)"
  using assms unfolding only_dev_def by blast

lemma same_dev: "s = s\<lparr>dev := dev s\<rparr>"
  by simp

lemma only_dev_basic [only_dev_intros]: "only_dev (ret x)" "only_dev (throw e)" "only_dev (on_dev m)"
  unfolding only_dev_def ret_run throw_run using same_dev by (blast, blast) (auto simp: on_dev_def split: prod.split)

lemma only_dev_bnd [only_dev_intros]:
  assumes m: "only_dev m" and f: "\<And>x. only_dev (f x)"
  shows "only_dev (bnd m f)"
  unfolding only_dev_def
proof
  fix s
  obtain r d where 1: "m s = (r, s\<lparr>dev := d\<rparr>)" by (rule only_devE [OF m])
  show "\<exists>r d. bnd m f s = (r, s\<lparr>dev := d\<rparr>)"
  proof (cases r)
    case (Inl e)
    with 1 show ?thesis by auto
  next
    case (Inr x)
    obtain r' d' where "f x (s\<lparr>dev := d\<rparr>) = (r', s\<lparr>dev := d\<rparr>\<lparr>dev := d'\<rparr>)" by (rule only_devE [OF f])
    with 1 Inr show ?thesis by auto
  qed
qed

lemma only_dev_if [only_dev_intros]: "only_dev a \<Longrightarrow> only_dev b \<Longrightarrow> only_dev (if c then a else b)"
  by simp

lemma get_parameter_only_dev: "only_dev (link_get_parameter dv pt)"
  unfolding link_get_parameter_def Let_def
  by (intro only_dev_intros) (auto split: link_param_type.split option.split link_addr.split intro!: only_dev_intros simp del: fun_upd_apply)

section \<open>What the handlers keep\<close>

text \<open>
  A predicate on the thresholds and the subscriptions: it does not depend on the device, the
  socket, the supplicant, the tasks and the resolver file, and the commands keep it.
\<close>

locale sap_predicate =
  fixes P :: "'d sap \<Rightarrow> bool"
  assumes dev [simp]: "P (s\<lparr>dev := d\<rparr>) = P s"
    and ls [simp]: "P (s\<lparr>ls := l\<rparr>) = P s"
    and wpa [simp]: "P (s\<lparr>wpa := w\<rparr>) = P s"
    and resolv [simp]: "P (s\<lparr>resolv_conf := r\<rparr>) = P s"
    and check_task [simp]: "P (s\<lparr>threshold_check_task := t\<rparr>) = P s"
    and scan_task [simp]: "P (s\<lparr>scheduled_scan_task := st\<rparr>) = P s"
    and reports [simp]: "P (s\<lparr>period_rpt_list := rl\<rparr>) = P s"
    and fewer: "P s \<Longrightarrow> set ths \<subseteq> set (th_cross_list s) \<Longrightarrow> P (s\<lparr>th_cross_list := ths\<rparr>)"
    and more: "P s \<Longrightarrow> link_parameter_supported (tc_type c) \<Longrightarrow> P (s\<lparr>th_cross_list := th_cross_list s @ [c]\<rparr>)"
    and subscribes: "P s \<Longrightarrow> length e = 4
      \<Longrightarrow> P (s\<lparr>subscribed_event_list := bm_merge (subscribed_event_list s) (bm_common e (capabilities_event_list s))\<rparr>)"
    and unsubscribes: "P s \<Longrightarrow> length e = 4
      \<Longrightarrow> P (s\<lparr>subscribed_event_list := bm_except (subscribed_event_list s) (bm_common e (capabilities_event_list s))\<rparr>)"
begin

lemma on_dev_keeps [keeps_intros]: "keeps T P (on_dev m)"
  by (simp add: keeps_def wp_def on_dev_def split: prod.splits sum.splits)

lemma send_keeps [keeps_intros]: "keeps T P (sap_send tid mid tlvs)"
  by (simp add: keeps_def wp_def sap_send_def split: prod.splits sum.splits)

lemma try_keeps [keeps_intros]: "keeps (\<lambda>_. True) P m \<Longrightarrow> keeps T P h \<Longrightarrow> keeps T P (try_catch m c h)"
  by (rule keeps_try) (erule keeps_mono, simp_all)

lemma subscribed_keeps [keeps_intros]: "keeps T P m \<Longrightarrow> keeps T P (subscribed_to ev m)"
  unfolding subscribed_to_def by (intro keeps_intros)

lemma clean_keeps [keeps_intros]: "keeps T P (clean_l2 dv)" "keeps T P (clean_l3 dv)"
  "keeps T P (dhclient_bind dv v)" "keeps T P (dhclient_release dv v)"
  unfolding clean_l2_def clean_l3_def dhclient_release_def dhclient_bind_def
  by (intro keeps_intros; simp)+

lemma dispatch_keeps [keeps_intros]:
  "keeps T P (dispatch_link_up lid a b c d)" "keeps T P (dispatch_link_down lid a rs)"
  "keeps T P (dispatch_link_going_down lid i rs)" "keeps T P (dispatch_link_detected l)"
  "keeps T P (dispatch_link_parameters_report lid rl)" "keeps T P (dispatch_link_conf_required lid f x)"
  "keeps T P (dispatch_link_conf_completion dv tid stat)" "keeps T P (dispatch_status_failure tid mid)"
  unfolding dispatch_link_up_def dispatch_link_down_def dispatch_link_going_down_def dispatch_link_detected_def
    dispatch_link_parameters_report_def dispatch_link_conf_required_def dispatch_link_conf_completion_def
    dispatch_status_failure_def
  by (intro keeps_intros; simp split: option.split)+

lemma get_parameter_keeps [keeps_intros]: "keeps T P (link_get_parameter dv pt)"
  unfolding link_get_parameter_def Let_def
  by (intro keeps_intros) (auto split: link_param_type.split option.split link_addr.split intro!: keeps_intros)

lemma get_parameters_keeps [keeps_intros]: "keeps T P (get_parameters dv pts)"
  by (induction pts) (auto intro!: keeps_intros)

lemma thresholds_loop_keeps [keeps_intros]: "keeps T P (thresholds_loop dv n i rl)"
proof (induction n arbitrary: i rl)
  case 0
  then show ?case by (simp add: keeps_pair)
next
  case (Suc n)
  have loop: "wp (thresholds_loop dv n j rl') (\<lambda>_. P) (\<lambda>e s'. T e \<longrightarrow> P s') s" if "P s" for j rl' s
    using keepsD [OF Suc.IH that] .
  show ?case
  proof (rule keepsI)
    fix s assume P: "P s"
    obtain r d where g: "link_get_parameter dv (tc_type (th_cross_list s ! i)) s = (r, s\<lparr>dev := d\<rparr>)"
      by (rule only_devE [OF get_parameter_only_dev])
    have wpg: "wp (link_get_parameter dv (tc_type (th_cross_list s ! i))) Q E s
        = (case r of Inr x \<Rightarrow> Q x (s\<lparr>dev := d\<rparr>) | Inl e \<Rightarrow> E e (s\<lparr>dev := d\<rparr>))" for Q E
      by (simp add: wp_def g split: sum.split)
    have erased: "P (s\<lparr>dev := d, th_cross_list := take i (th_cross_list s) @ drop (Suc i) (th_cross_list s)\<rparr>)"
      by (rule fewer) (auto simp: P dest: in_set_takeD in_set_dropD)
    show "wp (thresholds_loop dv (Suc n) i rl) (\<lambda>_. P) (\<lambda>e s'. T e \<longrightarrow> P s') s"
      unfolding thresholds_loop.simps wp_simps wpg
      by (auto simp: wp_simps P loop erased Let_def split: sum.split option.split)
  qed
qed

lemma check_keeps [keeps_intros]: "keeps T P (global_thresholds_check dv n)" "keeps T P (report_value dv pt)"
  "keeps T P (scheduled_scan_trigger dv)"
  unfolding global_thresholds_check_def report_value_def scheduled_scan_trigger_def
  by (intro keeps_intros)+

lemma for_each_upd_keeps: "(\<And>x s. x \<in> set xs \<Longrightarrow> P s \<Longrightarrow> P (f x s)) \<Longrightarrow> keeps T P (for_each (\<lambda>x. upd (f x)) xs)"
  by (induction xs) (auto intro!: keeps_intros)

lemma configure_param_keeps [keeps_intros]: "keeps T P (configure_param dv p)"
proof -
  have "P (s\<lparr>th_cross_list := filter g (th_cross_list s)\<rparr>)" if "P s" for s g
    using fewer [OF that, of "filter g (th_cross_list s)"] by auto
  moreover have "P (s\<lparr>th_cross_list := filter g (th_cross_list s), period_rpt_list := rl\<rparr>)" if "P s" for s g rl
    using fewer [OF that, of "filter g (th_cross_list s)"] reports [where s = "s\<lparr>th_cross_list := filter g (th_cross_list s)\<rparr>"] by auto
  moreover have "P (s\<lparr>th_cross_list := th_cross_list s @ [\<lparr>tc_one_shot = b, tc_type = lcp_type p, tc_th = th\<rparr>]\<rparr>)"
    if "P s" "link_parameter_supported (lcp_type p)" for s b th
    using more [OF that(1), of "\<lparr>tc_one_shot = b, tc_type = lcp_type p, tc_th = th\<rparr>"] that(2) by simp
  ultimately show ?thesis
    unfolding configure_param_def Let_def
    by (auto split: option.split intro!: keeps_intros for_each_upd_keeps)
qed

lemma configure_params_keeps [keeps_intros]: "keeps T P (configure_params dv ps)"
  by (induction ps) (auto intro!: keeps_intros)

lemma commands_keep [keeps_intros]:
  "keeps T P (handle_capability_discover tid)" "keeps T P (handle_link_get_parameters dv tid pl sr dr)"
  "keeps T P (handle_link_configure_thresholds dv tid ps)" "keeps T P (handle_link_actions dv tid ac delay poa)"
  "keeps T P (handle_link_conf dv tid lc)" "keeps T P (handle_l3_conf dv tid cm al rl dl fl)"
  unfolding handle_capability_discover_def handle_link_get_parameters_def handle_link_configure_thresholds_def
    handle_link_actions_def handle_link_conf_def handle_l3_conf_def Let_def
  by (auto split: option.split sum.split intro!: keeps_intros simp: resolv_append_def)+

lemma subscribe_keeps:
  "length e = 4 \<Longrightarrow> keeps T P (handle_event_subscribe tid e)" "length e = 4 \<Longrightarrow> keeps T P (handle_event_unsubscribe tid e)"
  unfolding handle_event_subscribe_def handle_event_unsubscribe_def
  by (rule keepsI, simp add: wp_simps Let_def, rule keepsD [OF send_keeps], simp add: subscribes unsubscribes)+

lemma task_keeps:
  assumes "keeps T P task" "\<And>f s. P s \<Longrightarrow> P (change f s)"
  shows "keeps T P (task_handler sel change task)"
  unfolding task_handler_def using assms by (intro keeps_intros) simp_all

lemma complete_keeps [keeps_intros]: "keeps T P (complete_all dv st)" "keeps T P (properties_changed dv state)"
  "keeps T P (network_request dv f x)"
  unfolding complete_all_def properties_changed_def network_request_def Let_def
  by (auto split: option.split intro!: keeps_intros)+

end

section \<open>The length of an event list that was read\<close>

lemma get_list_length: "get_list c vs ar = (Inr xs, ar') \<Longrightarrow> length xs = length vs"
  by (induction vs arbitrary: xs ar ar') (auto simp: bnd_eq_Inr)

lemma get_bitmap_length: "get (bitmap_codec n) v ar = (Inr b, ar') \<Longrightarrow> length b = n div 8"
  by (auto simp: bitmap_codec_def struct_codec_def array_codec_def bnd_eq_Inr dest: get_list_length)

lemma on_throw_eq_Inr: "on_throw m h s = (Inr x, s') \<longleftrightarrow> m s = (Inr x, s')"
  by (auto simp: on_throw_def split: prod.splits sum.splits)

lemma i_nested_value: "i_nested len m ar = (Inr x, ar') \<Longrightarrow> \<exists>a a'. m a = (Inr x, a')"
  by (auto simp: i_nested_def split: prod.splits)

lemma base_tlv_get_value:
  assumes "base_tlv_get tc t c v ar = (Inr (Some x), ar')"
  shows "\<exists>a a'. get c v a = (Inr x, a')"
  using assms
  by (auto simp: base_tlv_get_def Let_def bnd_eq_Inr on_throw_eq_Inr split: if_splits dest: i_nested_value)

lemma tlv_value: "get (tlv_codec t c) v ar = (Inr x, ar') \<Longrightarrow> \<exists>a a'. get c v a = (Inr x, a')"
  by (auto simp: tlv_codec_def bnd_eq_Inr split: option.splits dest: base_tlv_get_value)

lemma event_list_length:
  assumes "fst (msg_read mid (rd tlv_link_evt_list) m) = Inr e"
  shows "length e = 4"
proof -
  obtain ar ar' v where "get (tlv_codec 101 (bitmap_codec 32)) v ar = (Inr e, ar')"
    using assms by (auto simp: msg_read_def rd_def mand_def tlv_link_evt_list_def split: prod.splits if_splits)
  from tlv_value [OF this] obtain a a' where "get (bitmap_codec 32) v a = (Inr e, a')" by blast
  from get_bitmap_length [OF this] show ?thesis by simp
qed

section \<open>The state of the SAP\<close>

text \<open>
  Thresholds are only kept for parameters that can be read, and only events the SAP supports are
  subscribed.
\<close>

definition sap_ok :: "'d sap \<Rightarrow> bool" where
  "sap_ok s \<longleftrightarrow> list_all (\<lambda>c. link_parameter_supported (tc_type c)) (th_cross_list s)
     \<and> capabilities_event_list s = supported_events \<and> length (subscribed_event_list s) = 4
     \<and> (\<forall>ev < 32. bm_get (subscribed_event_list s) ev \<longrightarrow> ev \<in> {0, 1, 2, 3, 4, 8})"

lemma supported_events_bits:
  "length supported_events = 4" "ev < 32 \<Longrightarrow> bm_get supported_events ev \<longleftrightarrow> ev \<in> {0, 1, 2, 3, 4, 8}"
  using bm_get_new [of ev 32] by (auto simp: supported_events_def bm_get_set bm_new_def)

interpretation sap: sap_predicate sap_ok
proof
  fix s :: "'a sap" and e :: bitmap
  assume ok: "sap_ok s" and e: "length e = 4"
  have "bm_get (bm_merge (subscribed_event_list s) (bm_common e supported_events)) ev
      \<longleftrightarrow> bm_get (subscribed_event_list s) ev \<or> bm_get e ev \<and> bm_get supported_events ev"
    "bm_get (bm_except (subscribed_event_list s) (bm_common e supported_events)) ev
      \<longleftrightarrow> bm_get (subscribed_event_list s) ev \<and> \<not> (bm_get e ev \<and> bm_get supported_events ev)" if "ev < 32" for ev
    using ok e that by (simp_all add: sap_ok_def bm_get_map2 supported_events_bits(1))
  with ok e show "sap_ok (s\<lparr>subscribed_event_list := bm_merge (subscribed_event_list s) (bm_common e (capabilities_event_list s))\<rparr>)"
    "sap_ok (s\<lparr>subscribed_event_list := bm_except (subscribed_event_list s) (bm_common e (capabilities_event_list s))\<rparr>)"
    by (auto simp: sap_ok_def supported_events_bits)
qed (auto simp: sap_ok_def list_all_iff)

lemma msg_args_keeps: "(\<And>x. fst (msg_read 0 tlvs m) = Inr x \<Longrightarrow> keeps T P (k x)) \<Longrightarrow> keeps T P (msg_args m tlvs k)"
  by (auto simp: msg_args_def split: sum.split intro!: keeps_intros)

lemma check_task_ok: "sap_ok (threshold_check_task_update f s) = sap_ok s"
  by (simp add: sap_ok_def)

lemma default_handler_keeps: "keeps T sap_ok (default_handler_80211 dv m ec)"
  unfolding default_handler_80211_def Let_def
  by (intro keeps_intros msg_args_keeps sap.commands_keep sap.subscribe_keeps event_list_length)
    (auto intro: sap.commands_keep split: prod.split)

lemma event_run_keeps: "keeps T sap_ok (sap_event_run dv n ev)"
proof (cases ev)
  case (Mihf_datagram buff)
  then show ?thesis
    by (auto simp: sap_receive_def split: option.split sum.split intro!: keeps_intros default_handler_keeps)
qed (auto intro!: keeps_intros sap.dispatch_keeps sap.task_keeps sap.check_keeps sap.complete_keeps simp: report_task_update_def check_task_ok)

lemma sap_reachable_ok:
  assumes "sap_reachable dv s"
  shows "sap_ok s"
  using assms
proof induction
  case (sap_starts link_id mihf th_period sched wired resolv name ident d s)
  have new: "sap_ok (sap_new link_id mihf th_period sched wired resolv name ident d)"
    by (simp add: sap_new_def sap_ok_def bm_get_new) (simp add: bm_new_def)
  have main: "keeps (\<lambda>_. True) sap_ok (sap_main dv)"
    unfolding sap_main_def mihf_sap_init_def
    by (auto intro!: keeps_intros sap.send_keeps sap.on_dev_keeps split: option.split)
  show ?case by (rule keeps_Inr [OF main new sap_starts])
next
  case (sap_event s n ev s')
  show ?case by (rule keeps_Inr [OF event_run_keeps sap_event.IH sap_event.hyps(2)])
qed simp

section \<open>A round of the threshold loop\<close>

lemma thresholds_loop_end: "length (th_cross_list s) \<le> i \<Longrightarrow> thresholds_loop dv (Suc n) i rl s = (Inr rl, s)"
  by simp

lemma thresholds_loop_round:
  assumes "i < length (th_cross_list s)" "th_cross_list s ! i = c" "link_get_parameter dv (tc_type c) s = (r, s1)"
  shows "thresholds_loop dv (Suc n) i rl s = (case r of
      Inl e \<Rightarrow> (Inl e, s1)
    | Inr None \<Rightarrow> thresholds_loop dv n i rl s1
    | Inr (Some sp) \<Rightarrow> (case get_val (lpa_value sp) of
        Inl e \<Rightarrow> (Inl e, s1)
      | Inr v \<Rightarrow> let rl' = rl @ [\<lparr>lpr_param = \<lparr>lpa_type = tc_type c, lpa_value = lpa_value sp\<rparr>, lpr_thold = Some (tc_th c)\<rparr>] in
          if \<not> crosses (tc_th c) v then thresholds_loop dv n (Suc i) rl s1
          else if tc_one_shot c then thresholds_loop dv n i rl'
            (s1\<lparr>th_cross_list := take i (th_cross_list s) @ drop (Suc i) (th_cross_list s)\<rparr>)
          else thresholds_loop dv n (Suc i) rl' s1))"
  using assms by (auto simp: bnd_def Let_def split: sum.split option.split)

declare thresholds_loop.simps(2) [simp del]

section \<open>The threshold check ends\<close>

text \<open>The operations of the device are not the bounded loops of the model.\<close>

definition device_sound :: "'d device \<Rightarrow> bool" where
  "device_sound dv \<longleftrightarrow> throws (\<lambda>e. e \<noteq> out_of_fuel) (dv_link_tuple_id dv) \<and> throws (\<lambda>e. e \<noteq> out_of_fuel) (dv_get_poa_info dv)
     \<and> (\<forall>a. throws (\<lambda>e. e \<noteq> out_of_fuel) (dv_get_current_data_rate dv a))
     \<and> throws (\<lambda>e. e \<noteq> out_of_fuel) (dv_get_packet_error_rate dv)"

lemma throws_on_dev: "throws T m \<Longrightarrow> throws T (on_dev m)"
  by (auto simp: throws_def on_dev_def split: prod.splits)

lemma get_parameter_throws: "device_sound dv \<Longrightarrow> throws (\<lambda>e. e \<noteq> out_of_fuel) (link_get_parameter dv pt)"
  unfolding link_get_parameter_def Let_def device_sound_def
  by (intro throws_intros throws_on_dev) (auto split: link_param_type.split option.split link_addr.split intro!: throws_intros throws_on_dev)

lemma supported_is_read: "link_parameter_supported pt \<Longrightarrow> link_get_parameter dv pt s = (Inr r, s') \<Longrightarrow> r \<noteq> None"
  by (auto simp: link_parameter_supported_def link_get_parameter_def Let_def bnd_eq_Inr
      split: link_param_type.splits if_splits option.splits link_addr.splits)

lemma get_val_sound [simp]: "get_val v \<noteq> Inl out_of_fuel"
  by (simp add: get_val_def split: link_param_value.split)

lemma thresholds_loop_ends:
  assumes "device_sound dv" "list_all (\<lambda>c. link_parameter_supported (tc_type c)) (th_cross_list s)"
    "length (th_cross_list s) - i < n"
  shows "fst (thresholds_loop dv n i rl s) \<noteq> Inl out_of_fuel"
  using assms(2,3)
proof (induction n arbitrary: i rl s)
  case 0
  then show ?case by simp
next
  case (Suc n)
  show ?case
  proof (cases "i < length (th_cross_list s)")
    case True
    let ?c = "th_cross_list s ! i"
    obtain r d where g: "link_get_parameter dv (tc_type ?c) s = (r, s\<lparr>dev := d\<rparr>)"
      by (rule only_devE [OF get_parameter_only_dev])
    have sup: "link_parameter_supported (tc_type ?c)" using Suc.prems(1) True by (simp add: list_all_length)
    have r: "r \<noteq> Inl out_of_fuel" "r \<noteq> Inr None"
      using throwsD [OF get_parameter_throws [OF assms(1)]] supported_is_read [OF sup] g by blast+
    have IH: "fst (thresholds_loop dv n j rl' s') \<noteq> Inl out_of_fuel"
      if "set (th_cross_list s') \<subseteq> set (th_cross_list s)" "length (th_cross_list s') - j < length (th_cross_list s) - i" for s' j rl'
      using Suc.prems that by (intro Suc.IH) (auto simp: list_all_iff)
    have erased: "set (take i (th_cross_list s) @ drop (Suc i) (th_cross_list s)) \<subseteq> set (th_cross_list s)"
      by (auto dest: in_set_takeD in_set_dropD)
    have stay: "fst (thresholds_loop dv n (Suc i) rl' (s\<lparr>dev := d\<rparr>)) \<noteq> Inl out_of_fuel" for rl'
      using True by (intro IH) auto
    have gone: "fst (thresholds_loop dv n i rl' (s\<lparr>dev := d, th_cross_list := take i (th_cross_list s) @ drop (Suc i) (th_cross_list s)\<rparr>))
        \<noteq> Inl out_of_fuel" for rl'
      using True erased by (intro IH) auto
    show ?thesis
      using r by (auto simp: thresholds_loop_round [OF True refl g] Let_def stay gone split: sum.split option.split)
  qed (simp add: thresholds_loop_end)
qed

lemma thresholds_loop_more:
  assumes "fst (thresholds_loop dv n i rl s) \<noteq> Inl out_of_fuel"
  shows "thresholds_loop dv (Suc n) i rl s = thresholds_loop dv n i rl s"
  using assms
proof (induction n arbitrary: i rl s)
  case 0
  then show ?case by simp
next
  case (Suc n)
  show ?case
  proof (cases "i < length (th_cross_list s)")
    case True
    obtain r d where g: "link_get_parameter dv (tc_type (th_cross_list s ! i)) s = (r, s\<lparr>dev := d\<rparr>)"
      by (rule only_devE [OF get_parameter_only_dev])
    show ?thesis
      using Suc.prems unfolding thresholds_loop_round [OF True refl g]
      by (auto simp: Suc.IH Let_def split: sum.splits option.splits)
  qed (simp add: thresholds_loop_end)
qed

lemma thresholds_loop_bound:
  assumes "fst (thresholds_loop dv n i rl s) \<noteq> Inl out_of_fuel"
  shows "thresholds_loop dv (n + k) i rl s = thresholds_loop dv n i rl s"
  using assms by (induction k) (simp_all add: thresholds_loop_more)

text \<open>
  C6: The check of the thresholds ends in every state the SAP reaches, whatever the device
  answers: a round of its loop that does not advance needs a threshold on a parameter that cannot
  be read, and such a threshold is never accepted. As many rounds as there are thresholds are
  enough, and a larger bound changes nothing. Only events the SAP supports are subscribed.
\<close>

theorem threshold_check_ends:
  assumes "sap_reachable dv s" "device_sound dv"
  shows "fst (thresholds_loop dv (Suc (length (th_cross_list s))) 0 [] s) \<noteq> Inl out_of_fuel
    \<and> thresholds_loop dv (Suc (length (th_cross_list s)) + k) 0 [] s = thresholds_loop dv (Suc (length (th_cross_list s))) 0 [] s
    \<and> list_all (\<lambda>ev. bm_get (subscribed_event_list s) ev = (bm_get (subscribed_event_list s) ev \<and> ev \<in> {0, 1, 2, 3, 4, 8})) [0..<32]"
proof -
  have ok: "sap_ok s" by (rule sap_reachable_ok [OF assms(1)])
  then have "fst (thresholds_loop dv (Suc (length (th_cross_list s))) 0 [] s) \<noteq> Inl out_of_fuel"
    using assms(2) by (intro thresholds_loop_ends) (simp_all add: sap_ok_def)
  with ok show ?thesis
    using thresholds_loop_bound [where n = "Suc (length (th_cross_list s))"] by (auto simp: sap_ok_def list_all_iff)
qed

section \<open>What the threshold check reports\<close>

definition crossed :: "(link_param_type \<Rightarrow> u16) \<Rightarrow> threshold_cross_data \<Rightarrow> bool" where
  "crossed val c \<longleftrightarrow> threshold_x_dir (tc_th c) = 0 \<and> unat (threshold_val (tc_th c)) < unat (val (tc_type c))
     \<or> threshold_x_dir (tc_th c) = 1 \<and> unat (val (tc_type c)) < unat (threshold_val (tc_th c))"

lemma crosses_crossed: "crosses (tc_th c) (val (tc_type c)) = crossed val c"
  by (auto simp: crossed_def crosses_def word_less_nat_alt)

definition report_of :: "(link_param_type \<Rightarrow> u16) \<Rightarrow> threshold_cross_data \<Rightarrow> link_param_report" where
  "report_of val c = \<lparr>lpr_param = \<lparr>lpa_type = tc_type c, lpa_value = Lpv_val (val (tc_type c))\<rparr>, lpr_thold = Some (tc_th c)\<rparr>"

text \<open>A device in the state \<open>d\<close> that answers \<open>val\<close> and does not change.\<close>

definition steady :: "'d device \<Rightarrow> 'd \<Rightarrow> (link_param_type \<Rightarrow> u16) \<Rightarrow> bool" where
  "steady dv d val \<longleftrightarrow> (\<forall>s pt. dev s = d \<longrightarrow> link_parameter_supported pt
     \<longrightarrow> link_get_parameter dv pt s = (Inr (Some \<lparr>lpa_type = pt, lpa_value = Lpv_val (val pt)\<rparr>), s))"

lemma thresholds_loop_result:
  assumes "steady dv (dev s) val" "list_all (\<lambda>c. link_parameter_supported (tc_type c)) ths"
    "th_cross_list s = pre @ ths" "length ths < n"
  shows "thresholds_loop dv n (length pre) rl s = (Inr (rl @ map (report_of val) (filter (crossed val) ths)),
    s\<lparr>th_cross_list := pre @ filter (\<lambda>c. \<not> (tc_one_shot c \<and> crossed val c)) ths\<rparr>)"
  using assms
proof (induction ths arbitrary: s pre n rl)
  case Nil
  then obtain k where "n = Suc k" by (cases n) auto
  with Nil show ?case by (simp add: thresholds_loop_end)
next
  case (Cons c ths)
  then obtain k where k: "n = Suc k" by (cases n) auto
  have g: "link_get_parameter dv (tc_type c) s = (Inr (Some \<lparr>lpa_type = tc_type c, lpa_value = Lpv_val (val (tc_type c))\<rparr>), s)"
    using Cons.prems(1,2) by (simp add: steady_def)
  have stay: "thresholds_loop dv k (Suc (length pre)) rl' s = (Inr (rl' @ map (report_of val) (filter (crossed val) ths)),
    s\<lparr>th_cross_list := (pre @ [c]) @ filter (\<lambda>c. \<not> (tc_one_shot c \<and> crossed val c)) ths\<rparr>)" for rl'
    using Cons.IH [of s "pre @ [c]" k rl'] Cons.prems k by simp
  have gone: "thresholds_loop dv k (length pre) rl' (s\<lparr>th_cross_list := pre @ ths\<rparr>)
    = (Inr (rl' @ map (report_of val) (filter (crossed val) ths)),
       s\<lparr>th_cross_list := pre @ filter (\<lambda>c. \<not> (tc_one_shot c \<and> crossed val c)) ths\<rparr>)" for rl'
    using Cons.IH [of "s\<lparr>th_cross_list := pre @ ths\<rparr>" pre k rl'] Cons.prems k by simp
  show ?case
    using crosses_crossed [of c val] report_of_def [of val c]
    by (simp add: k Cons.prems(3) thresholds_loop_round [OF _ _ g] get_val_def stay gone Let_def)
qed

text \<open>
  C7: A check of the thresholds, when the MIHF is subscribed to parameter reports and the device
  gives all its values, reports exactly the thresholds the current values cross, in the order they
  were configured and in one message, and takes those of them that were configured for one report
  off the list. A value crosses a threshold with direction 0 when it is above it and one with
  direction 1 when it is below it, both as unsigned 16-bit numbers.
\<close>

theorem threshold_check_reports:
  assumes "sap_ok s" "steady dv (dev s) val" "dv_link_tuple_id dv (dev s) = (Inr lid, dev s)"
    and "bm_get (subscribed_event_list s) 3" "length (th_cross_list s) < n"
  shows "global_thresholds_check dv n s =
    (let left = s\<lparr>th_cross_list := filter (\<lambda>c. \<not> (tc_one_shot c \<and> crossed val c)) (th_cross_list s)\<rparr>;
         reports = map (report_of val) (filter (crossed val) (th_cross_list s)) in
     if reports = [] then (Inr (), left)
     else try_catch (dispatch_link_parameters_report lid reports) catchable (ret ()) left)"
proof -
  have l: "on_dev (dv_link_tuple_id dv) s = (Inr lid, s)"
    using assms(3) by (simp add: on_dev_def)
  have "thresholds_loop dv n 0 [] s = (Inr (map (report_of val) (filter (crossed val) (th_cross_list s))),
      s\<lparr>th_cross_list := filter (\<lambda>c. \<not> (tc_one_shot c \<and> crossed val c)) (th_cross_list s)\<rparr>)"
    using thresholds_loop_result [where pre = "[]" and rl = "[]", OF assms(2) _ _ assms(5)] assms(1) by (simp add: sap_ok_def)
  with l assms(4) show ?thesis
    by (simp add: global_thresholds_check_def subscribed_to_def Let_def try_catch_def)
qed

section \<open>Messages that are sent\<close>

definition writes :: "(oarchive, unit) eff \<Rightarrow> u8 list \<Rightarrow> bool" where
  "writes m bs \<longleftrightarrow> (\<forall>ar. o_at_end ar (length bs) \<longrightarrow> m ar = (Inr (), o_put bs ar))"

named_theorems writes_intros \<open>the octets an operation writes\<close>

lemma writes_wr [writes_intros]: "codec_law (snd t) \<Longrightarrow> wf (mand t) x \<Longrightarrow> writes (wr t x) (enc (mand t) x)"
  using codec_law.put_at [OF codec_law1.axioms(1) [OF tlv_law1], of "snd t" "fst t" x]
  by (simp add: writes_def wr_def mand_def)

definition opt_wf :: "'a tlv_name \<Rightarrow> 'a option \<Rightarrow> bool" where
  "opt_wf t v \<longleftrightarrow> (case v of None \<Rightarrow> True | Some x \<Rightarrow> wf (mand t) x)"

lemma writes_wr_opt [writes_intros]: "codec_law (snd t) \<Longrightarrow> opt_wf t v \<Longrightarrow> writes (wr_opt t v) (enc (opti t) v)"
  by (cases v) (simp_all add: writes_def wr_opt_def opti_def mand_def opt_wf_def tlv_opt_put_at tlv_opt_codec_def tlv_codec_def base_tlv_u8_at)

lemma writes_seq [writes_intros]: "writes a xs \<Longrightarrow> writes b ys \<Longrightarrow> writes (seq a b) (xs @ ys)"
  by (simp add: writes_def o_at_end_put o_at_end_mono)

definition sap_message :: "'d sap \<Rightarrow> u16 \<Rightarrow> u16 \<Rightarrow> u8 list \<Rightarrow> meta_message" where
  "sap_message s tid mid bs = meta_message_new\<lparr>m_tid := tid, m_mid := mid, m_src := l_link_id (ls s), m_dst := l_mihf_id (ls s),
     m_payload := \<lparr>a_buf = bs, a_pos = length bs\<rparr>\<rparr>"

lemma sap_send_sent:
  assumes "writes tlvs bs" "message_ok (sap_message s tid mid bs)"
  shows "sap_send tid mid tlvs s
    = (Inr (), s\<lparr>ls := (ls s)\<lparr>l_sent := l_sent (ls s) @ [(frame_bytes (sap_message s tid mid bs), None)]\<rparr>\<rparr>)"
proof -
  have "tlvs \<lparr>o_buf = [], o_pos = 0, o_begin = 0\<rparr> = (Inr (), o_put bs \<lparr>o_buf = [], o_pos = 0, o_begin = 0\<rparr>)"
    using assms by (auto simp: writes_def o_at_end_def message_ok_def sap_message_def)
  then show ?thesis
    using get_frame_bytes [OF assms(2)]
    by (simp add: sap_send_def msg_write_def Let_def archive_clear_def oarchive_of_def meta_message_new_def archive_new_def
        link_async_send_def sap_message_def)
qed

section \<open>What a configuration of thresholds does\<close>

definition cancels :: "link_cfg_param \<Rightarrow> threshold_cross_data \<Rightarrow> bool" where
  "cancels p c \<longleftrightarrow> tc_type c = lcp_type p \<and> (lcp_threshold_list p = [] \<or> tc_th c \<in> set (lcp_threshold_list p))"

definition cfg_thresholds :: "link_cfg_param \<Rightarrow> threshold_cross_data list \<Rightarrow> threshold_cross_data list" where
  "cfg_thresholds p cs =
     (if \<not> link_parameter_supported (lcp_type p) then cs
      else if lcp_action p = 2 then filter (\<lambda>c. \<not> cancels p c) cs
      else if lcp_timer_interval p \<noteq> None then cs
      else cs @ map (\<lambda>th. \<lparr>tc_one_shot = (lcp_action p = 1), tc_type = lcp_type p, tc_th = th\<rparr>) (lcp_threshold_list p))"

definition cfg_reports :: "link_cfg_param \<Rightarrow> periodic_report_data list \<Rightarrow> periodic_report_data list" where
  "cfg_reports p rs =
     (if \<not> link_parameter_supported (lcp_type p) then rs
      else if lcp_action p = 2 then if lcp_threshold_list p = [] then filter (\<lambda>r. pr_type r \<noteq> lcp_type p) rs else rs
      else case lcp_timer_interval p of
        None \<Rightarrow> rs
      | Some t \<Rightarrow> rs @ [\<lparr>pr_task = \<lparr>tt_running = True, tt_armed = True, tt_period = ucast t\<rparr>, pr_type = lcp_type p\<rparr>])"

lemma same_threshold_iff: "same_threshold t th c \<longleftrightarrow> tc_type c = t \<and> tc_th c = th"
  by (auto simp: same_threshold_def)

lemma cancel_each: "for_each (\<lambda>th. upd (\<lambda>s. s\<lparr>th_cross_list := filter (\<lambda>c. \<not> same_threshold t th c) (th_cross_list s)\<rparr>)) ths s
    = (Inr (), s\<lparr>th_cross_list := filter (\<lambda>c. \<not> (tc_type c = t \<and> tc_th c \<in> set ths)) (th_cross_list s)\<rparr>)"
  by (induction ths arbitrary: s) (simp_all add: same_threshold_iff imp_conjR)

lemma insert_each: "for_each (\<lambda>th. upd (\<lambda>s. s\<lparr>th_cross_list := th_cross_list s @ [f th]\<rparr>)) ths s
    = (Inr (), s\<lparr>th_cross_list := th_cross_list s @ map f ths\<rparr>)"
  by (induction ths arbitrary: s) auto

lemma configure_param_result: "\<exists>sts. configure_param dv p s
    = (Inr sts, s\<lparr>th_cross_list := cfg_thresholds p (th_cross_list s), period_rpt_list := cfg_reports p (period_rpt_list s)\<rparr>)"
  by (cases "lcp_timer_interval p")
    (auto simp: configure_param_def Let_def cancel_each insert_each cfg_thresholds_def cfg_reports_def cancels_def
      task_start_def timer_task_new_def)

lemma configure_params_result: "\<exists>sts. configure_params dv ps s
    = (Inr sts, s\<lparr>th_cross_list := fold cfg_thresholds ps (th_cross_list s), period_rpt_list := fold cfg_reports ps (period_rpt_list s)\<rparr>)"
proof (induction ps arbitrary: s)
  case Nil
  then show ?case by simp
next
  case (Cons p ps)
  obtain sts where 1: "configure_param dv p s = (Inr sts, s\<lparr>th_cross_list := cfg_thresholds p (th_cross_list s),
      period_rpt_list := cfg_reports p (period_rpt_list s)\<rparr>)" (is "_ = (_, ?s)")
    using configure_param_result by blast
  from Cons [of ?s] 1 show ?case by auto
qed

lemma sap_send_socket: "\<exists>l. snd (sap_send tid mid tlvs s) = s\<lparr>ls := l\<rparr>"
proof -
  have "\<exists>l. s = s\<lparr>ls := l\<rparr>" by (rule exI [of _ "ls s"]) simp
  then show ?thesis by (auto simp: sap_send_def split: prod.split sum.split)
qed

text \<open>
  C8: A request to configure thresholds goes through its parameters in their order: one that
  cannot be read changes nothing, a cancellation removes the listed thresholds of the parameter,
  or all of them and the periodic reports when it lists none, a timer interval adds a running
  periodic report and any other request adds the listed thresholds. Afterwards the check runs
  exactly if there is a threshold, and nothing else has changed but the socket.
\<close>

theorem configure_thresholds_correct:
  "\<exists>l t. snd (handle_link_configure_thresholds dv tid ps s) = s\<lparr>
      th_cross_list := fold cfg_thresholds ps (th_cross_list s),
      period_rpt_list := fold cfg_reports ps (period_rpt_list s), threshold_check_task := t, ls := l\<rparr>
    \<and> tt_running t = (fold cfg_thresholds ps (th_cross_list s) \<noteq> [])
    \<and> tt_period t = tt_period (threshold_check_task s)"
proof -
  obtain sts where c: "configure_params dv ps s = (Inr sts, s\<lparr>th_cross_list := fold cfg_thresholds ps (th_cross_list s),
      period_rpt_list := fold cfg_reports ps (period_rpt_list s)\<rparr>)" (is "_ = (_, ?s)")
    using configure_params_result by blast
  define t where "t = (let t = threshold_check_task s in
    if fold cfg_thresholds ps (th_cross_list s) \<noteq> [] \<and> \<not> tt_running t then task_start t
    else if fold cfg_thresholds ps (th_cross_list s) = [] \<and> tt_running t then task_stop t else t)"
  obtain l where "snd (handle_link_configure_thresholds dv tid ps s) = ?s\<lparr>threshold_check_task := t, ls := l\<rparr>"
    using sap_send_socket [where s = "?s\<lparr>threshold_check_task := t\<rparr>" and tid = tid
        and mid = "confirm Link_configure_thresholds"
        and tlvs = "seq (wr tlv_status status_success) (wr tlv_link_cfg_status_list sts)"]
    by (auto simp: handle_link_configure_thresholds_def c t_def Let_def split: if_splits)
  moreover have "tt_running t = (fold cfg_thresholds ps (th_cross_list s) \<noteq> [])" "tt_period t = tt_period (threshold_check_task s)"
    by (auto simp: t_def Let_def task_start_def task_stop_def)
  ultimately show ?thesis by auto
qed

section \<open>A device\<close>

text \<open>An access point with a signal of 40 percent that is always there.\<close>

definition near_poa :: poa_info where
  "near_poa = \<lparr>ldi_id = \<lparr>lid_type = 19, lid_addr = Other_l2_addr ''ab'', poa_addr = Some (Mac_addr mac_addr_new)\<rparr>, ldi_network_id = ''net'',
     ldi_net_aux_id = [], ldi_signal = Sig_percentage 40, ldi_sinr = 0, ldi_data_rate = 54, ldi_mih_capabilities = bm_new 8,
     ldi_net_capabilities = bm_new 32, poa_channel_id = 6\<rparr>"

definition near_device :: "unit device" where
  "near_device = \<lparr>dv_link_tuple_id = ret (ldi_id near_poa), dv_link_up = ret True, dv_get_poa_info = ret near_poa,
     dv_get_current_data_rate = (\<lambda>_. ret 54), dv_get_packet_error_rate = ret 0, dv_get_op_mode = ret 0,
     dv_set_op_mode = (\<lambda>_. ret ()), dv_trigger_scan = (\<lambda>_. ret ()), dv_get_scan_results = ret [],
     dv_clear_addresses = ret (), dv_clear_routes = ret (), dv_add_addresses = (\<lambda>_. ret ()), dv_add_routes = (\<lambda>_. ret ()),
     dv_disconnect = ret (), dv_add_network = (\<lambda>_. ret []), dv_select_network = (\<lambda>_. ret ()), dv_system = (\<lambda>_. ret 0),
     dv_lexical_int = (\<lambda>_. None), dv_op_mode_state = Op_mode, dv_threshold = \<lparr>threshold_val = 0, threshold_x_dir = 0\<rparr>\<rparr>"

definition near_value :: "link_param_type \<Rightarrow> u16" where
  "near_value pt = (case pt of Lp_gen p \<Rightarrow> if p = 0 then 54 else if p = 1 then 40 else 0 | _ \<Rightarrow> 40)"

definition near_sap :: "unit sap" where
  "near_sap = sap_new ''link1'' ''local-mihf'' 1000 0 False [] ''wlan0'' (ldi_id near_poa) ()"

lemma near_steady: "steady near_device () near_value"
  by (auto simp: steady_def near_device_def near_poa_def near_value_def link_get_parameter_def link_parameter_supported_def
      on_dev_def signal_value_def Let_def split: link_param_type.splits)

lemma near_sound: "device_sound near_device"
  by (auto simp: device_sound_def near_device_def intro!: throws_intros)

lemma near_starts: "\<exists>l. sap_main near_device near_sap = (Inr True, near_sap\<lparr>ls := l\<rparr>)"
proof -
  have w: "writes (wr tlv_interface_type_addr (link_id.truncate (ldi_id near_poa)))
      (enc (mand tlv_interface_type_addr) (link_id.truncate (ldi_id near_poa)))"
  proof (rule writes_wr)
    show "codec_law (snd tlv_interface_type_addr)"
      by (simp add: tlv_interface_type_addr_def link_id_laws1 [THEN codec_law_of1])
  qed (simp add: tlv_interface_type_addr_def near_poa_def link_id.truncate_def mand_def wire_defs link_id_codec_def link_addr_codec_def)
  have "message_ok (sap_message near_sap 0 (indication Link_register) (enc (mand tlv_interface_type_addr) (link_id.truncate (ldi_id near_poa))))"
    by (simp add: sap_message_def near_sap_def sap_new_def link_new_def near_poa_def link_id.truncate_def mand_def wire_defs
        tlv_interface_type_addr_def link_id_codec_def link_addr_codec_def message_ok_def header_ok_def meta_message_new_def
        enc_ids_def id_codec_def)
  from sap_send_sent [OF w this] show ?thesis
    by (simp add: sap_main_def mihf_sap_init_def near_sap_def sap_new_def timer_task_new_def)
qed

theorem threshold_check_ends_witness:
  "\<exists>s. sap_reachable near_device s \<and> fst (thresholds_loop near_device (Suc (length (th_cross_list s))) 0 [] s) \<noteq> Inl out_of_fuel"
proof -
  obtain l where "sap_main near_device near_sap = (Inr True, near_sap\<lparr>ls := l\<rparr>)" using near_starts by blast
  then have r: "sap_reachable near_device (near_sap\<lparr>ls := l\<rparr>)" unfolding near_sap_def by (rule sap_starts)
  from threshold_check_ends [OF r near_sound, of 0] r show ?thesis by blast
qed

definition watching :: "unit sap" where
  "watching = near_sap\<lparr>subscribed_event_list := supported_events, th_cross_list :=
     [\<lparr>tc_one_shot = True, tc_type = Lp_gen 1, tc_th = \<lparr>threshold_val = 50, threshold_x_dir = 1\<rparr>\<rparr>,
      \<lparr>tc_one_shot = False, tc_type = Lp_gen 0, tc_th = \<lparr>threshold_val = 50, threshold_x_dir = 1\<rparr>\<rparr>]\<rparr>"

theorem threshold_check_reports_witness:
  "global_thresholds_check near_device 3 watching =
    try_catch (dispatch_link_parameters_report (ldi_id near_poa)
      [\<lparr>lpr_param = \<lparr>lpa_type = Lp_gen 1, lpa_value = Lpv_val 40\<rparr>, lpr_thold = Some \<lparr>threshold_val = 50, threshold_x_dir = 1\<rparr>\<rparr>])
      catchable (ret ())
      (watching\<lparr>th_cross_list := [\<lparr>tc_one_shot = False, tc_type = Lp_gen 0, tc_th = \<lparr>threshold_val = 50, threshold_x_dir = 1\<rparr>\<rparr>]\<rparr>)"
proof -
  have ok: "sap_ok watching" "bm_get (subscribed_event_list watching) 3"
    by (simp_all add: watching_def near_sap_def sap_new_def sap_ok_def supported_events_bits link_parameter_supported_def)
  have "steady near_device (dev watching) near_value" using near_steady by simp
  from threshold_check_reports [OF ok(1) this _ ok(2), of "ldi_id near_poa" 3] show ?thesis
    by (simp add: watching_def near_device_def near_sap_def sap_new_def crossed_def crosses_def near_value_def report_of_def Let_def)
qed

end
