(* ===== verification/Mihf_Delivery.thy ===== *)
theory Mihf_Delivery
  imports Mihf_Daemon
begin

text \<open>
  How the parts of the daemon work together: the table of callbacks gives every message its own
  handler, an event indication of a Link SAP reaches the subscribed users and nobody else, the
  subscriptions are what was subscribed, and a datagram that holds only a header ends the daemon.
\<close>

section \<open>The table of callbacks\<close>

lemma register_lookup:
  assumes "(k, f) \<in> set rs" "\<forall>(k', f') \<in> set rs. k' = k \<longrightarrow> f' = f"
  shows "fold sac_register_callback rs m k = Some f"
  using assms
proof (induction rs arbitrary: m rule: rev_induct)
  case Nil
  then show ?case by simp
next
  case (snoc r rs)
  then show ?case by (cases r) (auto simp: sac_register_callback_def)
qed

lemma prim_id_inj: "fst (prim_id p) = fst (prim_id q) \<and> snd (prim_id p) = snd (prim_id q) \<longleftrightarrow> p = q"
  by (cases p; cases q; simp)

definition mid_parts :: "u16 \<Rightarrow> u16 \<times> u16 \<times> u16" where
  "mid_parts k = (drop_bit 12 k, drop_bit 10 (k AND 0xc00), k AND 0x3ff)"

lemma mid_parts_ids:
  "mid_parts (confirm p) = (fst (prim_id p), 0, snd (prim_id p))"
  "mid_parts (request p) = (fst (prim_id p), 1, snd (prim_id p))"
  "mid_parts (response p) = (fst (prim_id p), 2, snd (prim_id p))"
  "mid_parts (indication p) = (fst (prim_id p), 3, snd (prim_id p))"
  by (cases p; simp add: mid_parts_def msg_id_def confirm_def request_def response_def indication_def)+

lemma mid_eq:
  "confirm p = confirm q \<longleftrightarrow> p = q" "request p = request q \<longleftrightarrow> p = q"
  "response p = response q \<longleftrightarrow> p = q" "indication p = indication q \<longleftrightarrow> p = q"
  using mid_parts_ids [of p] mid_parts_ids [of q] prim_id_inj [of p q] by force+

lemma mid_parts_neq: "fst (snd (mid_parts a)) \<noteq> fst (snd (mid_parts b)) \<Longrightarrow> a \<noteq> b"
  by auto

lemma mid_neq:
  "confirm p \<noteq> request q" "confirm p \<noteq> response q" "confirm p \<noteq> indication q"
  "request p \<noteq> confirm q" "request p \<noteq> response q" "request p \<noteq> indication q"
  "response p \<noteq> confirm q" "response p \<noteq> request q" "response p \<noteq> indication q"
  "indication p \<noteq> confirm q" "indication p \<noteq> request q" "indication p \<noteq> response q"
  by (rule mid_parts_neq, simp add: mid_parts_ids)+

lemma registered_lookup:
  assumes "list_all (\<lambda>r. list_all (\<lambda>r'. fst r' = fst r \<longrightarrow> snd r' = snd r) rs) rs" "(k, f) \<in> set rs"
  shows "fold sac_register_callback rs m k = Some f"
proof (rule register_lookup [OF assms(2)], clarify)
  fix k' f'
  assume "(k, f') \<in> set rs"
  then show "f' = f" using assms unfolding list_all_iff by (metis fst_conv snd_conv)
qed

lemma callbacks_consistent:
  "list_all (\<lambda>r. list_all (\<lambda>r'. fst r' = fst r \<longrightarrow> snd r' = snd r) 
     (sm_register_callbacks pf h @ mies_register_callbacks pf h @ mics_register_callbacks pf h @ miis_register_callbacks pf h))
     (sm_register_callbacks pf h @ mies_register_callbacks pf h @ mics_register_callbacks pf h @ miis_register_callbacks pf h)"
  by (simp add: sm_register_callbacks_def mies_register_callbacks_def mics_register_callbacks_def
        miis_register_callbacks_def mid_eq mid_neq)

lemma callbacks_lookup:
  assumes "(k, f) \<in> set (sm_register_callbacks pf h @ mies_register_callbacks pf h @ mics_register_callbacks pf h
    @ miis_register_callbacks pf h)"
  shows "mihf_callbacks pf h k = Some f"
  unfolding mihf_callbacks_def by (rule registered_lookup [OF callbacks_consistent assms])

section \<open>Event indications\<close>

definition event_packets :: "platform \<Rightarrow> world \<Rightarrow> meta_message \<Rightarrow> event_registration_t \<Rightarrow> packet list" where
  "event_packets pf w c s = (case map_of (w_ubook w) (er_user s) of
     None \<Rightarrow> []
   | Some u \<Rightarrow> udp_packets pf \<lparr>pk_protocol = Udp, pk_ip = c_str (ue_ip u), pk_port = ue_port u, pk_src_port = w_lport w,
       pk_interface = None, pk_frame = frame_bytes (c\<lparr>m_src := n_mihfid w, m_dst := er_user s\<rparr>)\<rparr>)"

definition reachable_user :: "platform \<Rightarrow> world \<Rightarrow> meta_message \<Rightarrow> event_registration_t \<Rightarrow> bool" where
  "reachable_user pf w c s \<longleftrightarrow> (case map_of (w_ubook w) (er_user s) of
     None \<Rightarrow> False
   | Some u \<Rightarrow> pf_udp pf (c_str (ue_ip u)) (w_lport w) \<and> message_ok (c\<lparr>m_src := n_mihfid w, m_dst := er_user s\<rparr>))"

text \<open>The frame of a message depends neither on where it came from nor on the read position.\<close>

definition same_content :: "meta_message \<Rightarrow> meta_message \<Rightarrow> bool" where
  "same_content a b \<longleftrightarrow> m_version a = m_version b \<and> m_ackreq a = m_ackreq b \<and> m_ackrsp a = m_ackrsp b
     \<and> m_uir a = m_uir b \<and> m_m a = m_m b \<and> m_fn a = m_fn b \<and> m_mid a = m_mid b \<and> m_tid a = m_tid b
     \<and> a_buf (m_payload a) = a_buf (m_payload b)"

lemma same_content_frame:
  assumes "same_content a b"
  shows "frame_bytes (a\<lparr>m_src := x, m_dst := y\<rparr>) = frame_bytes (b\<lparr>m_src := x, m_dst := y\<rparr>)"
    "message_ok (a\<lparr>m_src := x, m_dst := y\<rparr>) = message_ok (b\<lparr>m_src := x, m_dst := y\<rparr>)"
    "msg_opcode a = msg_opcode b"
    "same_content (a\<lparr>m_dst := y\<rparr>) b"
  using assms
  by (auto simp: same_content_def frame_bytes_def enc_header_def message_ok_def header_ok_def msg_opcode_def)

lemma transmit_to_user:
  assumes "reachable_user pf w c s" "same_content (n_heap w p) c" "m_src (n_heap w p) = n_mihfid w"
    "m_dst (n_heap w p) = er_user s" "msg_opcode c = 3"
  shows "transmit pf h p w = (Inr (), w\<lparr>n_sent := n_sent w @ event_packets pf w c s\<rparr>)"
proof -
  have m: "n_heap w p = (n_heap w p)\<lparr>m_src := n_mihfid w, m_dst := er_user s\<rparr>"
    using assms(3,4) by simp
  have "get_frame (n_heap w p) = Inr (frame_bytes (c\<lparr>m_src := n_mihfid w, m_dst := er_user s\<rparr>))"
    using assms(1) same_content_frame(1,2) [OF assms(2), where x = "n_mihfid w" and y = "er_user s"]
    by (subst m, subst get_frame_bytes) (auto simp: reachable_user_def split: option.splits)
  then show ?thesis
    using assms same_content_frame(3) [OF assms(2)]
    by (auto simp: transmit_def try_catch_def bnd_def udp_send_result event_packets_def reachable_user_def ubook_get_def
        split: option.splits)
qed

lemma reachable_user_same:
  "reachable_user pf (w\<lparr>n_heap := hp\<rparr>) c s = reachable_user pf w c s"
  "reachable_user pf (w\<lparr>n_next := i\<rparr>) c s = reachable_user pf w c s"
  "reachable_user pf (w\<lparr>n_sent := pks\<rparr>) c s = reachable_user pf w c s"
  "reachable_user pf (w\<lparr>w_lbook := lb\<rparr>) c s = reachable_user pf w c s"
  by (simp_all add: reachable_user_def split: option.split)

lemma event_packets_same:
  "event_packets pf (w\<lparr>n_heap := hp\<rparr>) c = event_packets pf w c"
  "event_packets pf (w\<lparr>n_next := i\<rparr>) c = event_packets pf w c"
  "event_packets pf (w\<lparr>n_sent := pks\<rparr>) c = event_packets pf w c"
  "event_packets pf (w\<lparr>w_lbook := lb\<rparr>) c = event_packets pf w c"
  by (simp_all add: event_packets_def fun_eq_iff split: option.split)

lemmas user_same = reachable_user_same event_packets_same

lemma set_dst_run: "set_dst p d w = (Inr (), w\<lparr>n_heap := (n_heap w)(p := n_heap w p\<lparr>m_dst := d\<rparr>)\<rparr>)"
  by (simp add: set_dst_def msg_upd_def)

lemma forward_to_users:
  assumes "list_all (\<lambda>s. sel s \<longrightarrow> reachable_user pf w c s) subs" "same_content (n_heap w p) c"
    "m_src (n_heap w p) = n_mihfid w" "msg_opcode c = 3"
  shows "\<exists>m. for_each (\<lambda>s. on_cond (sel s) (seq (set_dst p (er_user s)) (transmit pf h p))) subs w
      = (Inr (), w\<lparr>n_heap := (n_heap w)(p := m), n_sent := n_sent w @ concat (map (event_packets pf w c) (filter sel subs))\<rparr>)"
  using assms
proof (induction subs arbitrary: w)
  case Nil
  show ?case by (rule exI [of _ "n_heap w p"]) simp
next
  case (Cons s subs)
  show ?case
  proof (cases "sel s")
    case False
    with Cons show ?thesis by simp
  next
    case True
    let ?w = "w\<lparr>n_heap := (n_heap w)(p := n_heap w p\<lparr>m_dst := er_user s\<rparr>)\<rparr>"
    let ?v = "?w\<lparr>n_sent := n_sent w @ event_packets pf w c s\<rparr>"
    let ?f = "\<lambda>s. on_cond (sel s) (seq (set_dst p (er_user s)) (transmit pf h p))"
    have r: "reachable_user pf ?w c s"
      using True Cons.prems(1) by (simp add: user_same)
    have "transmit pf h p ?w = (Inr (), ?v)"
      using transmit_to_user [OF r, of p h] Cons.prems(2-4)
      by (simp add: same_content_frame user_same)
    then have step: "?f s w = (Inr (), ?v)"
      using True by (simp add: set_dst_run)
    have "\<exists>m. for_each ?f subs ?v = (Inr (), ?v\<lparr>n_heap := (n_heap ?v)(p := m),
        n_sent := n_sent ?v @ concat (map (event_packets pf ?v c) (filter sel subs))\<rparr>)"
      using Cons.prems by (intro Cons.IH) (auto simp: user_same list_all_iff same_content_frame)
    then obtain m where "for_each ?f subs ?v = (Inr (), ?v\<lparr>n_heap := (n_heap ?v)(p := m),
        n_sent := n_sent ?v @ concat (map (event_packets pf ?v c) (filter sel subs))\<rparr>)" ..
    moreover have "for_each ?f (s # subs) w = for_each ?f subs ?v"
      unfolding for_each.simps using step by (rule seq_Inr)
    ultimately have "for_each ?f (s # subs) w = (Inr (), w\<lparr>n_heap := (n_heap w)(p := m),
        n_sent := n_sent w @ concat (map (event_packets pf w c) (filter sel (s # subs)))\<rparr>)"
      using True by (simp del: for_each.simps add: user_same)
    then show ?thesis ..
  qed
qed

lemma link_identifier_read:
  assumes "a_buf (m_payload (n_heap w p)) = enc (mand tlv_link_identifier) li @ rest" "wf (mand tlv_link_identifier) li"
    "length (a_buf (m_payload (n_heap w p))) < 2 ^ 16"
  shows "\<exists>pos. mih_read p 0 (rd tlv_link_identifier) w
    = (Inr li, w\<lparr>n_heap := (n_heap w)(p := n_heap w p\<lparr>m_payload := \<lparr>a_buf = a_buf (m_payload (n_heap w p)), a_pos = pos\<rparr>\<rparr>)\<rparr>)"
proof -
  have law: "codec_law (mand tlv_link_identifier)"
    unfolding mand_def tlv_link_identifier_def by (simp, intro codec_intros)
  let ?i = "iarchive_of (m_payload (n_heap w p)\<lparr>a_pos := 0\<rparr>)"
  have "get (mand tlv_link_identifier) v ?i = (Inr li, i_skip (length (enc (mand tlv_link_identifier) li)) ?i)" for v
    using assms by (intro codec_law.get_at [OF law, where rest = rest]) (auto simp: i_at_def iarchive_of_def)
  then show ?thesis
    by (intro exI [of _ "length (enc (mand tlv_link_identifier) li)"])
      (simp add: mih_read_def msg_do_def msg_read_def rd_def i_skip_def iarchive_of_def)
qed

definition subscribed :: "nat \<Rightarrow> link_tuple_id \<Rightarrow> event_registration_t \<Rightarrow> bool" where
  "subscribed ev li s \<longleftrightarrow> er_event s = ev \<and> link_tuple_id_eq (er_link s) li"

lemma msg_forward_users:
  assumes "list_all (\<lambda>s. subscribed ev li s \<longrightarrow> reachable_user pf w c s) (w_subscriptions w)"
    "same_content (n_heap w p) c" "mm_local (n_heap w p)" "msg_opcode c = 3"
  shows "\<exists>m. msg_forward pf h p li ev w = (Inr (), w\<lparr>n_heap := (n_heap w)(p := m),
    n_sent := n_sent w @ concat (map (event_packets pf w c) (filter (subscribed ev li) (w_subscriptions w)))\<rparr>)"
proof -
  let ?w = "w\<lparr>n_heap := (n_heap w)(p := n_heap w p\<lparr>m_src := n_mihfid w\<rparr>)\<rparr>"
  have s: "source_if_local p w = (Inr (), ?w)"
    using assms(3) by (simp add: source_if_local_def set_source_mihfid_def msg_upd_def)
  have sel: "(\<lambda>s. er_event s = ev \<and> link_tuple_id_eq (er_link s) li) = subscribed ev li"
    by (simp add: subscribed_def fun_eq_iff)
  obtain m where "for_each (\<lambda>s. on_cond (subscribed ev li s) (seq (set_dst p (er_user s)) (transmit pf h p))) (w_subscriptions w) ?w
      = (Inr (), ?w\<lparr>n_heap := (n_heap ?w)(p := m), n_sent := n_sent ?w
          @ concat (map (event_packets pf ?w c) (filter (subscribed ev li) (w_subscriptions w)))\<rparr>)"
    using forward_to_users [of "subscribed ev li" pf ?w c "w_subscriptions w" p h] assms
    by (auto simp: user_same same_content_def)
  with s show ?thesis
    unfolding msg_forward_def forward_to_def sel by (auto simp: user_same)
qed

definition link_events :: "(primitive \<times> nat) list" where
  "link_events = [(Link_up, 1), (Link_down, 2), (Link_parameters_report, 3), (Link_going_down, 4),
     (Link_conf_required, 8), (L3_conf_required, 9)]"

lemma link_event_callback:
  "(p, ev) \<in> set link_events \<Longrightarrow> mihf_callbacks pf h (indication p) = Some (link_indication ev pf h)"
  by (rule callbacks_lookup) (auto simp: link_events_def mies_register_callbacks_def link_up_indication_def
      link_down_indication_def link_parameters_report_indication_def link_going_down_indication_def
      link_conf_required_indication_def l3_conf_required_indication_def)

lemma indication_opcode: "m_mid c = indication p \<Longrightarrow> msg_opcode c = 3"
  using mid_parts_ids(4) [of p] by (simp add: mid_parts_def msg_opcode_def)

lemma link_indication_users:
  assumes "list_all (\<lambda>s. subscribed ev li s \<longrightarrow> reachable_user pf w c s) (w_subscriptions w)"
    "same_content (n_heap w p) c" "mm_local (n_heap w p)" "m_src (n_heap w p) = m_src c" "m_mid c = indication q"
    "message_ok c" "a_buf (m_payload c) = enc (mand tlv_link_identifier) li @ rest" "wf (mand tlv_link_identifier) li"
    "map_of (w_lbook w) (m_src c) = Some sap"
  shows "\<exists>m. link_indication ev pf h p out w = (Inr False,
    w\<lparr>w_lbook := map_store (m_src c) (sap\<lparr>le_fail := 0, le_status := True\<rparr>) (w_lbook w), n_heap := (n_heap w)(p := m),
    n_sent := n_sent w @ concat (map (event_packets pf w c) (filter (subscribed ev li) (w_subscriptions w)))\<rparr>)"
proof -
  let ?w = "w\<lparr>w_lbook := map_store (m_src c) (sap\<lparr>le_fail := 0, le_status := True\<rparr>) (w_lbook w)\<rparr>"
  have r: "reset_if_local p w = (Inr (), ?w)"
    using assms(3,4,9) by (simp add: reset_if_local_def on_lbook_def lbook_reset_def)
  have b: "a_buf (m_payload (n_heap ?w p)) = enc (mand tlv_link_identifier) li @ rest"
    using assms(2,7) by (simp add: same_content_def)
  have len: "length (a_buf (m_payload (n_heap ?w p))) < 2 ^ 16"
    using assms(2,6) by (simp add: same_content_def message_ok_def)
  obtain pos where rd: "mih_read p 0 (rd tlv_link_identifier) ?w = (Inr li, ?w\<lparr>n_heap := (n_heap ?w)(p := n_heap ?w p\<lparr>m_payload
      := \<lparr>a_buf = a_buf (m_payload (n_heap ?w p)), a_pos = pos\<rparr>\<rparr>)\<rparr>)" (is "_ = (Inr li, ?v)")
    using link_identifier_read [OF b assms(8) len] by blast
  have "\<exists>m. msg_forward pf h p li ev ?v = (Inr (), ?v\<lparr>n_heap := (n_heap ?v)(p := m),
    n_sent := n_sent ?v @ concat (map (event_packets pf ?v c) (filter (subscribed ev li) (w_subscriptions ?v)))\<rparr>)"
    using assms indication_opcode [OF assms(5)]
    by (intro msg_forward_users) (simp_all add: user_same same_content_def)
  with r rd show ?thesis
    by (auto simp: link_indication_def link_event_forward_def user_same)
qed

lemma sac_dispatch_run:
  assumes "cb (m_mid (n_heap w i)) = Some f"
    "f i (n_next w) (w\<lparr>n_next := Suc (n_next w), n_heap := (n_heap w)(n_next w := meta_message_new\<lparr>m_tid := m_tid (n_heap w i)\<rparr>)\<rparr>)
      = (Inr False, v)"
  shows "sac_dispatch pf h cb i w = (Inr (), v)"
proof -
  have "try_catch (bnd (f i (n_next w)) (\<lambda>b. on_cond b (transmit pf h (n_next w)))) sac_caught (ret ())
     (w\<lparr>n_next := Suc (n_next w), n_heap := (n_heap w)(n_next w := meta_message_new\<lparr>m_tid := m_tid (n_heap w i)\<rparr>)\<rparr>) = (Inr (), v)"
    by (subst try_catch_def, subst bnd_Inr, rule assms(2)) simp
  then show ?thesis
    using assms(1) by (simp add: sac_dispatch_def msg_new_def msg_upd_def)
qed

lemma link_event_runs:
  assumes "(p, ev) \<in> set link_events" "message_ok c" "m_mid c = indication p"
    and "a_buf (m_payload c) = enc (mand tlv_link_identifier) li @ rest" "wf (mand tlv_link_identifier) li"
    and "ip = ''127.0.0.1'' \<or> ip = ''::1''" "map_of (w_lbook w) (m_src c) = Some sap"
    and "list_all (\<lambda>s. subscribed ev li s \<longrightarrow> reachable_user pf w c s) (w_subscriptions w)"
  shows "\<exists>heap. mihf_event pf n multicast (Local_datagram ip scope port (frame_bytes c)) w
    = (Inr (), w\<lparr>n_next := n_next w + 2,
         w_lbook := map_store (m_src c) (sap\<lparr>le_fail := 0, le_status := True\<rparr>) (w_lbook w), n_heap := heap,
         n_sent := n_sent w @ concat (map (event_packets pf w c) (filter (subscribed ev li) (w_subscriptions w)))\<rparr>)
    \<and> (\<forall>q. q < n_next w \<longrightarrow> heap q = n_heap w q)"
proof -
  let ?m = "c\<lparr>m_payload := (m_payload c)\<lparr>a_pos := 0\<rparr>, mm_local := True, mm_ip := ip, mm_scope := scope, mm_port := port\<rparr>"
  let ?h = "mihf_handler pf n"
  let ?w = "w\<lparr>n_next := n_next w + 2,
    n_heap := (n_heap w)(n_next w := ?m, Suc (n_next w) := meta_message_new\<lparr>m_tid := m_tid c\<rparr>)\<rparr>"
  have "meta_message_of ip scope port (frame_bytes c) = Inr ?m"
    using assms(2,6) by (auto simp: meta_message_of_def message_of_frame_bytes)
  moreover have "\<exists>m. link_indication ev pf ?h (n_next w) (Suc (n_next w)) ?w = (Inr False,
    ?w\<lparr>w_lbook := map_store (m_src c) (sap\<lparr>le_fail := 0, le_status := True\<rparr>) (w_lbook ?w), n_heap := (n_heap ?w)(n_next w := m),
    n_sent := n_sent ?w @ concat (map (event_packets pf ?w c) (filter (subscribed ev li) (w_subscriptions ?w)))\<rparr>)"
    using assms by (intro link_indication_users) (auto simp: user_same same_content_def)
  then obtain m where "link_indication ev pf ?h (n_next w) (Suc (n_next w)) ?w = (Inr False,
    ?w\<lparr>w_lbook := map_store (m_src c) (sap\<lparr>le_fail := 0, le_status := True\<rparr>) (w_lbook ?w), n_heap := (n_heap ?w)(n_next w := m),
    n_sent := n_sent ?w @ concat (map (event_packets pf ?w c) (filter (subscribed ev li) (w_subscriptions ?w)))\<rparr>)"
    (is "_ = (_, ?v)") by blast
  then have "sac_dispatch pf ?h (mihf_callbacks pf ?h) (n_next w) (w\<lparr>n_heap := (n_heap w)(n_next w := ?m), n_next := Suc (n_next w)\<rparr>)
      = (Inr (), ?v)"
    using assms(3) link_event_callback [OF assms(1), of pf ?h]
    by (intro sac_dispatch_run [where f = "link_indication ev pf ?h"]) simp_all
  ultimately have "mihf_event pf n multicast (Local_datagram ip scope port (frame_bytes c)) w = (Inr (), ?v)"
    using frame_bytes_fields(4) [OF assms(2)]
    by (simp add: handle_receive_def msg_new_def)
  then show ?thesis by (auto simp: user_same)
qed

text \<open>
  C9: An event indication of a registered Link SAP that arrives on the local port (link up, link
  down, link parameters report, link going down, link configuration required or layer 3
  configuration required) is sent, with this MIHF as its source, to every user that is subscribed
  to this event of this link, in the order of the subscriptions, and to nobody else, provided every
  subscribed user is known and can be sent to. The SAP counts as alive again; of the message store
  only the two messages made for this event are new, and nothing else changes.
\<close>

theorem link_event_delivered:
  assumes "(p, ev) \<in> set link_events" "message_ok c" "m_mid c = indication p"
    and "a_buf (m_payload c) = enc (mand tlv_link_identifier) li @ rest" "wf (mand tlv_link_identifier) li"
    and "ip = ''127.0.0.1'' \<or> ip = ''::1''" "map_of (w_lbook w) (m_src c) = Some sap"
    and "list_all (\<lambda>s. subscribed ev li s \<longrightarrow> reachable_user pf w c s) (w_subscriptions w)"
  shows "\<exists>heap. mihf_event pf n multicast (Local_datagram ip scope port (frame_bytes c)) w
    = (Inr (), w\<lparr>n_next := n_next w + 2,
         w_lbook := map_store (m_src c) (sap\<lparr>le_fail := 0, le_status := True\<rparr>) (w_lbook w), n_heap := heap,
         n_sent := n_sent w @ concat (map (event_packets pf w c) (filter (subscribed ev li) (w_subscriptions w)))\<rparr>)
    \<and> (\<forall>q. q < n_next w \<longrightarrow> heap q = n_heap w q)"
  using assms by (rule link_event_runs)

definition wlan :: link_tuple_id where
  "wlan = \<lparr>lid_type = 19, lid_addr = Other_l2_addr ''ab'', poa_addr = None\<rparr>"

definition wlan_up :: meta_message where
  "wlan_up = meta_message_new\<lparr>m_mid := indication Link_up, m_src := ''link1'', m_dst := ''local-mihf'',
     m_payload := \<lparr>a_buf = enc (mand tlv_link_identifier) wlan, a_pos = 0\<rparr>\<rparr>"

definition one_user :: world where
  "one_user = (world_new ''mihf1'' 1 4551 1025 2 [] False []
      [(''link1'', \<lparr>le_ip = ''127.0.0.1'', le_port = 1235, le_link_id = \<lparr>lid_type = 19, lid_addr = Other_l2_addr ''ab''\<rparr>,
         le_event_list = bm_new 32, le_cmd_list = bm_new 32, le_fail = 2, le_status = False\<rparr>)]
      [(''user1'', \<lparr>ue_ip = ''127.0.0.1'', ue_port = 1234, ue_supp_cmd = None, ue_supp_iq = None\<rparr>)])
    \<lparr>w_subscriptions := [\<lparr>er_user = ''user1'', er_link = wlan, er_event = 1\<rparr>, \<lparr>er_user = ''peer'', er_link = wlan, er_event = 2\<rparr>]\<rparr>"

theorem link_event_delivered_witness:
  "\<exists>v. mihf_event all_up 0 False (Local_datagram ''127.0.0.1'' 0 1235 (frame_bytes wlan_up)) one_user = (Inr (), v)
     \<and> n_sent v = [\<lparr>pk_protocol = Udp, pk_ip = ''127.0.0.1'', pk_port = 1234, pk_src_port = 1025, pk_interface = None,
          pk_frame = frame_bytes (wlan_up\<lparr>m_src := ''mihf1'', m_dst := ''user1''\<rparr>)\<rparr>]
     \<and> map_option le_status (map_of (w_lbook v) ''link1'') = Some True"
proof -
  note defs = wire_defs link_tuple_id_codec_def link_addr_codec_def mand_def tlv_link_identifier_def
    message_ok_def header_ok_def enc_ids_def id_codec_def meta_message_new_def
  have ok: "message_ok wlan_up" "wf (mand tlv_link_identifier) wlan" "message_ok (wlan_up\<lparr>m_src := ''mihf1'', m_dst := ''user1''\<rparr>)"
    by (simp_all add: wlan_up_def wlan_def defs)
  have eq: "link_tuple_id_eq wlan wlan"
    by (simp add: wlan_def link_tuple_id_eq_def link_id_eq_def)
  show ?thesis
    using link_event_delivered [of Link_up 1 wlan_up wlan "[]" "''127.0.0.1''" one_user _ all_up 0 False 0 1235] ok eq
    by (auto simp: one_user_def world_new_def link_events_def wlan_up_def subscribed_def reachable_user_def
        event_packets_def udp_packets_def all_up_def c_str_def)
qed

section \<open>Reception of a bare header\<close>

text \<open>
  C14: A datagram of eight octets that is a header with payload length 0, sent by anybody to
  either port, ends the daemon: the identifiers are missing, and nothing between the reception
  and \<open>io.run()\<close> catches the exception.
\<close>

theorem header_only_terminates:
  "daemon_step multicast (Running w) (Remote_datagram ip scope port [a, b, c, d, e, f, 0, 0]) (Terminated iarchive_eof_error)
   \<and> daemon_step multicast (Running w) (Local_datagram ip scope port [a, b, c, d, e, f, 0, 0]) (Terminated iarchive_eof_error)"
proof -
  let ?b = "[a, b, c, d, e, f, 0, 0]"
  have none: "get (tlv_codec 1 id_codec) [] \<lparr>i_buf = [], i_pos = 0, i_begin = 0, i_length = 0\<rparr>
     = (Inl iarchive_eof_error, \<lparr>i_buf = [], i_pos = 0, i_begin = 0, i_length = 0\<rparr>)"
    by (simp add: tlv_codec_def bnd_def base_tlv_get_def u8_codec_def i_uint8_def i_take_def)
  have "handle_receive m g ip scope port ?b w = (Inl iarchive_eof_error, w)" for m g
    using none by (simp add: handle_receive_def frame_cast_def frame_length_def frame_plength_def meta_message_of_def
       message_of_frame_def Let_def id_tlvs_get_def)
  then show ?thesis
    by (auto intro!: daemon_step.terminates [where n = 0])
qed


section \<open>Subscriptions\<close>

definition has_subscription :: "event_registration_t list \<Rightarrow> mihf_id \<Rightarrow> link_tuple_id \<Rightarrow> nat \<Rightarrow> bool" where
  "has_subscription subs user link event \<longleftrightarrow>
     list_ex (\<lambda>s. er_user s = user \<and> link_tuple_id_eq (er_link s) link \<and> er_event s = event) subs"

lemma link_tuple_id_eq_iff: "link_tuple_id_eq l m \<longleftrightarrow> lid_type l = lid_type m \<and> lid_addr l = lid_addr m"
  by (auto simp: link_tuple_id_eq_def link_id_eq_def link_addr_eq_iff)

lemma subscribe_has:
  "has_subscription (fold (\<lambda>i subs. if bm_get events i
       then let reg = \<lparr>er_user = user, er_link = link, er_event = i\<rparr> in
         if list_ex (\<lambda>s. event_registration_eq s reg) subs then subs else subs @ [reg]
       else subs) is subs) u l e
   \<longleftrightarrow> has_subscription subs u l e \<or> u = user \<and> link_tuple_id_eq link l \<and> e \<in> set is \<and> bm_get events e"
proof (induction "is" arbitrary: subs)
  case Nil
  then show ?case by simp
next
  case (Cons i js)
  then show ?case
    by (auto simp: Let_def has_subscription_def list_ex_iff event_registration_eq_def link_tuple_id_eq_iff)
qed

text \<open>
  C13: Subscribing adds exactly the requested events of the link for the user, and unsubscribing
  removes exactly those: every other user, link and event is subscribed as before. Only the 32
  events of the list can be subscribed.
\<close>

theorem subscriptions_correct:
  "has_subscription (subscribe user link events subs) u l e
     = (has_subscription subs u l e \<or> u = user \<and> link_tuple_id_eq link l \<and> e < 32 \<and> bm_get events e)
   \<and> has_subscription (unsubscribe user link events subs) u l e
     = (has_subscription subs u l e \<and> (u, link_tuple_id_eq link l, bm_get events e) \<noteq> (user, True, True))"
  unfolding subscribe_def subscribe_has
  by (auto simp: unsubscribe_def has_subscription_def list_ex_iff link_tuple_id_eq_iff)

end
