(* ===== verification/Link_Sap_Delivery.thy ===== *)
theory Link_Sap_Delivery
  imports Link_Sap_Inv Mihf_Delivery
begin

text \<open>
  The Link SAP and the MIHF together: the indication the SAP sends when its device comes up is one
  the MIHF understands and passes on to the subscribed users.
\<close>

lemma link_up_laws:
  "codec_law (snd tlv_link_identifier)" "codec_law (snd tlv_old_access_router)" "codec_law (snd tlv_new_access_router)"
  "codec_law (snd tlv_ip_renewal_flag)" "codec_law (snd tlv_ip_mob_mgmt)"
  unfolding tlv_link_identifier_def tlv_old_access_router_def tlv_new_access_router_def tlv_ip_renewal_flag_def tlv_ip_mob_mgmt_def snd_conv
  by (intro codec_intros; simp)+

definition link_up_bytes :: "link_addr option \<Rightarrow> link_addr option \<Rightarrow> bool option \<Rightarrow> bitmap option \<Rightarrow> u8 list" where
  "link_up_bytes old_router new_router ip_renew mob = enc (opti tlv_old_access_router) old_router
     @ enc (opti tlv_new_access_router) new_router @ enc (opti tlv_ip_renewal_flag) ip_renew @ enc (opti tlv_ip_mob_mgmt) mob"

lemma dispatch_link_up_sends:
  assumes "bm_get (subscribed_event_list s) 1" "wf (mand tlv_link_identifier) lid"
    "opt_wf tlv_old_access_router old_router" "opt_wf tlv_new_access_router new_router"
    "opt_wf tlv_ip_renewal_flag ip_renew" "opt_wf tlv_ip_mob_mgmt mob"
    "message_ok c" "c = sap_message s 0 (indication Link_up)
      (enc (mand tlv_link_identifier) lid @ link_up_bytes old_router new_router ip_renew mob)"
  shows "\<exists>s'. dispatch_link_up lid old_router new_router ip_renew mob s = (Inr (), s')
    \<and> l_sent (ls s') = l_sent (ls s) @ [(frame_bytes c, None)]"
proof -
  let ?tlvs = "seq (wr tlv_link_identifier lid) (seq (wr_opt tlv_old_access_router old_router)
    (seq (wr_opt tlv_new_access_router new_router) (seq (wr_opt tlv_ip_renewal_flag ip_renew) (wr_opt tlv_ip_mob_mgmt mob))))"
  let ?bs = "enc (mand tlv_link_identifier) lid @ link_up_bytes old_router new_router ip_renew mob"
  have w: "writes ?tlvs ?bs"
    unfolding link_up_bytes_def by (intro writes_intros link_up_laws assms(2-6))
  have "\<exists>u. dispatch_link_up lid old_router new_router ip_renew mob s = subscribed_to 1 (sap_send 0 (indication Link_up) ?tlvs) u
      \<and> ls u = ls s \<and> subscribed_event_list u = subscribed_event_list s"
    by (auto simp: dispatch_link_up_def split: option.split intro!: exI conjI)
  then obtain u where u: "dispatch_link_up lid old_router new_router ip_renew mob s
      = subscribed_to 1 (sap_send 0 (indication Link_up) ?tlvs) u"
    "ls u = ls s" "subscribed_event_list u = subscribed_event_list s" by blast
  have c: "sap_message u 0 (indication Link_up) ?bs = c"
    using u(2) assms(8) by (simp add: sap_message_def)
  have "sap_send 0 (indication Link_up) ?tlvs u = (Inr (), u\<lparr>ls := (ls u)\<lparr>l_sent := l_sent (ls u) @ [(frame_bytes c, None)]\<rparr>\<rparr>)"
    using sap_send_sent [OF w, of u] assms(7) c by simp
  with u assms(1) show ?thesis by (simp add: subscribed_to_def)
qed

text \<open>
  C5: When the device of a Link SAP that is registered at the MIHF and subscribed to the event
  comes up, the SAP sends one datagram, and the MIHF that receives it sends the event to exactly
  the users that are subscribed to it for this link, and marks the SAP as alive.
\<close>

theorem link_up_reaches_users:
  assumes "bm_get (subscribed_event_list s) 1" "wf (mand tlv_link_identifier) lid"
    and "opt_wf tlv_old_access_router old_router" "opt_wf tlv_new_access_router new_router"
    and "opt_wf tlv_ip_renewal_flag ip_renew" "opt_wf tlv_ip_mob_mgmt mob"
    and "message_ok c" "c = sap_message s 0 (indication Link_up)
      (enc (mand tlv_link_identifier) lid @ link_up_bytes old_router new_router ip_renew mob)"
    and "ip = ''127.0.0.1'' \<or> ip = ''::1''" "map_of (w_lbook w) (l_link_id (ls s)) = Some entry"
    and "list_all (\<lambda>r. subscribed 1 lid r \<longrightarrow> reachable_user pf w c r) (w_subscriptions w)"
  shows "\<exists>s' fm w'. dispatch_link_up lid old_router new_router ip_renew mob s = (Inr (), s')
    \<and> l_sent (ls s') = l_sent (ls s) @ [(fm, None)]
    \<and> mihf_event pf n multicast (Local_datagram ip scope port fm) w = (Inr (), w')
    \<and> n_sent w' = n_sent w @ concat (map (event_packets pf w c) (filter (subscribed 1 lid) (w_subscriptions w)))
    \<and> w_lbook w' = map_store (l_link_id (ls s)) (entry\<lparr>le_fail := 0, le_status := True\<rparr>) (w_lbook w)"
proof -
  have src: "m_src c = l_link_id (ls s)" "m_mid c = indication Link_up"
    and pl: "a_buf (m_payload c) = enc (mand tlv_link_identifier) lid @ link_up_bytes old_router new_router ip_renew mob"
    by (simp_all add: assms(8) sap_message_def)
  have ev: "(Link_up, 1) \<in> set link_events" by (simp add: link_events_def)
  obtain heap where "mihf_event pf n multicast (Local_datagram ip scope port (frame_bytes c)) w
    = (Inr (), w\<lparr>n_next := n_next w + 2,
         w_lbook := map_store (m_src c) (entry\<lparr>le_fail := 0, le_status := True\<rparr>) (w_lbook w), n_heap := heap,
         n_sent := n_sent w @ concat (map (event_packets pf w c) (filter (subscribed 1 lid) (w_subscriptions w)))\<rparr>)"
    using link_event_runs [OF ev assms(7) src(2) pl assms(2) assms(9) _ assms(11)] assms(10) src(1) by metis
  moreover obtain s' where "dispatch_link_up lid old_router new_router ip_renew mob s = (Inr (), s')"
    "l_sent (ls s') = l_sent (ls s) @ [(frame_bytes c, None)]"
    using dispatch_link_up_sends [OF assms(1-8)] by blast
  ultimately show ?thesis using src(1) by auto
qed

theorem link_up_reaches_users_witness:
  "\<exists>s' fm w'. dispatch_link_up wlan None None None None watching = (Inr (), s') \<and> l_sent (ls s') = [(fm, None)]
    \<and> mihf_event all_up 0 False (Local_datagram ''127.0.0.1'' 0 1235 fm) one_user = (Inr (), w')
    \<and> map pk_port (n_sent w') = [1234]"
proof -
  let ?c = "sap_message watching 0 (indication Link_up) (enc (mand tlv_link_identifier) wlan @ link_up_bytes None None None None)"
  note defs = wire_defs link_tuple_id_codec_def link_addr_codec_def mand_def tlv_link_identifier_def
    message_ok_def header_ok_def enc_ids_def id_codec_def meta_message_new_def
  have c: "?c = meta_message_new\<lparr>m_mid := indication Link_up, m_src := ''link1'', m_dst := ''local-mihf'',
     m_payload := \<lparr>a_buf = enc (mand tlv_link_identifier) wlan, a_pos = length (enc (mand tlv_link_identifier) wlan)\<rparr>\<rparr>"
    by (simp add: sap_message_def watching_def near_sap_def sap_new_def link_new_def link_up_bytes_def opti_def tlv_opt_codec_def
        meta_message_new_def)
  have ok: "message_ok ?c" "wf (mand tlv_link_identifier) wlan" "message_ok (?c\<lparr>m_src := ''mihf1'', m_dst := ''user1''\<rparr>)"
    unfolding c by (simp_all add: wlan_def defs)
  have eq: "link_tuple_id_eq wlan wlan" by (simp add: link_tuple_id_eq_iff)
  have sub: "bm_get (subscribed_event_list watching) 1" by (simp add: watching_def supported_events_bits)
  show ?thesis
    using link_up_reaches_users [of watching wlan None None None None ?c "''127.0.0.1''" one_user _ all_up 0 False 0 1235] ok eq sub
    by (auto simp: one_user_def world_new_def subscribed_def reachable_user_def opt_wf_def watching_def near_sap_def sap_new_def
        link_new_def event_packets_def udp_packets_def all_up_def c_str_def)
qed

end
