(* ===== verification/Net_Address.thy ===== *)
theory Net_Address
  imports Mih_Base_Types
begin

text \<open>
  The networking helpers of the library: the Internet checksum
  (\<open>inc/odtone/net/ip/checksum.hpp\<close>), IPv6 prefixes (\<open>net/ip/prefix\<close>) and the text of an
  Ethernet address (\<open>net/link/address_mac\<close>). The text of an IPv6 address is read and printed by
  \<open>boost::asio\<close> and the prefix length by \<open>boost::lexical_cast\<close>: these are parameters.
\<close>

section \<open>Checksum\<close>

text \<open>
  The object is its only field \<open>_sum\<close>. The sum is accumulated in 32 bits; the loop that folds the
  carries back ends because each turn makes the sum smaller.
\<close>

definition checksum_new :: u16 where
  "checksum_new = 0"

definition checksum_clear :: "u16 \<Rightarrow> u16" where
  "checksum_clear c = 0"

function fold_carries :: "u32 \<Rightarrow> u32" where
  "fold_carries s = (if drop_bit 16 s \<noteq> 0 then fold_carries ((s AND 0xFFFF) + drop_bit 16 s) else s)"
  by auto

definition update_words :: "u16 list \<Rightarrow> u16 \<Rightarrow> u16" where
  "update_words data c = ucast (fold_carries (foldl (\<lambda>s d. s + ucast d) (ucast c) data))"

text \<open>
  The cast of the byte buffer to 16-bit integers reads them in the byte order of the host:
  \<open>big\<close> says whether the first byte is the most significant one.
\<close>

definition host_word :: "bool \<Rightarrow> u8 \<Rightarrow> u8 \<Rightarrow> u16" where
  "host_word big a b = (if big then push_bit 8 (ucast a) OR ucast b else push_bit 8 (ucast b) OR ucast a)"

fun words_of :: "bool \<Rightarrow> u8 list \<Rightarrow> u16 list" where
  "words_of big (a # b # bs) = host_word big a b # words_of big bs"
| "words_of big _ = []"

definition checksum_update :: "bool \<Rightarrow> u8 list \<Rightarrow> (u16, unit) eff" where
  "checksum_update big data =
     (if odd (length data) then throw invalid_argument else upd (update_words (words_of big data)))"

definition checksum_final :: "u16 \<Rightarrow> u16" where
  "checksum_final c = NOT c"

lemma carries_parts:
  "unat (s AND 0xFFFF) = unat s mod 65536" "unat (drop_bit 16 s) = unat s div 65536" for s :: u32
proof -
  have "s AND 0xFFFF = s mod 65536"
    using take_bit_eq_mask [of 16 s] by (simp add: take_bit_eq_mod mask_eq_exp_minus_1)
  then show "unat (s AND 0xFFFF) = unat s mod 65536" by (simp add: unat_mod)
  show "unat (drop_bit 16 s) = unat s div 65536" by (simp add: drop_bit_eq_div unat_div)
qed

lemma fold_step:
  "unat ((s AND 0xFFFF) + drop_bit 16 s) = unat s mod 65536 + unat s div 65536" for s :: u32
proof -
  have "unat s div 65536 < 65536"
    using unsigned_less [of s, where 'a = nat] by (simp add: less_mult_imp_div_less)
  then have "unat s mod 65536 + unat s div 65536 < 2 ^ LENGTH(32)"
    by (simp add: add_less_le_mono less_trans [OF add_strict_mono])
  then show ?thesis
    by (subst unat_add_lem [THEN iffD1]) (simp_all add: carries_parts)
qed

lemma carries_left: "drop_bit 16 s \<noteq> 0 \<longleftrightarrow> 65536 \<le> unat s" for s :: u32
proof -
  have "drop_bit 16 s = 0 \<longleftrightarrow> unat s div 65536 = 0"
    unfolding carries_parts(2) [symmetric] by (simp only: unat_eq_zero)
  then show ?thesis by (simp add: div_eq_0_iff not_less)
qed

termination fold_carries
proof (relation "measure unat")
  fix s :: u32 assume "drop_bit 16 s \<noteq> 0"
  then have "65536 \<le> unat s" by (simp add: carries_left)
  moreover from this have "0 < unat s div 65536" by (simp add: div_greater_zero_iff)
  moreover have "unat s = 65536 * (unat s div 65536) + unat s mod 65536" by simp
  ultimately have "unat s mod 65536 + unat s div 65536 < unat s" by linarith
  then show "((s AND 0xFFFF) + drop_bit 16 s, s) \<in> measure unat" by (simp add: fold_step)
qed simp

declare fold_carries.simps [simp del]

text \<open>The one's complement sum: the representative of a number modulo 65535 in 1..65535, and 0 for 0.\<close>

definition ones_sum :: "nat \<Rightarrow> nat" where
  "ones_sum n = (if n = 0 then 0 else (n - 1) mod 65535 + 1)"

lemma ones_sum_small: "n < 65536 \<Longrightarrow> ones_sum n = n"
  by (simp add: ones_sum_def)

lemma ones_sum_le: "ones_sum n \<le> 65535"
  using mod_less_divisor [of 65535 "n - 1"] by (simp add: ones_sum_def del: mod_less_divisor)

lemma ones_sum_shift: "0 < n \<Longrightarrow> ones_sum (n + 65535 * k) = ones_sum n"
  by (cases n) (simp_all add: ones_sum_def)

lemma ones_sum_add: "ones_sum (ones_sum m + n) = ones_sum (m + n)"
proof (cases "m = 0")
  case False
  have "m - 1 = 65535 * ((m - 1) div 65535) + (m - 1) mod 65535" by simp
  with False have "m + n = (ones_sum m + n) + 65535 * ((m - 1) div 65535)" "0 < ones_sum m + n"
    by (simp_all add: ones_sum_def)
  then show ?thesis by (simp only: ones_sum_shift)
qed (simp add: ones_sum_def)

lemma ones_sum_carry:
  assumes "65536 \<le> n"
  shows "ones_sum (n mod 65536 + n div 65536) = ones_sum n"
proof -
  define q r where "q = n div 65536" and "r = n mod 65536"
  then have "n = (r + q) + 65535 * q" by simp
  moreover have "0 < r + q" using assms by (simp add: q_def div_greater_zero_iff)
  ultimately show ?thesis
    unfolding q_def [symmetric] r_def [symmetric] by (simp only: ones_sum_shift)
qed

lemma unat_fold_carries: "unat (fold_carries s) = ones_sum (unat s)"
proof (induction s rule: fold_carries.induct)
  case (1 s)
  show ?case
  proof (cases "drop_bit 16 s \<noteq> 0")
    case True
    then have "ones_sum (unat s mod 65536 + unat s div 65536) = ones_sum (unat s)"
      by (simp only: carries_left ones_sum_carry)
    moreover have "fold_carries s = fold_carries ((s AND 0xFFFF) + drop_bit 16 s)"
      using True by (subst fold_carries.simps) simp
    ultimately show ?thesis using 1 [OF True] by (simp only: fold_step)
  next
    case False
    then have "unat s < 65536" using carries_left [of s] by simp
    moreover have "fold_carries s = s" using False by (subst fold_carries.simps) simp
    ultimately show ?thesis by (simp only: ones_sum_small)
  qed
qed

lemma unat_widen: "unat (ucast d :: u32) = unat d" for d :: u16
proof -
  have "unat d < 2 ^ 32" using unsigned_less [of d, where 'a = nat] by simp
  then show ?thesis by (simp add: unsigned_ucast_eq take_bit_nat_eq_self)
qed

lemma unat_narrow: "unat s < 65536 \<Longrightarrow> unat (ucast s :: u16) = unat s" for s :: u32
  by (simp add: unsigned_ucast_eq take_bit_nat_eq_self)

lemma sum_list_unat_le: "sum_list (map unat data) \<le> 65535 * length data" for data :: "u16 list"
proof (induction data)
  case (Cons d data)
  have "unat d \<le> 65535" using unsigned_less [of d, where 'a = nat] by simp
  with Cons show ?case by simp
qed simp

lemma unat_accumulate:
  "unat s + sum_list (map unat data) < 4294967296 \<Longrightarrow>
     unat (foldl (\<lambda>s d. s + ucast d) s data) = unat s + sum_list (map unat data)"
  for s :: u32 and data :: "u16 list"
proof (induction data arbitrary: s)
  case (Cons d data)
  from Cons.prems have "unat (s + ucast d) = unat s + unat d"
    by (subst unat_add_lem [THEN iffD1]) (simp_all add: unat_widen)
  with Cons show ?case by (simp add: add.assoc)
qed simp

lemma unat_update_words:
  assumes "length data \<le> 65536"
  shows "unat (update_words data c) = ones_sum (unat c + sum_list (map unat data))"
proof -
  let ?s = "foldl (\<lambda>s d. s + ucast d) (ucast c :: u32) data"
  have "unat c \<le> 65535" using unsigned_less [of c, where 'a = nat] by simp
  then have "unat c + sum_list (map unat data) < 4294967296"
    using sum_list_unat_le [of data] assms by linarith
  then have "unat ?s = unat c + sum_list (map unat data)"
    using unat_accumulate [of "ucast c" data] by (simp only: unat_widen)
  then have "unat (fold_carries ?s) = ones_sum (unat c + sum_list (map unat data))"
    by (simp only: unat_fold_carries)
  moreover from this have "unat (fold_carries ?s) < 65536"
    using ones_sum_le [of "unat c + sum_list (map unat data)"] by linarith
  ultimately show ?thesis
    by (simp only: update_words_def unat_narrow)
qed

lemma update_words_append:
  assumes "length xs + length ys \<le> 65536"
  shows "update_words (xs @ ys) c = update_words ys (update_words xs c)"
  using assms by (simp add: word_unat_eq_iff unat_update_words ones_sum_add add.assoc)

lemma unat_final: "unat (checksum_final c) = 65535 - unat c"
proof -
  have "checksum_final c = - 1 - c" by (simp add: checksum_final_def not_eq_complement)
  then show ?thesis by (simp add: unat_sub unsigned_minus_1_eq_mask mask_eq_exp_minus_1)
qed

lemma checksum_cancels:
  assumes "length xs < 65536"
  shows "checksum_final (update_words (xs @ [checksum_final (update_words xs 0)]) 0) = 0"
proof -
  let ?s = "sum_list (map unat xs)"
  have "update_words (xs @ [checksum_final (update_words xs 0)]) 0
      = update_words [checksum_final (update_words xs 0)] (update_words xs 0)"
    using assms by (simp add: update_words_append)
  then have "unat (update_words (xs @ [checksum_final (update_words xs 0)]) 0)
      = ones_sum (ones_sum ?s + (65535 - ones_sum ?s))"
    using assms by (simp add: unat_update_words unat_final)
  also have "\<dots> = 65535" using ones_sum_le [of ?s] by (simp add: ones_sum_small)
  finally show ?thesis by (simp add: word_unat_eq_iff unat_final)
qed

lemma unat_host_word: "unat (host_word big a b) = (if big then 256 * unat a + unat b else 256 * unat b + unat a)"
proof -
  have "unat (push_bit 8 (ucast x) OR ucast y :: u16) = 256 * unat x + unat y" for x y :: u8
  proof -
    have "push_bit 8 (ucast x) OR ucast y = (push_bit 8 (ucast x) + ucast y :: u16)"
      by (rule disjunctive_add [symmetric]) (auto simp: bit_simps dest: bit_imp_le_length)
    moreover have "push_bit 8 (ucast x :: u16) = 256 * ucast x" by (simp add: push_bit_eq_mult)
    moreover have "unat x < 256" "unat y < 256"
      using unsigned_less [of x, where 'a = nat] unsigned_less [of y, where 'a = nat] by simp_all
    ultimately show ?thesis by (simp add: unat_word_ariths unsigned_ucast_eq take_bit_nat_eq_self)
  qed
  then show ?thesis by (simp add: host_word_def)
qed

lemma ones_sum_mult: "ones_sum (k * ones_sum m) = ones_sum (k * m)"
proof (cases "m = 0 \<or> k = 0")
  case False
  have "m - 1 = 65535 * ((m - 1) div 65535) + (m - 1) mod 65535" by simp
  with False have m: "m = ones_sum m + 65535 * ((m - 1) div 65535)"
    by (simp add: ones_sum_def)
  have "k * m = k * ones_sum m + 65535 * (k * ((m - 1) div 65535))"
    by (subst m) (simp add: algebra_simps)
  moreover have "0 < k * ones_sum m" using False by (simp add: ones_sum_def)
  ultimately show ?thesis by (simp only: ones_sum_shift)
qed (auto simp: ones_sum_def)

lemma unat_u8 [simp]: "unat a < 256" "unat a div 256 = 0" "unat a mod 256 = unat a" for a :: u8
  using unsigned_less [of a, where 'a = nat] by simp_all

lemma length_words_of: "length (words_of big data) = length data div 2"
  by (induction big data rule: words_of.induct) simp_all

lemma words_of_swapped:
  "256 * sum_list (map unat (words_of False data))
     = sum_list (map unat (words_of True data)) + 65535 * sum_list (map (\<lambda>w. unat w div 256) (words_of False data))"
  by (induction "False" data rule: words_of.induct) (simp_all add: unat_host_word)

lemma words_of_zero:
  "sum_list (map unat (words_of True data)) = 0 \<longleftrightarrow> sum_list (map unat (words_of False data)) = 0"
  by (induction "False" data rule: words_of.induct) (auto simp: unat_host_word)

lemma ones_sum_swapped:
  "ones_sum (sum_list (map unat (words_of True data))) = ones_sum (256 * sum_list (map unat (words_of False data)))"
  using words_of_zero [of data] words_of_swapped [of data] ones_sum_shift
  by (metis gr0I mult_0_right)

lemma ones_sum_swap: "n < 65536 \<Longrightarrow> ones_sum (256 * n) = 256 * (n mod 256) + n div 256"
proof (cases "n = 0")
  case False
  assume n: "n < 65536"
  define q r where "q = n div 256" and "r = n mod 256"
  then have qr: "n = 256 * q + r" by simp
  have "q < 256" "r < 256" using n by (simp_all add: q_def r_def less_mult_imp_div_less)
  moreover have "256 * n = (256 * r + q) + 65535 * q" using qr by simp
  moreover have "0 < 256 * r + q" using False qr by auto
  ultimately have "ones_sum (256 * n) = 256 * r + q"
    by (simp only: ones_sum_shift) (rule ones_sum_small, linarith)
  then show ?thesis by (simp only: q_def r_def)
qed (simp add: ones_sum_def)

lemma unat_byte_at: "unat (byte_at 8 v) = unat v div 256" "unat (byte_at 0 v) = unat v mod 256" for v :: u16
proof -
  have "unat v div 256 < 256" using unsigned_less [of v, where 'a = nat] by (simp add: less_mult_imp_div_less)
  then show "unat (byte_at 8 v) = unat v div 256" "unat (byte_at 0 v) = unat v mod 256"
    by (simp_all add: byte_at_def unsigned_ucast_eq take_bit_eq_mod drop_bit_eq_div unat_div)
qed

text \<open>A 16-bit integer as the host stores it.\<close>

definition host_bytes :: "bool \<Rightarrow> u16 \<Rightarrow> u8 list" where
  "host_bytes big v = (if big then [byte_at 8 v, byte_at 0 v] else [byte_at 0 v, byte_at 8 v])"

lemma update_byte_order:
  assumes "length data \<le> 131072"
  shows "host_bytes True (update_words (words_of True data) 0) = host_bytes False (update_words (words_of False data) 0)"
proof -
  let ?f = "sum_list (map unat (words_of False data))"
  have "ones_sum ?f < 65536" using ones_sum_le [of ?f] by simp
  then have "unat (update_words (words_of True data) 0) = 256 * (ones_sum ?f mod 256) + ones_sum ?f div 256"
    using assms by (simp only: ones_sum_swap [symmetric] ones_sum_mult) (simp add: unat_update_words length_words_of ones_sum_swapped)
  moreover have "unat (update_words (words_of False data) 0) = ones_sum ?f"
    using assms by (simp add: unat_update_words length_words_of)
  moreover have "ones_sum ?f div 256 < 256" using ones_sum_le [of ?f] by (simp add: div_less_iff_less_mult)
  ultimately show ?thesis by (simp add: host_bytes_def word_unat_eq_iff unat_byte_at)
qed

text \<open>
  C19: The Internet checksum. Updating with an odd number of bytes throws and changes nothing. For
  at most 131070 bytes the sum does not overflow: the result is the one's complement sum of the
  old value and the 16-bit words, the bytes it has in memory are the same on a big-endian and on
  a little-endian host, and a buffer followed by its own checksum has the checksum zero.
\<close>

theorem checksum_correct:
  assumes "length data < 131072"
  shows "checksum_update big data c =
      (if odd (length data) then (Inl invalid_argument, c) else (Inr (), update_words (words_of big data) c)) \<and>
    unat (update_words (words_of big data) c) = ones_sum (unat c + sum_list (map unat (words_of big data))) \<and>
    host_bytes True (update_words (words_of True data) 0) = host_bytes False (update_words (words_of False data) 0) \<and>
    checksum_final (update_words (words_of big data @ [checksum_final (update_words (words_of big data) 0)]) 0) = 0"
  using assms
  by (simp add: checksum_update_def update_byte_order unat_update_words length_words_of checksum_cancels)

theorem checksum_correct_witness:
  "checksum_final (update_words (words_of False [0x45, 0, 0, 0x14] @
      [checksum_final (update_words (words_of False [0x45, 0, 0, 0x14]) 0)]) 0) = 0"
  using checksum_correct [of "[0x45, 0, 0, 0x14]" False 0] by simp

section \<open>IPv6 prefixes\<close>

text \<open>
  An \<open>address_v6\<close> of \<open>boost::asio\<close> is its 16 bytes. \<open>operator!=\<close> demands that both the length and the
  bytes differ, and is not the negation of \<open>operator==\<close>.
\<close>

record prefix_v6 =
  pfx_length :: u8
  pfx_bytes :: "u8 list"

definition prefix_new :: prefix_v6 where
  "prefix_new = \<lparr>pfx_length = 0, pfx_bytes = replicate 16 0\<rparr>"

definition prefix_of_bytes :: "u8 list \<Rightarrow> u32 \<Rightarrow> prefix_v6" where
  "prefix_of_bytes addr len = (if len > 128 then prefix_new else \<lparr>pfx_length = ucast len, pfx_bytes = addr\<rparr>)"

definition prefix_of_address :: "('a \<Rightarrow> u8 list) \<Rightarrow> 'a \<Rightarrow> u32 \<Rightarrow> prefix_v6" where
  "prefix_of_address to_bytes addr len =
     (if len > 128 then prefix_new else \<lparr>pfx_length = ucast len, pfx_bytes = to_bytes addr\<rparr>)"

definition prefix_match :: "prefix_v6 \<Rightarrow> u8 list \<Rightarrow> bool" where
  "prefix_match p a =
     (let byte_offset = unat (pfx_length p) div 8; bit_offset = unat (pfx_length p) mod 8 in
      if take byte_offset (pfx_bytes p) \<noteq> take byte_offset a then False
      else if bit_offset \<noteq> 0 then
        (let m = push_bit (8 - bit_offset) 0xFF in
         if (pfx_bytes p ! byte_offset) AND m \<noteq> (a ! byte_offset) AND m then False else True)
      else True)"

definition prefix_eq :: "prefix_v6 \<Rightarrow> prefix_v6 \<Rightarrow> bool" where
  "prefix_eq r l \<longleftrightarrow> pfx_length r = pfx_length l \<and> pfx_bytes r = pfx_bytes l"

definition prefix_ne :: "prefix_v6 \<Rightarrow> prefix_v6 \<Rightarrow> bool" where
  "prefix_ne r l \<longleftrightarrow> pfx_length r \<noteq> pfx_length l \<and> pfx_bytes r \<noteq> pfx_bytes l"

definition prefix_less :: "prefix_v6 \<Rightarrow> prefix_v6 \<Rightarrow> bool" where
  "prefix_less r l \<longleftrightarrow> pfx_length r < pfx_length l \<or> pfx_length r = pfx_length l \<and> pfx_bytes r < pfx_bytes l"

definition prefix_less_eq :: "prefix_v6 \<Rightarrow> prefix_v6 \<Rightarrow> bool" where
  "prefix_less_eq r l \<longleftrightarrow> pfx_length r < pfx_length l \<or> pfx_length r = pfx_length l \<and> pfx_bytes r \<le> pfx_bytes l"

definition prefix_greater :: "prefix_v6 \<Rightarrow> prefix_v6 \<Rightarrow> bool" where
  "prefix_greater r l \<longleftrightarrow> pfx_length r > pfx_length l \<or> pfx_length r = pfx_length l \<and> pfx_bytes r > pfx_bytes l"

definition prefix_greater_eq :: "prefix_v6 \<Rightarrow> prefix_v6 \<Rightarrow> bool" where
  "prefix_greater_eq r l \<longleftrightarrow> pfx_length r > pfx_length l \<or> pfx_length r = pfx_length l \<and> pfx_bytes r \<ge> pfx_bytes l"

definition prefix_to_bool :: "prefix_v6 \<Rightarrow> bool" where
  "prefix_to_bool p \<longleftrightarrow> pfx_length p \<noteq> 0"

fun rfind :: "char \<Rightarrow> string \<Rightarrow> nat option" where
  "rfind c [] = None"
| "rfind c (x # xs) = (case rfind c xs of Some i \<Rightarrow> Some (Suc i) | None \<Rightarrow> if x = c then Some 0 else None)"

definition prefix_from_string ::
    "(string \<Rightarrow> exn + 'a) \<Rightarrow> ('a \<Rightarrow> u8 list) \<Rightarrow> (string \<Rightarrow> exn + u32) \<Rightarrow> string \<Rightarrow> exn + prefix_v6" where
  "prefix_from_string address_from_string to_bytes lexical_cast str =
     (case rfind (CHR ''/'') str of
        None \<Rightarrow> Inr prefix_new
      | Some pos \<Rightarrow>
          (case address_from_string (take pos str) of
             Inl e \<Rightarrow> Inl e
           | Inr addr \<Rightarrow>
               (case lexical_cast (drop (Suc pos) str) of
                  Inl e \<Rightarrow> Inl e
                | Inr plen \<Rightarrow> Inr (prefix_of_address to_bytes addr plen))))"

definition prefix_print :: "(u8 list \<Rightarrow> string) \<Rightarrow> prefix_v6 \<Rightarrow> string" where
  "prefix_print print_address p = print_address (pfx_bytes p) @ ''/'' @ dec_string (unat (pfx_length p))"

text \<open>The bits of an address in network order.\<close>

definition net_bit :: "u8 list \<Rightarrow> nat \<Rightarrow> bool" where
  "net_bit bs i = bit (bs ! (i div 8)) (7 - i mod 8)"

definition prefix_ok :: "prefix_v6 \<Rightarrow> bool" where
  "prefix_ok p \<longleftrightarrow> length (pfx_bytes p) = 16 \<and> pfx_length p \<le> 128"

lemma all_ones_u8: "(0xFF :: u8) = mask 8"
  by (simp add: mask_eq_exp_minus_1)

lemma and_mask_u8: "z AND 0xFF = z" for z :: u8
  unfolding all_ones_u8 by (simp add: bit_eq_iff bit_simps)

lemma bit_word_eq_iff: "v = w \<longleftrightarrow> (\<forall>n<8. bit v n = bit w n)" for v w :: u8
  by (auto simp: bit_eq_iff)

lemma masked_eq:
  fixes x y :: u8
  assumes "b \<le> 8"
  shows "x AND push_bit (8 - b) 0xFF = y AND push_bit (8 - b) 0xFF \<longleftrightarrow> (\<forall>j<b. bit x (7 - j) = bit y (7 - j))"
proof -
  have m: "bit (z AND push_bit (8 - b) 0xFF) n \<longleftrightarrow> bit z n \<and> 8 - b \<le> n \<and> n < 8" for z :: u8 and n
    unfolding all_ones_u8 by (auto simp: bit_simps)
  have shift: "(\<forall>n. 8 - b \<le> n \<and> n < 8 \<longrightarrow> P n) \<longleftrightarrow> (\<forall>j<b. P (7 - j))" for P
  proof (intro iffI allI impI)
    fix n assume j: "\<forall>j<b. P (7 - j)" and n: "8 - b \<le> n \<and> n < 8"
    then have "7 - n < b" "7 - (7 - n) = n" using assms by linarith+
    with j show "P n" by metis
  next
    fix j assume n: "\<forall>n. 8 - b \<le> n \<and> n < 8 \<longrightarrow> P n" and "j < b"
    then have "8 - b \<le> 7 - j \<and> 7 - j < 8" using assms by linarith
    with n show "P (7 - j)" by blast
  qed
  have "x AND push_bit (8 - b) 0xFF = y AND push_bit (8 - b) 0xFF
      \<longleftrightarrow> (\<forall>n. 8 - b \<le> n \<and> n < 8 \<longrightarrow> bit x n = bit y n)"
    unfolding bit_word_eq_iff m by blast
  then show ?thesis by (rule trans) (rule shift)
qed

lemma all_less_add: "(\<forall>i<m + k. P i) \<longleftrightarrow> (\<forall>i<m. P i) \<and> (\<forall>j<k. P (m + j))" for m k :: nat
proof (intro iffI conjI allI impI)
  fix i assume p: "(\<forall>i<m. P i) \<and> (\<forall>j<k. P (m + j))" and i: "i < m + k"
  show "P i"
  proof (cases "i < m")
    case False
    then have "i = m + (i - m)" "i - m < k" using i by auto
    with p show ?thesis by metis
  qed (use p in blast)
qed simp_all

lemma take_eq_bits:
  assumes "length p = 16" "length a = 16" "k \<le> 16"
  shows "take k p = take k a \<longleftrightarrow> (\<forall>i<8 * k. net_bit p i = net_bit a i)"
  using assms(3)
proof (induction k)
  case (Suc k)
  have bits: "p ! k = a ! k \<longleftrightarrow> (\<forall>j<8. net_bit p (8 * k + j) = net_bit a (8 * k + j))"
    using masked_eq [of 8 "p ! k" "a ! k"] and_mask_u8 by (simp add: net_bit_def)
  have "take (Suc k) p = take (Suc k) a \<longleftrightarrow> take k p = take k a \<and> p ! k = a ! k"
    using assms Suc.prems by (simp add: take_Suc_conv_app_nth)
  also have "\<dots> \<longleftrightarrow> (\<forall>i<8 * k. net_bit p i = net_bit a i) \<and> (\<forall>j<8. net_bit p (8 * k + j) = net_bit a (8 * k + j))"
    using Suc bits by simp
  also have "\<dots> \<longleftrightarrow> (\<forall>i<8 * Suc k. net_bit p i = net_bit a i)"
    using all_less_add [of "8 * k" 8] by (simp add: add.commute)
  finally show ?case .
qed simp

text \<open>
  C20: \<open>prefix_v6::match\<close>, which compares whole bytes and then one masked byte, holds exactly when
  the first \<open>length\<close> bits of the prefix and of the address agree.
\<close>

theorem prefix_match_bits:
  assumes "prefix_ok p" "length a = 16"
  shows "prefix_match p a \<longleftrightarrow> (\<forall>i<unat (pfx_length p). net_bit (pfx_bytes p) i = net_bit a i)"
proof -
  define k b where "k = unat (pfx_length p) div 8" and "b = unat (pfx_length p) mod 8"
  have n: "unat (pfx_length p) = 8 * k + b" by (simp add: k_def b_def)
  have "unat (pfx_length p) \<le> 128" using assms by (simp add: prefix_ok_def word_le_nat_alt)
  then have k: "k \<le> 16" by (simp add: k_def)
  have b: "b < 8" by (simp add: b_def)
  have "prefix_match p a \<longleftrightarrow> take k (pfx_bytes p) = take k a \<and>
      (b \<noteq> 0 \<longrightarrow> (pfx_bytes p ! k) AND push_bit (8 - b) 0xFF = (a ! k) AND push_bit (8 - b) 0xFF)"
    by (simp add: prefix_match_def Let_def k_def b_def)
  moreover have "(pfx_bytes p ! k) AND push_bit (8 - b) 0xFF = (a ! k) AND push_bit (8 - b) 0xFF
      \<longleftrightarrow> (\<forall>j<b. net_bit (pfx_bytes p) (8 * k + j) = net_bit a (8 * k + j))"
    using b by (simp add: masked_eq net_bit_def)
  moreover have "take k (pfx_bytes p) = take k a \<longleftrightarrow> (\<forall>i<8 * k. net_bit (pfx_bytes p) i = net_bit a i)"
    using assms k by (simp add: prefix_ok_def take_eq_bits)
  ultimately show ?thesis
    unfolding n all_less_add by (cases "b = 0") simp_all
qed

theorem prefix_match_bits_witness:
  "prefix_match \<lparr>pfx_length = 33, pfx_bytes = 0x20 # 1 # 0x0D # 0xB8 # 0x80 # replicate 11 0\<rparr>
     (0x20 # 1 # 0x0D # 0xB8 # 0xC0 # replicate 11 7)"
  using prefix_match_bits [of "\<lparr>pfx_length = 33, pfx_bytes = 0x20 # 1 # 0x0D # 0xB8 # 0x80 # replicate 11 0\<rparr>"
      "0x20 # 1 # 0x0D # 0xB8 # 0xC0 # replicate 11 7"]
  by (simp add: prefix_ok_def prefix_match_def)

lemma prefix_of_address_ok: "length (to_bytes a) = 16 \<Longrightarrow> prefix_ok (prefix_of_address to_bytes a len)"
proof (cases "len > 128")
  case False
  assume "length (to_bytes a) = 16"
  moreover from False have "ucast len \<le> (128 :: u8)"
    by (simp add: word_le_nat_alt word_less_nat_alt unsigned_ucast_eq take_bit_nat_eq_self)
  ultimately show ?thesis using False by (simp add: prefix_ok_def prefix_of_address_def)
qed (simp add: prefix_ok_def prefix_of_address_def prefix_new_def)

text \<open>
  The order is the lexicographic one on length and bytes: exactly one of less, equal and greater holds.
  Two prefixes of the same length with different bytes are neither equal nor unequal.
\<close>

lemma prefix_order_total:
  "prefix_less p q \<or> prefix_eq p q \<or> prefix_less q p"
  "prefix_greater p q = prefix_less q p" "prefix_greater_eq p q = prefix_less_eq q p"
  "prefix_less_eq p q \<longleftrightarrow> prefix_less p q \<or> prefix_eq p q"
  "prefix_less p q \<Longrightarrow> \<not> prefix_less q p" "prefix_less p q \<Longrightarrow> prefix_less q r \<Longrightarrow> prefix_less p r"
  by (auto simp: prefix_less_def prefix_eq_def prefix_greater_def prefix_greater_eq_def prefix_less_eq_def)

lemma prefix_neither:
  "pfx_length p = pfx_length q \<Longrightarrow> pfx_bytes p \<noteq> pfx_bytes q \<Longrightarrow> \<not> prefix_eq p q \<and> \<not> prefix_ne p q"
  by (simp add: prefix_eq_def prefix_ne_def)

lemma rfind_last: "c \<notin> set ys \<Longrightarrow> rfind c (xs @ c # ys) = Some (length xs)"
proof -
  assume "c \<notin> set ys"
  then have "rfind c ys = None" by (induction ys) auto
  then show ?thesis by (induction xs) simp_all
qed

lemma dec_string_digits: "c \<in> set (dec_string n) \<Longrightarrow> 48 \<le> (of_char c :: nat)"
proof (induction n rule: dec_string.induct)
  case (1 n)
  have "n mod 10 < 10" by simp
  then have "(of_char (char_of (48 + n mod 10)) :: nat) = 48 + n mod 10" by simp
  with 1 show ?case
    by (subst (asm) (2) dec_string.simps) (auto simp del: dec_string.simps split: if_splits)
qed

text \<open>
  A printed prefix is read back, when \<open>boost::asio\<close> reads the address it prints and \<open>lexical_cast\<close>
  reads a decimal number.
\<close>

lemma prefix_from_string_print:
  assumes "\<And>bs. length bs = 16 \<Longrightarrow> \<exists>a. address_from_string (print_address bs) = Inr a \<and> to_bytes a = bs"
    and "\<And>n. n < 2 ^ 32 \<Longrightarrow> lexical_cast (dec_string n) = Inr (of_nat n)"
    and "prefix_ok p"
  shows "prefix_from_string address_from_string to_bytes lexical_cast (prefix_print print_address p) = Inr p"
proof -
  have "CHR ''/'' \<notin> set (dec_string (unat (pfx_length p)))"
    using dec_string_digits [of "CHR ''/''" "unat (pfx_length p)"] by (auto simp del: dec_string.simps)
  then have "rfind (CHR ''/'') (prefix_print print_address p) = Some (length (print_address (pfx_bytes p)))"
    by (simp add: prefix_print_def rfind_last del: dec_string.simps)
  moreover obtain a where "address_from_string (print_address (pfx_bytes p)) = Inr a" "to_bytes a = pfx_bytes p"
    using assms(1,3) by (auto simp: prefix_ok_def)
  moreover have "\<not> of_nat (unat (pfx_length p)) > (128 :: u32)"
    using assms(3) by (simp add: prefix_ok_def word_le_nat_alt word_less_nat_alt unsigned_ucast_eq take_bit_nat_eq_self)
  moreover have "ucast (of_nat (unat (pfx_length p)) :: u32) = pfx_length p"
    by (rule bit_word_eqI) (simp add: bit_simps)
  moreover have "unat (pfx_length p) < 2 ^ 32" by (rule less_trans [OF unat_u8(1)]) simp
  ultimately show ?thesis
    using assms(2) [of "unat (pfx_length p)"]
    by (simp add: prefix_from_string_def prefix_of_address_def prefix_print_def del: dec_string.simps)
qed

section \<open>MAC addresses\<close>

text \<open>
  \<open>address_mac::from_string\<close> reads a null-terminated string; \<open>peek\<close> is \<open>*str\<close>. The loop keeps the
  index, the octets written so far and the rest of the string.
\<close>

definition peek :: "string \<Rightarrow> char" where
  "peek s = (case s of [] \<Rightarrow> CHR 0x00 | c # _ \<Rightarrow> c)"

definition isxdigit :: "char \<Rightarrow> bool" where
  "isxdigit ch =
     (let c = byte_of_char ch in (48 \<le> c \<and> c \<le> 57) \<or> (65 \<le> c \<and> c \<le> 70) \<or> (97 \<le> c \<and> c \<le> 102))"

definition link_hex_to_int :: "char \<Rightarrow> u8" where
  "link_hex_to_int ch =
     (let c = byte_of_char ch in
      if 97 \<le> c then c - 97 + 0xA else if 65 \<le> c then c - 65 + 0xA else c - 48)"

function address_mac_scan :: "nat \<Rightarrow> u8 list \<Rightarrow> string \<Rightarrow> nat \<times> u8 list \<times> string" where
  "address_mac_scan i mac str =
     (if i < 6 then
        (if \<not> isxdigit (peek str) then (i, mac, str)
         else let tmp0 = link_hex_to_int (peek str); str = tl str in
           if \<not> isxdigit (peek str) then (i, mac, str)
           else let tmp1 = link_hex_to_int (peek str); str = tl str; mac = mac[i := push_bit 4 tmp0 OR tmp1] in
             if peek str \<noteq> CHR '':'' then (i, mac, str) else address_mac_scan (Suc i) mac (tl str))
      else (i, mac, str))"
  by auto

termination address_mac_scan
  by (relation "measure (\<lambda>(i, _). 6 - i)") auto

declare address_mac_scan.simps [simp del]

definition address_mac_from_string :: "string \<Rightarrow> u8 list" where
  "address_mac_from_string str =
     (let (i, mac, rest) = address_mac_scan 0 (replicate 6 0) (takeWhile (\<lambda>c. c \<noteq> CHR 0x00) str) in
      if i + 1 \<noteq> 6 \<or> peek rest \<noteq> CHR 0x00 then replicate 6 0 else mac)"

definition octet_text :: "u8 \<Rightarrow> string" where
  "octet_text b = [hex_digit (drop_bit 4 b), hex_digit (b AND 0x0F), CHR '':'']"

definition address_mac_to_string :: "u8 list \<Rightarrow> string" where
  "address_mac_to_string mac = butlast (concat (map octet_text mac))"

lemma nibbles_u8: "drop_bit 4 b < (16 :: u8)" "push_bit 4 (drop_bit 4 b) OR (b AND 0x0F) = b"
proof -
  have "drop_bit 4 (b AND 0xF0) = drop_bit 4 b"
  proof -
    have m: "(0xF0 :: u8) = push_bit 4 (mask 4)" by (simp add: mask_eq_exp_minus_1)
    show ?thesis
      unfolding m by (rule bit_word_eqI) (simp only: bit_simps o_apply, auto dest: bit_imp_le_length)
  qed
  then show "drop_bit 4 b < (16 :: u8)" "push_bit 4 (drop_bit 4 b) OR (b AND 0x0F) = b"
    using high_nibble [of b] join_nibbles [of b] by simp_all
qed

lemma hex_digit_x:
  assumes "v < 16"
  shows "isxdigit (hex_digit v)" "link_hex_to_int (hex_digit v) = v" "hex_digit v \<noteq> CHR 0x00"
proof -
  show "link_hex_to_int (hex_digit v) = v"
    using hex_digit_inverse [OF assms] by (simp only: link_hex_to_int_def hex_to_int_def)
  from assms have "v \<in> set (map of_nat [0..<16])" using u8_below [of v 16] by simp
  then have "v \<in> set [0, 1, 2, 3, 4, 5, 6, 7, 8, 9, 10, 11, 12, 13, 14, 15]" by (simp add: upt_rec)
  moreover have "list_all (\<lambda>v. isxdigit (hex_digit v))
      [0, 1, 2, 3, 4, 5, 6, 7, 8, 9, 10, 11, 12, 13, 14, 15]"
    by (simp add: isxdigit_def hex_digit_def)
  ultimately show x: "isxdigit (hex_digit v)" by (meson list_all_iff)
  then show "hex_digit v \<noteq> CHR 0x00" by (auto simp: isxdigit_def byte_of_char_def)
qed

lemma address_mac_scan_octet:
  assumes "i < 6"
  shows "address_mac_scan i mac (octet_text b @ rest) = address_mac_scan (Suc i) (mac[i := b]) rest"
    and "address_mac_scan i mac (butlast (octet_text b)) = (i, mac[i := b], [])"
  using assms hex_digit_x [OF nibbles_u8(1) [of b]] hex_digit_x [OF low_nibble [of b]] nibbles_u8(2) [of b]
  by (simp_all add: octet_text_def address_mac_scan.simps [of i] peek_def)

lemma address_mac_scan_octets:
  "i + length bs \<le> length mac \<Longrightarrow> length mac = 6 \<Longrightarrow>
     address_mac_scan i mac (concat (map octet_text bs) @ rest) =
     address_mac_scan (i + length bs) (take i mac @ bs @ drop (i + length bs) mac) rest"
proof (induction bs arbitrary: i mac)
  case (Cons b bs)
  then have "take (Suc i) (mac[i := b]) = take i mac @ [b]"
    by (simp add: take_Suc_conv_app_nth)
  with Cons show ?case by (simp add: address_mac_scan_octet)
qed simp

lemma octet_text_no_nul: "c \<in> set (octet_text b) \<Longrightarrow> c \<noteq> CHR 0x00"
  using hex_digit_x(3) [OF nibbles_u8(1) [of b]] hex_digit_x(3) [OF low_nibble [of b]]
  by (auto simp: octet_text_def)

lemma takeWhile_octets:
  "set str \<subseteq> set (concat (map octet_text bs)) \<Longrightarrow> takeWhile (\<lambda>c. c \<noteq> CHR 0x00) str = str"
  by (subst takeWhile_eq_all_conv) (fastforce dest: octet_text_no_nul)

lemma six_octets: "length mac = 6 \<Longrightarrow> \<exists>bs b. mac = bs @ [b] \<and> length bs = 5"
  by (cases mac rule: rev_cases) auto

text \<open>The text of a MAC address is read back.\<close>

lemma address_mac_roundtrip:
  assumes "length mac = 6"
  shows "address_mac_from_string (address_mac_to_string mac) = mac"
proof -
  obtain bs b where mac: "mac = bs @ [b]" "length bs = 5" using six_octets [OF assms] by blast
  then have tx: "address_mac_to_string mac = concat (map octet_text bs) @ butlast (octet_text b)"
    by (simp add: address_mac_to_string_def butlast_append octet_text_def)
  have all: "takeWhile (\<lambda>c. c \<noteq> CHR 0x00) (address_mac_to_string mac) = address_mac_to_string mac"
    by (rule takeWhile_octets [of _ mac]) (auto simp: address_mac_to_string_def dest: in_set_butlastD)
  show ?thesis
    unfolding address_mac_from_string_def tx all [unfolded tx]
    using mac by (simp add: address_mac_scan_octets address_mac_scan_octet peek_def list_update_append)
qed

text \<open>
  A text that stops after the fifth colon is accepted as well, with zero as the last octet: the
  loop leaves with the same index whether the sixth octet was read or not.
\<close>

lemma address_mac_truncated:
  assumes "length bs = 5"
  shows "address_mac_from_string (concat (map octet_text bs)) = bs @ [0]"
proof -
  have all: "takeWhile (\<lambda>c. c \<noteq> CHR 0x00) (concat (map octet_text bs)) = concat (map octet_text bs)"
    by (rule takeWhile_octets [of _ bs]) simp
  have "address_mac_scan 5 m [] = (5, m, [])" for m
    by (simp add: address_mac_scan.simps [of 5] peek_def isxdigit_def byte_of_char_def)
  then show ?thesis
    unfolding address_mac_from_string_def all
    using assms address_mac_scan_octets [of 0 bs "replicate 6 0" "[]"] by (simp add: peek_def)
qed

end
