(* ===== verification/Dns_Frame.thy ===== *)
theory Dns_Frame
  imports Mih_Prelude
begin

text \<open>
  The header of a DNS message (\<open>inc/odtone/net/dns/frame.hpp\<close>). A frame is the bytes of the buffer it
  is cast from; the header is the first twelve, and every frame of the program has at least these.
  A setter replaces the bits its mask names; the setters of the flags \<open>aa\<close>, \<open>tc\<close> and \<open>rd\<close> use the
  mask of \<open>qr\<close>, and \<open>opcode\<close> shifts by 6 the four bits its mask has at position 3.
\<close>

section \<open>Setters\<close>

definition dns_frame_set_tid :: "u16 \<Rightarrow> u8 list \<Rightarrow> u8 list" where
  "dns_frame_set_tid v fm = fm[0 := byte_at 8 v, 1 := byte_at 0 v]"

definition dns_frame_set_qr :: "bool \<Rightarrow> u8 list \<Rightarrow> u8 list" where
  "dns_frame_set_qr b fm = fm[2 := (fm ! 2 AND NOT 0x80) OR push_bit 7 (of_bool b)]"

definition dns_frame_set_opcode :: "u8 \<Rightarrow> u8 list \<Rightarrow> u8 list" where
  "dns_frame_set_opcode v fm = fm[2 := (fm ! 2 AND NOT 0x78) OR push_bit 6 v]"

definition dns_frame_set_aa :: "bool \<Rightarrow> u8 list \<Rightarrow> u8 list" where
  "dns_frame_set_aa b fm = fm[2 := (fm ! 2 AND NOT 0x80) OR push_bit 2 (of_bool b)]"

definition dns_frame_set_tc :: "bool \<Rightarrow> u8 list \<Rightarrow> u8 list" where
  "dns_frame_set_tc b fm = fm[2 := (fm ! 2 AND NOT 0x80) OR push_bit 1 (of_bool b)]"

definition dns_frame_set_rd :: "bool \<Rightarrow> u8 list \<Rightarrow> u8 list" where
  "dns_frame_set_rd b fm = fm[2 := (fm ! 2 AND NOT 0x80) OR of_bool b]"

definition dns_frame_set_ra :: "bool \<Rightarrow> u8 list \<Rightarrow> u8 list" where
  "dns_frame_set_ra b fm = fm[3 := (fm ! 3 AND NOT 0x80) OR push_bit 7 (of_bool b)]"

definition dns_frame_set_z :: "bool \<Rightarrow> u8 list \<Rightarrow> u8 list" where
  "dns_frame_set_z b fm = fm[3 := (fm ! 3 AND NOT 0x40) OR push_bit 6 (of_bool b)]"

definition dns_frame_set_rcode :: "u8 \<Rightarrow> u8 list \<Rightarrow> u8 list" where
  "dns_frame_set_rcode v fm = fm[3 := (fm ! 3 AND NOT 0x0F) OR v]"

definition dns_frame_set_nquery :: "u16 \<Rightarrow> u8 list \<Rightarrow> u8 list" where
  "dns_frame_set_nquery v fm = fm[4 := byte_at 8 v, 5 := byte_at 0 v]"

definition dns_frame_set_nanswer :: "u16 \<Rightarrow> u8 list \<Rightarrow> u8 list" where
  "dns_frame_set_nanswer v fm = fm[6 := byte_at 8 v, 7 := byte_at 0 v]"

definition dns_frame_set_nauth :: "u16 \<Rightarrow> u8 list \<Rightarrow> u8 list" where
  "dns_frame_set_nauth v fm = fm[8 := byte_at 8 v, 9 := byte_at 0 v]"

definition dns_frame_set_nadd :: "u16 \<Rightarrow> u8 list \<Rightarrow> u8 list" where
  "dns_frame_set_nadd v fm = fm[10 := byte_at 8 v, 11 := byte_at 0 v]"

section \<open>Getters\<close>

definition be16 :: "u8 list \<Rightarrow> nat \<Rightarrow> u16" where
  "be16 fm i = push_bit 8 (ucast (fm ! i)) OR ucast (fm ! Suc i)"

definition dns_frame_tid :: "u8 list \<Rightarrow> u16" where
  "dns_frame_tid fm = be16 fm 0"

definition dns_frame_qr :: "u8 list \<Rightarrow> bool" where
  "dns_frame_qr fm \<longleftrightarrow> drop_bit 7 (fm ! 2 AND 0x80) \<noteq> 0"

definition dns_frame_opcode :: "u8 list \<Rightarrow> u8" where
  "dns_frame_opcode fm = drop_bit 6 (fm ! 2 AND 0x78)"

definition dns_frame_aa :: "u8 list \<Rightarrow> bool" where
  "dns_frame_aa fm \<longleftrightarrow> drop_bit 2 (fm ! 2 AND 0x04) \<noteq> 0"

definition dns_frame_tc :: "u8 list \<Rightarrow> bool" where
  "dns_frame_tc fm \<longleftrightarrow> drop_bit 1 (fm ! 2 AND 0x02) \<noteq> 0"

definition dns_frame_rd :: "u8 list \<Rightarrow> bool" where
  "dns_frame_rd fm \<longleftrightarrow> fm ! 2 AND 0x01 \<noteq> 0"

definition dns_frame_ra :: "u8 list \<Rightarrow> bool" where
  "dns_frame_ra fm \<longleftrightarrow> drop_bit 7 (fm ! 3 AND 0x80) \<noteq> 0"

definition dns_frame_z :: "u8 list \<Rightarrow> bool" where
  "dns_frame_z fm \<longleftrightarrow> drop_bit 6 (fm ! 3 AND 0x40) \<noteq> 0"

definition dns_frame_rcode :: "u8 list \<Rightarrow> u8" where
  "dns_frame_rcode fm = fm ! 3 AND 0x0F"

definition dns_frame_nquery :: "u8 list \<Rightarrow> u16" where
  "dns_frame_nquery fm = be16 fm 4"

definition dns_frame_nanswer :: "u8 list \<Rightarrow> u16" where
  "dns_frame_nanswer fm = be16 fm 6"

definition dns_frame_nauth :: "u8 list \<Rightarrow> u16" where
  "dns_frame_nauth fm = be16 fm 8"

definition dns_frame_nadd :: "u8 list \<Rightarrow> u16" where
  "dns_frame_nadd fm = be16 fm 10"

section \<open>The header as a whole\<close>

record dns_header =
  h_tid :: u16
  h_qr :: bool
  h_opcode :: u8
  h_aa :: bool
  h_tc :: bool
  h_rd :: bool
  h_ra :: bool
  h_z :: bool
  h_rcode :: u8
  h_nquery :: u16
  h_nanswer :: u16
  h_nauth :: u16
  h_nadd :: u16

definition dns_header_of :: "u8 list \<Rightarrow> dns_header" where
  "dns_header_of fm = \<lparr>h_tid = dns_frame_tid fm, h_qr = dns_frame_qr fm, h_opcode = dns_frame_opcode fm, h_aa = dns_frame_aa fm,
     h_tc = dns_frame_tc fm, h_rd = dns_frame_rd fm, h_ra = dns_frame_ra fm, h_z = dns_frame_z fm, h_rcode = dns_frame_rcode fm,
     h_nquery = dns_frame_nquery fm, h_nanswer = dns_frame_nanswer fm, h_nauth = dns_frame_nauth fm, h_nadd = dns_frame_nadd fm\<rparr>"

definition dns_put_header :: "'a dns_header_scheme \<Rightarrow> u8 list \<Rightarrow> u8 list" where
  "dns_put_header h fm =
     (let fm = dns_frame_set_tid (h_tid h) fm;
          fm = dns_frame_set_qr (h_qr h) fm;
          fm = dns_frame_set_opcode (h_opcode h) fm;
          fm = dns_frame_set_aa (h_aa h) fm;
          fm = dns_frame_set_tc (h_tc h) fm;
          fm = dns_frame_set_rd (h_rd h) fm;
          fm = dns_frame_set_ra (h_ra h) fm;
          fm = dns_frame_set_z (h_z h) fm;
          fm = dns_frame_set_rcode (h_rcode h) fm;
          fm = dns_frame_set_nquery (h_nquery h) fm;
          fm = dns_frame_set_nanswer (h_nanswer h) fm;
          fm = dns_frame_set_nauth (h_nauth h) fm in
      dns_frame_set_nadd (h_nadd h) fm)"

lemmas dns_frame_setters = dns_frame_set_tid_def dns_frame_set_qr_def dns_frame_set_opcode_def dns_frame_set_aa_def
  dns_frame_set_tc_def dns_frame_set_rd_def dns_frame_set_ra_def dns_frame_set_z_def dns_frame_set_rcode_def
  dns_frame_set_nquery_def dns_frame_set_nanswer_def dns_frame_set_nauth_def dns_frame_set_nadd_def

lemmas dns_frame_getters = dns_frame_tid_def dns_frame_qr_def dns_frame_opcode_def dns_frame_aa_def dns_frame_tc_def dns_frame_rd_def
  dns_frame_ra_def dns_frame_z_def dns_frame_rcode_def dns_frame_nquery_def dns_frame_nanswer_def dns_frame_nauth_def dns_frame_nadd_def

text \<open>The two flag bytes the setters leave in a zeroed frame.\<close>

definition flags_hi :: "'a dns_header_scheme \<Rightarrow> u8" where
  "flags_hi h = push_bit 6 (of_bool (bit (h_opcode h) 0)) OR push_bit 2 (of_bool (h_aa h))
     OR push_bit 1 (of_bool (h_tc h)) OR of_bool (h_rd h)"

definition flags_lo :: "'a dns_header_scheme \<Rightarrow> u8" where
  "flags_lo h = push_bit 7 (of_bool (h_ra h)) OR push_bit 6 (of_bool (h_z h)) OR h_rcode h"

definition dns_header_bytes :: "'a dns_header_scheme \<Rightarrow> u8 list" where
  "dns_header_bytes h = [byte_at 8 (h_tid h), byte_at 0 (h_tid h), flags_hi h, flags_lo h,
     byte_at 8 (h_nquery h), byte_at 0 (h_nquery h), byte_at 8 (h_nanswer h), byte_at 0 (h_nanswer h),
     byte_at 8 (h_nauth h), byte_at 0 (h_nauth h), byte_at 8 (h_nadd h), byte_at 0 (h_nadd h)]"

lemma u8_bits: "v = w \<longleftrightarrow> (\<forall>n<8. bit v n = bit w n)" for v w :: u8
  by (auto simp: bit_eq_iff)

lemma all_below_8: "(\<forall>n<8. P n) \<longleftrightarrow> P 0 \<and> P 1 \<and> P 2 \<and> P 3 \<and> P 4 \<and> P 5 \<and> P 6 \<and> P (7 :: nat)"
  by (simp add: numeral_eq_Suc less_Suc_eq all_conj_distrib disj_imp [symmetric])

lemma put_flags_hi:
  "((((((0 AND NOT 0x80) OR push_bit 7 (of_bool q)) AND NOT 0x78 OR push_bit 6 v) AND NOT 0x80 OR push_bit 2 (of_bool a))
     AND NOT 0x80 OR push_bit 1 (of_bool t)) AND NOT 0x80) OR of_bool r
   = push_bit 6 (of_bool (bit v 0)) OR push_bit 2 (of_bool a) OR push_bit 1 (of_bool t) OR (of_bool r :: u8)"
  unfolding u8_bits all_below_8 by (simp add: bit_simps)

lemma put_flags_lo:
  "(((0 AND NOT 0x80) OR push_bit 7 (of_bool r)) AND NOT 0x40 OR push_bit 6 (of_bool z)) AND NOT 0x0F OR v
   = push_bit 7 (of_bool r) OR push_bit 6 (of_bool z) OR (v :: u8)"
  unfolding u8_bits all_below_8 by (simp add: bit_simps)

lemma dns_put_header_bytes:
  "dns_put_header h ([b0, b1, b2, b3, b4, b5, b6, b7, b8, b9, b10, b11] @ rest) =
     [byte_at 8 (h_tid h), byte_at 0 (h_tid h),
      ((((((b2 AND NOT 0x80) OR push_bit 7 (of_bool (h_qr h))) AND NOT 0x78 OR push_bit 6 (h_opcode h)) AND NOT 0x80
         OR push_bit 2 (of_bool (h_aa h))) AND NOT 0x80 OR push_bit 1 (of_bool (h_tc h))) AND NOT 0x80) OR of_bool (h_rd h),
      (((b3 AND NOT 0x80) OR push_bit 7 (of_bool (h_ra h))) AND NOT 0x40 OR push_bit 6 (of_bool (h_z h))) AND NOT 0x0F OR h_rcode h,
      byte_at 8 (h_nquery h), byte_at 0 (h_nquery h), byte_at 8 (h_nanswer h), byte_at 0 (h_nanswer h),
      byte_at 8 (h_nauth h), byte_at 0 (h_nauth h), byte_at 8 (h_nadd h), byte_at 0 (h_nadd h)] @ rest"
  by (simp add: dns_put_header_def dns_frame_setters numeral_eq_Suc)

lemma dns_put_header_zero: "dns_put_header h (replicate 12 0 @ rest) = dns_header_bytes h @ rest"
proof -
  have "replicate 12 (0 :: u8) = [0, 0, 0, 0, 0, 0, 0, 0, 0, 0, 0, 0]" by (simp add: numeral_eq_Suc)
  then show ?thesis
    by (simp only: dns_put_header_bytes dns_header_bytes_def flags_hi_def flags_lo_def put_flags_hi put_flags_lo)
qed

lemma u8_eq_0: "v = 0 \<longleftrightarrow> (\<forall>n<8. \<not> bit v n)" for v :: u8
  by (auto simp: bit_eq_iff)

lemma flag_getters:
  "drop_bit 7 (flags_hi h AND 0x80) = 0"
  "drop_bit 6 (flags_hi h AND 0x78) = h_opcode h AND 1"
  "drop_bit 2 (flags_hi h AND 0x04) = 0 \<longleftrightarrow> \<not> h_aa h"
  "drop_bit 1 (flags_hi h AND 0x02) = 0 \<longleftrightarrow> \<not> h_tc h"
  "flags_hi h AND 0x01 = 0 \<longleftrightarrow> \<not> h_rd h"
  unfolding u8_eq_0 u8_bits all_below_8 flags_hi_def by (auto simp: bit_simps)

lemma low_bits: "h_rcode h < 16 \<Longrightarrow> 4 \<le> n \<Longrightarrow> \<not> bit (h_rcode h) n"
proof -
  assume "h_rcode h < 16" and n: "4 \<le> n"
  then have "take_bit 4 (unat (h_rcode h)) = unat (h_rcode h)"
    by (simp add: word_less_nat_alt take_bit_nat_eq_self)
  then have "take_bit 4 (h_rcode h) = h_rcode h"
    by (simp add: word_unat_eq_iff unsigned_take_bit_eq)
  then show ?thesis using n by (metis bit_take_bit_iff not_le)
qed

lemma flag_getters_lo:
  assumes "h_rcode h < 16"
  shows "drop_bit 7 (flags_lo h AND 0x80) = 0 \<longleftrightarrow> \<not> h_ra h"
    "drop_bit 6 (flags_lo h AND 0x40) = 0 \<longleftrightarrow> \<not> h_z h"
    "flags_lo h AND 0x0F = h_rcode h"
  using low_bits [OF assms]
  unfolding u8_eq_0 u8_bits all_below_8 flags_lo_def by (auto simp: bit_simps)

lemma dns_header_bytes_nth:
  "(dns_header_bytes h @ rest) ! 2 = flags_hi h" "(dns_header_bytes h @ rest) ! 3 = flags_lo h"
  by (simp_all add: dns_header_bytes_def numeral_eq_Suc)

lemma dns_header_bytes_be16:
  "be16 (dns_header_bytes h @ rest) 0 = h_tid h" "be16 (dns_header_bytes h @ rest) 4 = h_nquery h"
  "be16 (dns_header_bytes h @ rest) 6 = h_nanswer h" "be16 (dns_header_bytes h @ rest) 8 = h_nauth h"
  "be16 (dns_header_bytes h @ rest) 10 = h_nadd h"
  unfolding be16_def
  by (simp_all only: dns_header_bytes_def append_Cons nth_Cons_0 nth_Cons_Suc eval_nat_numeral BitM.simps join_bytes_16 [unfolded eval_nat_numeral BitM.simps])

text \<open>
  What a header written into a zeroed frame reads back as: the query/response flag is lost and of the
  operation code only the lowest bit is left.
\<close>

lemma dns_header_of_put_header:
  assumes "h_rcode h < 16"
  shows "dns_header_of (dns_header_bytes h @ rest) = (dns_header.truncate h)\<lparr>h_qr := False, h_opcode := h_opcode h AND 1\<rparr>"
  unfolding dns_header_of_def dns_frame_getters dns_header_bytes_nth dns_header_bytes_be16 flag_getters
    flag_getters_lo [OF assms]
  by (simp add: dns_header.truncate_def)

end
