(* ===== verification/Dns_Message.thy ===== *)
theory Dns_Message
  imports Dns_Frame
begin

text \<open>
  DNS messages: the records (\<open>net/dns/types.hpp\<close>), the parser of names and integers
  (\<open>net/dns/utils.cpp\<close>) and the conversion of a message from and to a frame (\<open>net/dns/message.cpp\<close>).
  The parser reads the memory that starts at the payload of a frame, and a compression pointer may
  lead back into the header: positions are integers relative to the payload, and an access outside
  the buffer is undefined. A name with a pointer to itself is never left, so the loop over the labels
  has a bound.
\<close>

section \<open>Records\<close>

record question =
  q_domain :: string
  q_type :: u16
  q_class :: u16

record resource_record =
  rr_name :: string
  rr_type :: u16
  rr_class :: u16
  rr_ttl :: u32
  rr_len :: u16
  rr_data :: "u8 list"

record a_record =
  a_ipv4 :: string

record aaaa_record =
  aaaa_ipv6 :: string

record naptr_record =
  n_order :: u16
  n_preference :: u16
  n_flags :: string
  n_service :: string
  n_regex :: string
  n_replacement :: string

text \<open>The constructor assigns \<open>_service\<close> to itself: the argument is dropped.\<close>

definition naptr_record_new :: "u16 \<Rightarrow> u16 \<Rightarrow> string \<Rightarrow> string \<Rightarrow> string \<Rightarrow> string \<Rightarrow> naptr_record" where
  "naptr_record_new order preference flags service regex replacement =
     \<lparr>n_order = order, n_preference = preference, n_flags = flags, n_service = [], n_regex = regex,
      n_replacement = replacement\<rparr>"

record srv_record =
  s_priority :: u16
  s_weight :: u16
  s_port :: u16
  s_target :: string

record dns_message = dns_header +
  m_query :: "question list"
  m_answer :: "resource_record list"
  m_auth :: "resource_record list"
  m_add :: "resource_record list"

section \<open>Parsing\<close>

definition p_at :: "u8 list \<Rightarrow> int \<Rightarrow> ('s, u8) eff" where
  "p_at fm i = (if 0 \<le> i + 12 \<and> i + 12 < int (length fm) then ret (fm ! nat (i + 12)) else throw undefined_behaviour)"

fun p_range :: "u8 list \<Rightarrow> int \<Rightarrow> nat \<Rightarrow> ('s, u8 list) eff" where
  "p_range fm i 0 = ret []"
| "p_range fm i (Suc n) = bnd (p_at fm i) (\<lambda>b. bnd (p_range fm (i + 1) n) (\<lambda>bs. ret (b # bs)))"

definition uint16_at :: "u8 list \<Rightarrow> int \<Rightarrow> ('s, u16) eff" where
  "uint16_at fm i = bnd (p_at fm i) (\<lambda>a. bnd (p_at fm (i + 1)) (\<lambda>b. ret (push_bit 8 (ucast a) OR ucast b)))"

definition parse_uint16 :: "u8 list \<Rightarrow> (int, u16) eff" where
  "parse_uint16 fm = bnd (gets (\<lambda>pos. pos)) (\<lambda>pos. bnd (uint16_at fm pos) (\<lambda>v. seq (upd (\<lambda>pos. pos + 2)) (ret v)))"

definition parse_uint32 :: "u8 list \<Rightarrow> (int, u32) eff" where
  "parse_uint32 fm =
     bnd (gets (\<lambda>pos. pos)) (\<lambda>pos.
     bnd (p_at fm pos) (\<lambda>a. bnd (p_at fm (pos + 1)) (\<lambda>b. bnd (p_at fm (pos + 2)) (\<lambda>c. bnd (p_at fm (pos + 3)) (\<lambda>d.
     seq (upd (\<lambda>pos. pos + 4))
       (ret (push_bit 24 (ucast a) OR push_bit 16 (ucast b) OR push_bit 8 (ucast c) OR ucast d)))))))"

definition parse_data :: "u8 list \<Rightarrow> nat \<Rightarrow> (int, u8 list) eff" where
  "parse_data fm len =
     bnd (gets (\<lambda>pos. pos)) (\<lambda>pos. bnd (p_range fm pos len) (\<lambda>data. seq (upd (\<lambda>pos. pos + int len)) (ret data)))"

definition parse_string :: "u8 list \<Rightarrow> (int, string) eff" where
  "parse_string fm =
     bnd (gets (\<lambda>pos. pos)) (\<lambda>pos. bnd (p_at fm pos) (\<lambda>nlen. seq (upd (\<lambda>pos. pos + 1))
     (bnd (p_range fm (pos + 1) (unat nlen)) (\<lambda>bs. seq (upd (\<lambda>pos. pos + int (unat nlen))) (ret (chars_of bs))))))"

text \<open>
  One turn of the loop per label. A label whose first two bits are set is a pointer: the position moves
  past it once, and the label it points to is read there.
\<close>

fun parse_labels :: "nat \<Rightarrow> u8 list \<Rightarrow> int \<Rightarrow> bool \<Rightarrow> string \<Rightarrow> (int, bool \<times> string) eff" where
  "parse_labels 0 fm tmp pointer qname = throw out_of_fuel"
| "parse_labels (Suc n) fm tmp pointer qname =
     bnd (p_at fm tmp) (\<lambda>b.
     if b = 0 then ret (pointer, qname)
     else
       bnd (if drop_bit 6 b = 3 then
              seq (on_cond (\<not> pointer) (upd (\<lambda>pos. pos + 2)))
                (bnd (uint16_at fm tmp) (\<lambda>v.
                 let tmp = uint (v AND 0x3FFF) - 12 in
                 bnd (p_at fm tmp) (\<lambda>b. ret (tmp, unat b, True))))
            else ret (tmp, unat b, pointer)) (\<lambda>(tmp, nlen, pointer).
       seq (on_cond (\<not> pointer) (upd (\<lambda>pos. pos + (int nlen + 1))))
         (bnd (p_range fm (tmp + 1) nlen) (\<lambda>bs.
          parse_labels n fm (tmp + int nlen + 1) pointer (qname @ chars_of bs @ ''.'')))))"

definition parse_domain_name :: "nat \<Rightarrow> u8 list \<Rightarrow> (int, string) eff" where
  "parse_domain_name n fm =
     bnd (gets (\<lambda>pos. pos)) (\<lambda>pos. bnd (parse_labels n fm pos False []) (\<lambda>(pointer, qname).
     seq (on_cond (\<not> pointer) (upd (\<lambda>pos. pos + 1))) (ret (if qname \<noteq> [] then butlast qname else qname))))"

text \<open>
  The typed records. The bytes of an address are copied into an array of fixed size that is not
  initialised: any other length is undefined. The text of an address is made by \<open>boost::asio\<close>.
\<close>

definition parse_a_record :: "(u8 list \<Rightarrow> string) \<Rightarrow> u8 list \<Rightarrow> int \<Rightarrow> int \<Rightarrow> exn + a_record" where
  "parse_a_record to_string fm pos len =
     (if len = 4 then map_sum (\<lambda>e. e) (\<lambda>bs. \<lparr>a_ipv4 = to_string bs\<rparr>) (fst (p_range fm pos 4 ()))
      else Inl undefined_behaviour)"

definition parse_aaaa_record :: "(u8 list \<Rightarrow> string) \<Rightarrow> u8 list \<Rightarrow> int \<Rightarrow> int \<Rightarrow> exn + aaaa_record" where
  "parse_aaaa_record to_string fm pos len =
     (if len = 16 then map_sum (\<lambda>e. e) (\<lambda>bs. \<lparr>aaaa_ipv6 = to_string bs\<rparr>) (fst (p_range fm pos 16 ()))
      else Inl undefined_behaviour)"

definition parse_naptr_record :: "nat \<Rightarrow> u8 list \<Rightarrow> int \<Rightarrow> int \<Rightarrow> exn + naptr_record" where
  "parse_naptr_record n fm pos len =
     fst (bnd (parse_uint16 fm) (\<lambda>order. bnd (parse_uint16 fm) (\<lambda>preference. bnd (parse_string fm) (\<lambda>flags.
          bnd (parse_string fm) (\<lambda>service. bnd (parse_string fm) (\<lambda>regex. bnd (parse_domain_name n fm) (\<lambda>replacement.
          ret (naptr_record_new order preference flags service regex replacement))))))) pos)"

definition parse_srv_record :: "nat \<Rightarrow> u8 list \<Rightarrow> int \<Rightarrow> int \<Rightarrow> exn + srv_record" where
  "parse_srv_record n fm pos len =
     fst (bnd (parse_uint16 fm) (\<lambda>priority. bnd (parse_uint16 fm) (\<lambda>weight. bnd (parse_uint16 fm) (\<lambda>port.
          bnd (parse_domain_name n fm) (\<lambda>target.
          ret \<lparr>s_priority = priority, s_weight = weight, s_port = port, s_target = target\<rparr>)))) pos)"

section \<open>Messages from frames\<close>

definition dns_message_new :: dns_message where
  "dns_message_new = \<lparr>h_tid = 0, h_qr = False, h_opcode = 0, h_aa = False, h_tc = False, h_rd = False, h_ra = False,
     h_z = False, h_rcode = 0, h_nquery = 0, h_nanswer = 0, h_nauth = 0, h_nadd = 0,
     m_query = [], m_answer = [], m_auth = [], m_add = []\<rparr>"

definition parse_question :: "nat \<Rightarrow> u8 list \<Rightarrow> (int, question) eff" where
  "parse_question n fm =
     bnd (parse_domain_name n fm) (\<lambda>qname. bnd (parse_uint16 fm) (\<lambda>qtype. bnd (parse_uint16 fm) (\<lambda>qclass.
     ret \<lparr>q_domain = qname, q_type = qtype, q_class = qclass\<rparr>)))"

definition parse_resource_record :: "nat \<Rightarrow> u8 list \<Rightarrow> (int, resource_record) eff" where
  "parse_resource_record n fm =
     bnd (parse_domain_name n fm) (\<lambda>qname. bnd (parse_uint16 fm) (\<lambda>qtype. bnd (parse_uint16 fm) (\<lambda>qclass.
     bnd (parse_uint32 fm) (\<lambda>qttl. bnd (parse_uint16 fm) (\<lambda>qlength. bnd (parse_data fm (unat qlength)) (\<lambda>qdata.
     ret \<lparr>rr_name = qname, rr_type = qtype, rr_class = qclass, rr_ttl = qttl, rr_len = qlength, rr_data = qdata\<rparr>))))))"

fun parse_list :: "('s, 'a) eff \<Rightarrow> nat \<Rightarrow> ('s, 'a list) eff" where
  "parse_list m 0 = ret []"
| "parse_list m (Suc k) = bnd m (\<lambda>x. bnd (parse_list m k) (\<lambda>xs. ret (x # xs)))"

text \<open>The assignment from a frame replaces the header fields and appends to the record lists.\<close>

definition dns_message_assign :: "nat \<Rightarrow> dns_message \<Rightarrow> u8 list \<Rightarrow> exn + dns_message" where
  "dns_message_assign n m fm =
     fst (bnd (parse_list (parse_question n fm) (unat (dns_frame_nquery fm))) (\<lambda>qs.
          bnd (parse_list (parse_resource_record n fm) (unat (dns_frame_nanswer fm))) (\<lambda>answers.
          bnd (parse_list (parse_resource_record n fm) (unat (dns_frame_nauth fm))) (\<lambda>auths.
          bnd (parse_list (parse_resource_record n fm) (unat (dns_frame_nadd fm))) (\<lambda>adds.
          ret (dns_header.extend (dns_header_of fm)
            (dns_message.fields (m_query m @ qs) (m_answer m @ answers) (m_auth m @ auths) (m_add m @ adds))))))) 0)"

definition dns_message_of_frame :: "nat \<Rightarrow> u8 list \<Rightarrow> exn + dns_message" where
  "dns_message_of_frame n fm = dns_message_assign n dns_message_new fm"

definition dns_message_set_query :: "question list \<Rightarrow> dns_message \<Rightarrow> dns_message" where
  "dns_message_set_query qs m = m\<lparr>h_nquery := of_nat (length qs), m_query := qs\<rparr>"

definition dns_message_set_answer :: "resource_record list \<Rightarrow> dns_message \<Rightarrow> dns_message" where
  "dns_message_set_answer rs m = m\<lparr>h_nanswer := of_nat (length rs), m_answer := rs\<rparr>"

definition dns_message_set_auth :: "resource_record list \<Rightarrow> dns_message \<Rightarrow> dns_message" where
  "dns_message_set_auth rs m = m\<lparr>h_nauth := of_nat (length rs), m_auth := rs\<rparr>"

definition dns_message_set_add :: "resource_record list \<Rightarrow> dns_message \<Rightarrow> dns_message" where
  "dns_message_set_add rs m = m\<lparr>h_nadd := of_nat (length rs), m_add := rs\<rparr>"

section \<open>Frames from messages\<close>

fun split_dots :: "string \<Rightarrow> string list" where
  "split_dots [] = [[]]"
| "split_dots (c # cs) = (if c = CHR ''.'' then [] # split_dots cs
     else (case split_dots cs of [] \<Rightarrow> [[c]] | l # ls \<Rightarrow> (c # l) # ls))"

type_synonym payload = "u8 list \<times> u16"

text \<open>The length byte of a label is appended to the payload and not counted in \<open>payload_len\<close>.\<close>

definition put_label :: "payload \<Rightarrow> string \<Rightarrow> payload" where
  "put_label p l = (fst p @ of_nat (length l) # bytes_of l, snd p + of_nat (length l))"

definition serialize_query_record :: "payload \<Rightarrow> question \<Rightarrow> payload" where
  "serialize_query_record p q =
     (let p = foldl put_label p (split_dots (q_domain q)) in
      (fst p @ [0] @ [byte_at 8 (q_type q), byte_at 0 (q_type q)] @ [byte_at 8 (q_class q), byte_at 0 (q_class q)],
       snd p + 5))"

definition serialize_resource_record :: "payload \<Rightarrow> resource_record \<Rightarrow> payload" where
  "serialize_resource_record p rr =
     (let p = foldl put_label p (split_dots (rr_name rr)) in
      (fst p @ [0] @ [byte_at 8 (rr_type rr), byte_at 0 (rr_type rr)] @ [byte_at 8 (rr_class rr), byte_at 0 (rr_class rr)]
         @ [byte_at 24 (rr_ttl rr), byte_at 16 (rr_ttl rr), byte_at 8 (rr_ttl rr), byte_at 0 (rr_ttl rr)]
         @ [byte_at 8 (rr_len rr), byte_at 0 (rr_len rr)] @ rr_data rr,
       snd p + 10 + rr_len rr))"

definition dns_message_payload :: "dns_message \<Rightarrow> payload" where
  "dns_message_payload m =
     foldl serialize_resource_record
       (foldl serialize_resource_record
         (foldl serialize_resource_record
           (foldl serialize_query_record ([], 0) (m_query m))
           (m_answer m))
         (m_auth m))
       (m_add m)"

text \<open>
  \<open>frame_vla::size(12 + payload_len)\<close> allocates the size of the header once more. The payload is
  copied without a check: more bytes than the buffer holds are written behind it.
\<close>

definition dns_get_frame :: "dns_message \<Rightarrow> exn + u8 list" where
  "dns_get_frame m =
     (let (payload, payload_len) = dns_message_payload m;
          fm = dns_put_header m (replicate (12 + (12 + unat payload_len)) 0) in
      if length fm < 12 + length payload then Inl undefined_behaviour
      else Inr (take 12 fm @ payload @ drop (12 + length payload) fm))"

section \<open>Reading back\<close>

text \<open>
  \<open>reads m bs x\<close>: wherever the bytes \<open>bs\<close> stand in the payload of a frame, the parser \<open>m\<close> started at
  the first of them returns \<open>x\<close> and leaves the position behind the last.
\<close>

definition reads :: "(u8 list \<Rightarrow> (int, 'a) eff) \<Rightarrow> u8 list \<Rightarrow> 'a \<Rightarrow> bool" where
  "reads m bs x \<longleftrightarrow> (\<forall>pre post. 12 \<le> length pre \<longrightarrow>
     m (pre @ bs @ post) (int (length pre) - 12) = (Inr x, int (length pre + length bs) - 12))"

named_theorems reads_intros \<open>composition of parsers\<close>

lemma reads_bnd:
  assumes "reads m bs x" "reads (\<lambda>fm. f fm x) cs y"
  shows "reads (\<lambda>fm. bnd (m fm) (f fm)) (bs @ cs) y"
  unfolding reads_def
proof (intro allI impI)
  fix pre post :: "u8 list" assume pre: "12 \<le> length pre"
  have "m (pre @ bs @ cs @ post) (int (length pre) - 12) = (Inr x, int (length (pre @ bs)) - 12)"
    using assms(1) pre by (simp add: reads_def)
  moreover have "f ((pre @ bs) @ cs @ post) x (int (length (pre @ bs)) - 12)
      = (Inr y, int (length (pre @ bs) + length cs) - 12)"
    using assms(2) pre unfolding reads_def by (metis length_append trans_le_add1)
  ultimately show "bnd (m (pre @ (bs @ cs) @ post)) (f (pre @ (bs @ cs) @ post)) (int (length pre) - 12)
      = (Inr y, int (length pre + length (bs @ cs)) - 12)"
    by (simp add: add.assoc)
qed

lemma reads_ret [reads_intros]: "reads (\<lambda>fm. ret x) [] x"
  by (simp add: reads_def)

lemma p_at_app:
  "12 \<le> length pre \<Longrightarrow> i = int (length pre) - 12 \<Longrightarrow> p_at (pre @ b # post) i s = (Inr b, s)"
  by (simp add: p_at_def nth_append)

lemma p_range_app:
  "12 \<le> length pre \<Longrightarrow> i = int (length pre) - 12 \<Longrightarrow> n = length bs \<Longrightarrow> p_range (pre @ bs @ post) i n s = (Inr bs, s)"
proof (induction bs arbitrary: pre i n)
  case (Cons b bs)
  have "p_range ((pre @ [b]) @ bs @ post) (i + 1) (length bs) s = (Inr bs, s)"
    using Cons.prems by (intro Cons.IH) simp_all
  moreover have "p_at (pre @ b # bs @ post) i s = (Inr b, s)"
    using Cons.prems by (intro p_at_app) simp_all
  ultimately show ?case using Cons.prems by simp
qed simp

lemma reads_uint16: "reads parse_uint16 [byte_at 8 v, byte_at 0 v] v"
  by (simp add: reads_def parse_uint16_def uint16_at_def p_at_def nth_append nat_add_distrib nat_diff_distrib' join_bytes_16)

lemma reads_data: "n = length bs \<Longrightarrow> reads (\<lambda>fm. parse_data fm n) bs bs"
  by (simp add: reads_def parse_data_def p_range_app)

lemma reads_uint32: "reads parse_uint32 [byte_at 24 v, byte_at 16 v, byte_at 8 v, byte_at 0 v] v"
  by (simp add: reads_def parse_uint32_def p_at_def nth_append nat_add_distrib nat_diff_distrib' join_bytes_32)

definition label_bytes :: "string \<Rightarrow> u8 list" where
  "label_bytes l = of_nat (length l) # bytes_of l"

definition name_bytes :: "string \<Rightarrow> u8 list" where
  "name_bytes s = concat (map label_bytes (split_dots s)) @ [0]"

text \<open>A name the parser reads back: no empty label, and no label so long that it looks like a pointer.\<close>

definition name_ok :: "string \<Rightarrow> bool" where
  "name_ok s \<longleftrightarrow> (\<forall>l \<in> set (split_dots s). l \<noteq> [] \<and> length l < 192)"

lemma label_length:
  assumes "0 < k" "k < 192"
  shows "(of_nat k :: u8) \<noteq> 0" "drop_bit 6 (of_nat k :: u8) \<noteq> 3" "unat (of_nat k :: u8) = k"
proof -
  show k: "unat (of_nat k :: u8) = k" using assms by (simp add: unsigned_of_nat take_bit_nat_eq_self)
  have "unat (drop_bit 6 (of_nat k :: u8)) = k div 64"
    unfolding unat_drop_bit_eq k by (simp add: drop_bit_eq_div)
  then show "drop_bit 6 (of_nat k :: u8) \<noteq> 3" using assms by (auto simp: div_less_iff_less_mult)
  show "(of_nat k :: u8) \<noteq> 0" using assms k by auto
qed

lemma chars_of_bytes_of [simp]: "char_of_byte \<circ> byte_of_char = id"
  by (simp add: fun_eq_iff)

lemma parse_labels_read:
  "12 \<le> length pre \<Longrightarrow> length ls < n \<Longrightarrow> \<forall>l \<in> set ls. l \<noteq> [] \<and> length l < 192 \<Longrightarrow>
     parse_labels n (pre @ concat (map label_bytes ls) @ 0 # post) (int (length pre) - 12) False q pos =
     (Inr (False, q @ concat (map (\<lambda>l. l @ ''.'') ls)), pos + int (length (concat (map label_bytes ls))))"
proof (induction ls arbitrary: pre q pos n)
  case Nil
  then show ?case by (cases n) (simp_all add: p_at_app)
next
  case (Cons l ls)
  then obtain k where n: "n = Suc k" "length ls < k" by (cases n) auto
  have l: "0 < length l" "length l < 192" using Cons.prems by auto
  let ?rest = "concat (map label_bytes ls) @ 0 # post"
  have at: "p_at (pre @ of_nat (length l) # bytes_of l @ ?rest) (int (length pre) - 12) s = (Inr (of_nat (length l)), s)" for s :: int
    using Cons.prems by (intro p_at_app) simp_all
  have range: "p_range ((pre @ [of_nat (length l)]) @ bytes_of l @ ?rest) (int (length pre) - 11) (length l) s
      = (Inr (bytes_of l), s)" for s :: int
    using Cons.prems by (intro p_range_app) simp_all
  have "parse_labels k ((pre @ label_bytes l) @ ?rest) (int (length (pre @ label_bytes l)) - 12) False
      (q @ l @ ''.'') (pos + (int (length l) + 1))
    = (Inr (False, (q @ l @ ''.'') @ concat (map (\<lambda>l. l @ ''.'') ls)),
       pos + (int (length l) + 1) + int (length (concat (map label_bytes ls))))"
    using Cons.prems n by (intro Cons.IH) simp_all
  with at range label_length [OF l] show ?case
    by (simp add: n label_bytes_def [of l] algebra_simps)
qed

lemma join_split_dots: "concat (map (\<lambda>l. l @ ''.'') (split_dots s)) = s @ ''.''"
  by (induction s) (auto split: list.splits)

lemma reads_name: "name_ok s \<Longrightarrow> length (split_dots s) < n \<Longrightarrow> reads (parse_domain_name n) (name_bytes s) s"
  by (simp add: reads_def parse_domain_name_def name_bytes_def name_ok_def parse_labels_read join_split_dots)

definition question_bytes :: "question \<Rightarrow> u8 list" where
  "question_bytes q = name_bytes (q_domain q) @ [byte_at 8 (q_type q), byte_at 0 (q_type q)]
     @ [byte_at 8 (q_class q), byte_at 0 (q_class q)]"

definition rr_bytes :: "resource_record \<Rightarrow> u8 list" where
  "rr_bytes rr = name_bytes (rr_name rr) @ [byte_at 8 (rr_type rr), byte_at 0 (rr_type rr)]
     @ [byte_at 8 (rr_class rr), byte_at 0 (rr_class rr)]
     @ [byte_at 24 (rr_ttl rr), byte_at 16 (rr_ttl rr), byte_at 8 (rr_ttl rr), byte_at 0 (rr_ttl rr)]
     @ [byte_at 8 (rr_len rr), byte_at 0 (rr_len rr)] @ rr_data rr"

definition payload_bytes :: "dns_message \<Rightarrow> u8 list" where
  "payload_bytes m = concat (map question_bytes (m_query m)) @ concat (map rr_bytes (m_answer m))
     @ concat (map rr_bytes (m_auth m)) @ concat (map rr_bytes (m_add m))"

lemma reads_question:
  assumes "name_ok (q_domain q)" "length (split_dots (q_domain q)) < n"
  shows "reads (parse_question n) (question_bytes q) q"
proof -
  have "reads (\<lambda>fm. ret q) [] q" by (rule reads_ret)
  then have "reads (parse_question n) (name_bytes (q_domain q) @ [byte_at 8 (q_type q), byte_at 0 (q_type q)]
     @ [byte_at 8 (q_class q), byte_at 0 (q_class q)] @ []) q"
    unfolding parse_question_def
    by (intro reads_bnd [OF reads_name [OF assms]] reads_bnd [OF reads_uint16]) (cases q, simp)
  then show ?thesis by (simp add: question_bytes_def)
qed

lemma reads_rr:
  assumes "name_ok (rr_name rr)" "length (split_dots (rr_name rr)) < n" "length (rr_data rr) = unat (rr_len rr)"
  shows "reads (parse_resource_record n) (rr_bytes rr) rr"
proof -
  have "reads (\<lambda>fm. ret rr) [] rr" by (rule reads_ret)
  then have "reads (parse_resource_record n) (name_bytes (rr_name rr) @ [byte_at 8 (rr_type rr), byte_at 0 (rr_type rr)]
     @ [byte_at 8 (rr_class rr), byte_at 0 (rr_class rr)]
     @ [byte_at 24 (rr_ttl rr), byte_at 16 (rr_ttl rr), byte_at 8 (rr_ttl rr), byte_at 0 (rr_ttl rr)]
     @ [byte_at 8 (rr_len rr), byte_at 0 (rr_len rr)] @ rr_data rr @ []) rr"
    unfolding parse_resource_record_def
    by (intro reads_bnd [OF reads_name [OF assms(1,2)]] reads_bnd [OF reads_uint16] reads_bnd [OF reads_uint32]
        reads_bnd [OF reads_data [OF assms(3) [symmetric]]]) (cases rr, simp)
  then show ?thesis by (simp add: rr_bytes_def)
qed

lemma reads_list:
  "\<forall>x \<in> set xs. reads m (f x) x \<Longrightarrow> k = length xs \<Longrightarrow> reads (\<lambda>fm. parse_list (m fm) k) (concat (map f xs)) xs"
proof (induction xs arbitrary: k)
  case Nil
  then show ?case by (simp add: reads_def)
next
  case (Cons x xs)
  have "reads (\<lambda>fm. bnd (m fm) (\<lambda>x. bnd (parse_list (m fm) (length xs)) (\<lambda>xs. ret (x # xs))))
      (f x @ concat (map f xs) @ []) (x # xs)"
    using Cons by (intro reads_bnd) (auto simp: reads_ret)
  with Cons.prems show ?case by simp
qed

section \<open>Writing\<close>

text \<open>The bytes of the payload that \<open>payload_len\<close> leaves out.\<close>

definition uncounted :: "dns_message \<Rightarrow> nat" where
  "uncounted m = sum_list (map (\<lambda>q. length (split_dots (q_domain q))) (m_query m))
     + sum_list (map (\<lambda>rr. Suc (length (split_dots (rr_name rr)))) (m_answer m @ m_auth m @ m_add m))"

definition lengths_ok :: "dns_message \<Rightarrow> bool" where
  "lengths_ok m \<longleftrightarrow> (\<forall>rr \<in> set (m_answer m @ m_auth m @ m_add m). length (rr_data rr) = unat (rr_len rr))"

lemma length_labels: "length (concat (map label_bytes ls)) = length ls + sum_list (map length ls)"
  by (induction ls) (simp_all add: label_bytes_def)

lemma foldl_put_label:
  "foldl put_label p ls = (fst p @ concat (map label_bytes ls), snd p + of_nat (sum_list (map length ls)))"
  by (induction ls arbitrary: p) (simp_all add: put_label_def label_bytes_def)

lemma serialize_query:
  "serialize_query_record p q =
     (fst p @ question_bytes q, snd p + of_nat (length (question_bytes q) - length (split_dots (q_domain q))))"
  by (simp add: serialize_query_record_def foldl_put_label question_bytes_def name_bytes_def length_labels)

lemma serialize_rr:
  "length (rr_data rr) = unat (rr_len rr) \<Longrightarrow> serialize_resource_record p rr =
     (fst p @ rr_bytes rr, snd p + of_nat (length (rr_bytes rr) - Suc (length (split_dots (rr_name rr)))))"
  by (simp add: serialize_resource_record_def foldl_put_label rr_bytes_def name_bytes_def length_labels)

text \<open>A fold of a serializer that appends \<open>f x\<close> and counts all of its bytes but \<open>g x\<close>.\<close>

lemma foldl_serialize:
  assumes "\<And>p x. x \<in> set xs \<Longrightarrow> h p x = (fst p @ f x, snd p + of_nat (length (f x) - g x))"
    and "\<And>x. x \<in> set xs \<Longrightarrow> g x \<le> length (f x)"
  shows "foldl h p xs =
      (fst p @ concat (map f xs), snd p + of_nat (length (concat (map f xs)) - sum_list (map g xs)))
    \<and> sum_list (map g xs) \<le> length (concat (map f xs))"
  using assms
proof (induction xs arbitrary: p)
  case (Cons x xs)
  let ?a = "length (f x)" and ?b = "length (concat (map f xs))" and ?c = "sum_list (map g xs)"
  have ih: "foldl h (h p x) xs = (fst (h p x) @ concat (map f xs), snd (h p x) + of_nat (?b - ?c)) \<and> ?c \<le> ?b"
    using Cons.prems by (intro Cons.IH) auto
  moreover have "h p x = (fst p @ f x, snd p + of_nat (?a - g x))" "g x \<le> ?a" using Cons.prems by simp_all
  moreover have "(?a - g x) + (?b - ?c) = (?a + ?b) - (g x + ?c)" if "?c \<le> ?b" using calculation(3) that by linarith
  ultimately show ?case by (simp flip: of_nat_add add: ac_simps)
qed simp

lemma uncounted_parts:
  "length (split_dots (q_domain q)) \<le> length (question_bytes q)"
  "Suc (length (split_dots (rr_name rr))) \<le> length (rr_bytes rr)"
  by (simp_all add: question_bytes_def rr_bytes_def name_bytes_def length_labels)

lemma dns_message_payload_bytes:
  assumes "lengths_ok m"
  shows "dns_message_payload m = (payload_bytes m, of_nat (length (payload_bytes m) - uncounted m))"
    and "uncounted m \<le> length (payload_bytes m)"
proof -
  let ?rrs = "m_answer m @ m_auth m @ m_add m"
  let ?q = "concat (map question_bytes (m_query m))" and ?r = "concat (map rr_bytes ?rrs)"
  let ?uq = "sum_list (map (\<lambda>q. length (split_dots (q_domain q))) (m_query m))"
  let ?ur = "sum_list (map (\<lambda>rr. Suc (length (split_dots (rr_name rr)))) ?rrs)"
  have q: "foldl serialize_query_record p (m_query m)
      = (fst p @ ?q, snd p + of_nat (length ?q - ?uq)) \<and> ?uq \<le> length ?q" for p
    by (rule foldl_serialize) (simp_all add: serialize_query uncounted_parts)
  have r: "foldl serialize_resource_record p ?rrs
      = (fst p @ ?r, snd p + of_nat (length ?r - ?ur)) \<and> ?ur \<le> length ?r" for p
    using assms by (intro foldl_serialize) (simp_all add: serialize_rr lengths_ok_def uncounted_parts)
  have m: "dns_message_payload m = foldl serialize_resource_record (foldl serialize_query_record ([], 0) (m_query m)) ?rrs"
    by (simp only: dns_message_payload_def foldl_append)
  have b: "payload_bytes m = ?q @ ?r" by (simp add: payload_bytes_def)
  show "uncounted m \<le> length (payload_bytes m)"
    unfolding b uncounted_def length_append by (intro add_mono q [THEN conjunct2] r [THEN conjunct2])
  have "(length ?q - ?uq) + (length ?r - ?ur) = length (payload_bytes m) - uncounted m"
    unfolding b uncounted_def length_append using q [THEN conjunct2] r [THEN conjunct2] by linarith
  then show "dns_message_payload m = (payload_bytes m, of_nat (length (payload_bytes m) - uncounted m))"
    unfolding m q [THEN conjunct1] r [THEN conjunct1] b fst_conv snd_conv
    by (simp only: append_Nil add_0 of_nat_add [symmetric])
qed

lemma dns_message_payload_get_frame:
  assumes "lengths_ok m" "length (payload_bytes m) < 65536"
  shows "dns_get_frame m =
    (if 12 < uncounted m then Inl undefined_behaviour
     else Inr (dns_header_bytes m @ payload_bytes m @ replicate (12 - uncounted m) 0))"
proof -
  let ?n = "length (payload_bytes m) - uncounted m"
  have n: "unat (of_nat ?n :: u16) = ?n"
    using assms(2) by (simp add: unsigned_of_nat take_bit_nat_eq_self)
  have fm: "dns_put_header m (replicate (12 + (12 + ?n)) 0) = dns_header_bytes m @ replicate (12 + ?n) 0"
    unfolding replicate_add [of 12 "12 + ?n"] by (rule dns_put_header_zero)
  have len: "length (dns_header_bytes m) = 12" by (simp add: dns_header_bytes_def)
  show ?thesis
    using dns_message_payload_bytes(2) [OF assms(1)]
    unfolding dns_get_frame_def Let_def dns_message_payload_bytes(1) [OF assms(1)] prod.case n fm
    by (auto simp: len not_less)
qed

text \<open>
  C18: The length that sizes the frame of a DNS message leaves out the length byte of every label and the
  terminator of every resource record name. The buffer has twelve spare bytes, so the frame is the header
  and the payload followed by zeros up to twelve such bytes, and with more of them the payload is written
  beyond the end of the buffer.
\<close>

theorem dns_get_frame_overrun:
  assumes "lengths_ok m" "length (payload_bytes m) < 65536"
  shows "dns_get_frame m =
    (if 12 < uncounted m then Inl undefined_behaviour
     else Inr (dns_header_bytes m @ payload_bytes m @ replicate (12 - uncounted m) 0))"
  by (rule dns_message_payload_get_frame [OF assms])

definition dns_example :: "string \<Rightarrow> dns_message" where
  "dns_example name = dns_message_set_query [\<lparr>q_domain = name, q_type = 1, q_class = 1\<rparr>] (dns_message_new\<lparr>h_tid := 7, h_rd := True\<rparr>)"

theorem dns_get_frame_overrun_witness:
  "dns_get_frame (dns_example ''a.b.c.d.e.f.g.h.i.j.k.l.m'') = Inl undefined_behaviour"
  using dns_get_frame_overrun [of "dns_example ''a.b.c.d.e.f.g.h.i.j.k.l.m''"]
  by (simp add: dns_example_def dns_message_set_query_def dns_message_new_def lengths_ok_def uncounted_def
      payload_bytes_def question_bytes_def name_bytes_def label_bytes_def)

definition dns_message_ok :: "dns_message \<Rightarrow> bool" where
  "dns_message_ok m \<longleftrightarrow> lengths_ok m \<and> h_rcode m < 16 \<and>
     length (m_query m) = unat (h_nquery m) \<and> length (m_answer m) = unat (h_nanswer m) \<and>
     length (m_auth m) = unat (h_nauth m) \<and> length (m_add m) = unat (h_nadd m) \<and>
     (\<forall>q \<in> set (m_query m). name_ok (q_domain q)) \<and>
     (\<forall>rr \<in> set (m_answer m @ m_auth m @ m_add m). name_ok (rr_name rr))"

lemma labels_le_uncounted:
  "q \<in> set (m_query m) \<Longrightarrow> length (split_dots (q_domain q)) \<le> uncounted m"
  "rr \<in> set (m_answer m @ m_auth m @ m_add m) \<Longrightarrow> length (split_dots (rr_name rr)) < uncounted m"
proof -
  assume "q \<in> set (m_query m)"
  then show "length (split_dots (q_domain q)) \<le> uncounted m"
    unfolding uncounted_def by (intro trans_le_add1 member_le_sum_list) auto
next
  assume "rr \<in> set (m_answer m @ m_auth m @ m_add m)"
  then have "Suc (length (split_dots (rr_name rr))) \<le> uncounted m"
    unfolding uncounted_def by (intro trans_le_add2 member_le_sum_list) auto
  then show "length (split_dots (rr_name rr)) < uncounted m" by simp
qed

lemma dns_message_of_payload:
  assumes "dns_message_ok m" "uncounted m < n"
  shows "dns_message_of_frame n (dns_header_bytes m @ payload_bytes m @ post) =
    Inr (m\<lparr>h_qr := False, h_opcode := h_opcode m AND 1\<rparr>)"
proof -
  let ?fm = "dns_header_bytes m @ payload_bytes m @ post"
  have h: "dns_header_of ?fm = (dns_header.truncate m)\<lparr>h_qr := False, h_opcode := h_opcode m AND 1\<rparr>"
    using assms(1) by (simp add: dns_header_of_put_header dns_message_ok_def)
  have counts: "dns_frame_nquery ?fm = h_nquery m" "dns_frame_nanswer ?fm = h_nanswer m"
    "dns_frame_nauth ?fm = h_nauth m" "dns_frame_nadd ?fm = h_nadd m"
    using arg_cong [OF h, of h_nquery] arg_cong [OF h, of h_nanswer] arg_cong [OF h, of h_nauth] arg_cong [OF h, of h_nadd]
    by (simp_all add: dns_header_of_def dns_header.truncate_def)
  have q: "reads (\<lambda>fm. parse_list (parse_question n fm) (unat (h_nquery m))) (concat (map question_bytes (m_query m))) (m_query m)"
    using assms by (intro reads_list ballI reads_question)
      (auto simp: dns_message_ok_def dest: labels_le_uncounted(1) intro: le_less_trans)
  have r: "reads (\<lambda>fm. parse_list (parse_resource_record n fm) k) (concat (map rr_bytes rrs)) rrs"
    if "set rrs \<subseteq> set (m_answer m @ m_auth m @ m_add m)" "k = length rrs" for rrs k
    using that assms less_trans [OF labels_le_uncounted(2) assms(2)] by (intro reads_list ballI reads_rr)
      (auto simp: dns_message_ok_def lengths_ok_def subset_iff)
  let ?parse = "\<lambda>fm. bnd (parse_list (parse_question n fm) (unat (h_nquery m))) (\<lambda>qs.
      bnd (parse_list (parse_resource_record n fm) (unat (h_nanswer m))) (\<lambda>answers.
      bnd (parse_list (parse_resource_record n fm) (unat (h_nauth m))) (\<lambda>auths.
      bnd (parse_list (parse_resource_record n fm) (unat (h_nadd m))) (\<lambda>adds. ret (qs, answers, auths, adds)))))"
  have "reads ?parse (concat (map question_bytes (m_query m)) @ concat (map rr_bytes (m_answer m))
      @ concat (map rr_bytes (m_auth m)) @ concat (map rr_bytes (m_add m)) @ []) (m_query m, m_answer m, m_auth m, m_add m)"
    using assms(1) by (intro reads_bnd [OF q] reads_bnd [OF r] reads_ret) (auto simp: dns_message_ok_def)
  then have "?parse ?fm 0 = (Inr (m_query m, m_answer m, m_auth m, m_add m), int (length (payload_bytes m)))"
    unfolding reads_def payload_bytes_def [symmetric] append_Nil2
    by (elim allE [of _ "dns_header_bytes m"] allE [of _ post]) (simp add: dns_header_bytes_def)
  then show ?thesis
    by (auto simp: dns_message_of_frame_def dns_message_assign_def counts h bnd_eq_Inr dns_message_new_def
        dns_header.truncate_def dns_header.extend_def dns_message.fields_def)
qed

text \<open>
  C17: A DNS message with at most twelve uncounted bytes survives being written to a frame and read back,
  for every bound of at least thirteen labels per name, except for two header fields: the setters of the
  other flags clear the query/response flag, and only the lowest bit of the operation code is kept.
\<close>

theorem dns_message_roundtrip:
  assumes "dns_message_ok m" "uncounted m \<le> 12" "length (payload_bytes m) < 65536" "13 \<le> n"
  shows "\<exists>fm. dns_get_frame m = Inr fm \<and>
    dns_message_of_frame n fm = Inr (m\<lparr>h_qr := False, h_opcode := h_opcode m AND 1\<rparr>)"
proof -
  have "dns_get_frame m = Inr (dns_header_bytes m @ payload_bytes m @ replicate (12 - uncounted m) 0)"
    using assms by (simp add: dns_message_ok_def dns_message_payload_get_frame)
  then show ?thesis using assms by (simp add: dns_message_of_payload)
qed

theorem dns_message_roundtrip_witness:
  "\<exists>fm. dns_get_frame (dns_example ''av.it.pt'') = Inr fm \<and> dns_message_of_frame 13 fm = Inr (dns_example ''av.it.pt'')"
  using dns_message_roundtrip [of "dns_example ''av.it.pt''" 13]
  by (simp add: dns_example_def dns_message_set_query_def dns_message_new_def dns_message_ok_def lengths_ok_def uncounted_def
      payload_bytes_def question_bytes_def name_bytes_def label_bytes_def name_ok_def)

text \<open>
  A compression pointer may lead back to the name it ends: the twelve bytes of a header followed by the
  label \<open>a\<close> and a pointer to that label are never parsed to the end.
\<close>

definition looping_frame :: "u8 list" where
  "looping_frame = replicate 12 0 @ [1, 97, 0xC0, 12]"

lemma looping_bytes:
  "p_at looping_frame 0 = ret 1" "p_at looping_frame 1 = ret 97" "p_at looping_frame 2 = ret 0xC0"
  "p_at looping_frame 3 = ret 12"
  by (simp_all add: looping_frame_def p_at_def nth_append)

lemma looping_pointer: "uint16_at looping_frame 2 s = (Inr 0xC00C, s)"
  by (simp add: uint16_at_def looping_bytes)

lemma looping_turn: "fst (parse_labels n looping_frame 2 True q pos) = Inl out_of_fuel"
  by (induction n arbitrary: q) (simp_all add: looping_bytes looping_pointer)

lemma looping_start: "fst (parse_labels n looping_frame 0 False q pos) = Inl out_of_fuel"
proof (cases n)
  case (Suc k)
  then show ?thesis
    using looping_turn by (cases k) (simp_all add: looping_bytes looping_pointer)
qed simp

lemma fst_bnd_Inl: "fst (m s) = Inl e \<Longrightarrow> fst (bnd m f s) = Inl e"
  by (cases "m s") (simp add: bnd_def)

lemma parse_domain_name_diverges: "fst (parse_domain_name n looping_frame 0) = Inl out_of_fuel"
  by (simp add: parse_domain_name_def fst_bnd_Inl looping_start)

end
