(* ===== verification/Dns_Resolver.thy ===== *)
theory Dns_Resolver
  imports Dns_Message
begin

text \<open>
  The DNS resolver (\<open>net/dns/resolver.cpp\<close>): queries that wait for an answer, answered queries kept as
  a cache, and the timer that drops expired ones. An application callback is known by a number and its
  calls are recorded, as are the frames handed to the socket. The mutex is a flag; locking it twice is a
  deadlock of the single thread. The address of the server is made by \<open>boost::asio\<close> and is a parameter;
  the name server is read from \<open>/etc/resolv.conf\<close> by the caller.
\<close>

section \<open>State\<close>

datatype dns_status = DNS_OK | DNS_DOES_NOT_EXIST | DNS_TIMEOUT | DNS_ERROR

record dns_query =
  dq_ctx :: nat
  dq_name :: string
  dq_qtype :: u16
  dq_tid :: u16
  dq_expire :: int
  dq_message :: dns_message
  dq_callback :: nat

record callback_info =
  cb_context :: nat
  cb_name :: string
  cb_type :: u16
  cb_error :: dns_status
  cb_message :: dns_message

record 'e resolver =
  r_tid :: u16
  r_active :: "dns_query list"
  r_cached :: "dns_query list"
  r_locked :: bool
  r_called :: "(nat \<times> callback_info) list"
  r_receives :: "'e list"
  r_sent :: "('e \<times> u8 list) list"

definition query_eq :: "dns_query \<Rightarrow> dns_query \<Rightarrow> bool" where
  "query_eq a b \<longleftrightarrow> dq_qtype a = dq_qtype b \<and> dq_name a = dq_name b"

text \<open>The member \<open>_tid\<close> is not initialised: its first value is a parameter.\<close>

definition resolver_new :: "u16 \<Rightarrow> 'e resolver" where
  "resolver_new tid = \<lparr>r_tid = tid, r_active = [], r_cached = [], r_locked = False, r_called = [], r_receives = [], r_sent = []\<rparr>"

definition DNS_QUERY_TIMEOUT :: int where
  "DNS_QUERY_TIMEOUT = 30"

definition dns_lock :: "('e resolver, unit) eff" where
  "dns_lock s = (if r_locked s then (Inl deadlock, s) else (Inr (), s\<lparr>r_locked := True\<rparr>))"

definition scoped_lock :: "('e resolver, 'a) eff \<Rightarrow> ('e resolver, 'a) eff" where
  "scoped_lock m = seq dns_lock (bnd m (\<lambda>x. seq (upd (r_locked_update (\<lambda>_. False))) (ret x)))"

section \<open>Operations\<close>

definition find_cached_query :: "string \<Rightarrow> u16 \<Rightarrow> ('e resolver, dns_query option) eff" where
  "find_cached_query name qtype = scoped_lock (gets (\<lambda>s. find (\<lambda>q. dq_qtype q = qtype \<and> name = dq_name q) (r_cached s)))"

definition find_active_query :: "u16 \<Rightarrow> ('e resolver, dns_query option) eff" where
  "find_active_query tid = scoped_lock (gets (\<lambda>s. find (\<lambda>q. tid = dq_tid q) (r_active s)))"

definition remove_query :: "dns_query \<Rightarrow> dns_query list \<Rightarrow> dns_query list" where
  "remove_query q = filter (\<lambda>q'. \<not> query_eq q' q)"

definition query_info :: "dns_query \<Rightarrow> dns_status \<Rightarrow> callback_info" where
  "query_info q status = \<lparr>cb_context = dq_ctx q, cb_name = dq_name q, cb_type = dq_qtype q, cb_error = status,
     cb_message = dq_message q\<rparr>"

definition dns_callback :: "dns_query \<Rightarrow> dns_status \<Rightarrow> ('e resolver, unit) eff" where
  "dns_callback q status =
     seq (upd (\<lambda>s. s\<lparr>r_called := r_called s @ [(dq_callback q, query_info q status)]\<rparr>))
       (scoped_lock (seq (upd (\<lambda>s. s\<lparr>r_cached := r_cached s @ [q]\<rparr>))
         (upd (\<lambda>s. s\<lparr>r_active := remove_query q (r_active s)\<rparr>))))"

definition dns_receive_handler :: "nat \<Rightarrow> u8 list \<Rightarrow> ('e resolver, unit) eff" where
  "dns_receive_handler n buff =
     (case dns_message_of_frame n buff of
        Inl e \<Rightarrow> throw e
      | Inr m \<Rightarrow>
          if h_nquery m < 1 then ret ()
          else bnd (find_active_query (h_tid m)) (\<lambda>q.
            case q of
              None \<Rightarrow> ret ()
            | Some q \<Rightarrow>
                let q = q\<lparr>dq_message := m\<rparr> in
                if h_nanswer m = 0 then dns_callback q DNS_DOES_NOT_EXIST
                else if \<exists>rr \<in> set (m_answer m). rr_type rr = dq_qtype q then dns_callback q DNS_OK
                else ret ()))"

definition query_message :: "u16 \<Rightarrow> string \<Rightarrow> u16 \<Rightarrow> dns_message" where
  "query_message tid name qtype =
     dns_message_set_query [\<lparr>q_domain = name, q_type = qtype, q_class = 1\<rparr>]
       (dns_message_new\<lparr>h_tid := tid, h_qr := False, h_opcode := 0, h_aa := False, h_tc := False, h_rd := True,
          h_ra := False, h_z := False, h_rcode := 0\<rparr>)"

definition dns_queue ::
    "(string \<Rightarrow> exn + 'e) \<Rightarrow> int \<Rightarrow> nat \<Rightarrow> string \<Rightarrow> u16 \<Rightarrow> string \<Rightarrow> nat \<Rightarrow> ('e resolver, unit) eff" where
  "dns_queue endpoint now ctx name qtype dns_ip app_callback =
     bnd (find_cached_query name qtype) (\<lambda>cached.
     case cached of
       Some q \<Rightarrow> dns_callback (q\<lparr>dq_ctx := ctx\<rparr>) DNS_OK
     | None \<Rightarrow>
         seq (upd (\<lambda>s. s\<lparr>r_tid := r_tid s + 1\<rparr>))
         (bnd (gets r_tid) (\<lambda>tid.
          case endpoint dns_ip of
            Inl e \<Rightarrow> throw e
          | Inr server \<Rightarrow>
              seq (upd (\<lambda>s. s\<lparr>r_receives := r_receives s @ [server]\<rparr>))
              (case dns_get_frame (query_message tid name qtype) of
                 Inl e \<Rightarrow> throw e
               | Inr fm \<Rightarrow>
                   seq (upd (\<lambda>s. s\<lparr>r_sent := r_sent s @ [(server, fm)]\<rparr>))
                   (scoped_lock (upd (\<lambda>s. s\<lparr>r_active := r_active s @
                      [\<lparr>dq_ctx = ctx, dq_name = to_lower name, dq_qtype = qtype, dq_tid = tid,
                        dq_expire = now + DNS_QUERY_TIMEOUT, dq_message = dns_message_new,
                        dq_callback = app_callback\<rparr>]\<rparr>)))))))"

definition resolver_queue ::
    "(string \<Rightarrow> exn + 'e) \<Rightarrow> int \<Rightarrow> nat \<Rightarrow> string \<Rightarrow> string \<Rightarrow> u16 \<Rightarrow> nat \<Rightarrow> ('e resolver, unit) eff" where
  "resolver_queue endpoint now host_addr dns_ip host type app_callback =
     (if dns_ip = [] then ret () else dns_queue endpoint now host_addr host type dns_ip app_callback)"

definition dns_cancel :: "nat \<Rightarrow> ('e resolver, unit) eff" where
  "dns_cancel context =
     scoped_lock (bnd (gets (\<lambda>s. find (\<lambda>q. dq_ctx q = context) (r_active s))) (\<lambda>q.
       case q of None \<Rightarrow> ret () | Some q \<Rightarrow> upd (\<lambda>s. s\<lparr>r_active := remove_query q (r_active s)\<rparr>)))"

text \<open>
  \<open>cleanup\<close> first starts the timer for its next call, which is left out: a call is an operation of the
  environment. It holds the mutex while it calls \<open>callback\<close>, which locks it again. Removing the element that
  the loop over the cache stands at leaves an iterator to a freed node, which the loop then advances.
\<close>

definition dns_cleanup :: "int \<Rightarrow> ('e resolver, unit) eff" where
  "dns_cleanup now =
     scoped_lock (seq
       (bnd (gets r_active) (for_each (\<lambda>q. on_cond (dq_expire q < now) (dns_callback q DNS_TIMEOUT))))
       (bnd (gets r_cached) (for_each (\<lambda>q. on_cond (dq_expire q < now)
          (seq (upd (\<lambda>s. s\<lparr>r_cached := remove_query q (r_cached s)\<rparr>)) (throw undefined_behaviour))))))"

definition resolver_close :: "('e resolver, unit) eff" where
  "resolver_close = scoped_lock (seq (upd (r_active_update (\<lambda>_. []))) (upd (r_cached_update (\<lambda>_. []))))"

section \<open>Properties\<close>

lemma lock_free: "\<not> r_locked s \<Longrightarrow> dns_lock s = (Inr (), s\<lparr>r_locked := True\<rparr>)"
  by (simp add: dns_lock_def)

lemma lock_held: "r_locked s \<Longrightarrow> dns_lock s = (Inl deadlock, s)"
  by (simp add: dns_lock_def)

lemma same_lock: "\<not> r_locked s \<Longrightarrow> s\<lparr>r_locked := False\<rparr> = s"
  by simp

lemma scoped_lock_gets: "\<not> r_locked s \<Longrightarrow> scoped_lock (gets f) s = (Inr (f (s\<lparr>r_locked := True\<rparr>)), s)"
  by (simp add: scoped_lock_def lock_free)

lemma callback_free:
  "\<not> r_locked s \<Longrightarrow> dns_callback q status s =
     (Inr (), s\<lparr>r_called := r_called s @ [(dq_callback q, query_info q status)],
        r_cached := r_cached s @ [q], r_active := remove_query q (r_active s)\<rparr>)"
  by (simp add: dns_callback_def scoped_lock_def lock_free)

lemma callback_held:
  "r_locked s \<Longrightarrow> dns_callback q status s = (Inl deadlock, s\<lparr>r_called := r_called s @ [(dq_callback q, query_info q status)]\<rparr>)"
  by (simp add: dns_callback_def scoped_lock_def lock_held)

lemma cleanup_active:
  "r_locked s \<Longrightarrow> for_each (\<lambda>q. on_cond (dq_expire q < now) (dns_callback q DNS_TIMEOUT)) qs s =
     (case find (\<lambda>q. dq_expire q < now) qs of
        None \<Rightarrow> (Inr (), s)
      | Some q \<Rightarrow> (Inl deadlock, s\<lparr>r_called := r_called s @ [(dq_callback q, query_info q DNS_TIMEOUT)]\<rparr>))"
  by (induction qs) (simp_all add: callback_held)

lemma cleanup_cached:
  "for_each (\<lambda>q. on_cond (dq_expire q < now)
       (seq (upd (\<lambda>s. s\<lparr>r_cached := remove_query q (r_cached s)\<rparr>)) (throw undefined_behaviour))) qs s =
     (case find (\<lambda>q. dq_expire q < now) qs of
        None \<Rightarrow> (Inr (), s)
      | Some q \<Rightarrow> (Inl undefined_behaviour, s\<lparr>r_cached := remove_query q (r_cached s)\<rparr>))"
  by (induction qs) simp_all

text \<open>
  C22: What the resolver's timer does. When a query that waits for an answer has expired, the application
  is told of the timeout and the thread then blocks for ever on the mutex it holds; when only cached
  answers have expired, the first is removed under the iterator of the loop; otherwise nothing changes.
\<close>

theorem dns_cleanup_outcome:
  assumes "\<not> r_locked s"
  shows "dns_cleanup now s =
    (case find (\<lambda>q. dq_expire q < now) (r_active s) of
       Some q \<Rightarrow> (Inl deadlock, s\<lparr>r_locked := True, r_called := r_called s @ [(dq_callback q, query_info q DNS_TIMEOUT)]\<rparr>)
     | None \<Rightarrow>
         (case find (\<lambda>q. dq_expire q < now) (r_cached s) of
            Some q \<Rightarrow> (Inl undefined_behaviour, s\<lparr>r_locked := True, r_cached := remove_query q (r_cached s)\<rparr>)
          | None \<Rightarrow> (Inr (), s)))"
  using assms
  by (cases "find (\<lambda>q. dq_expire q < now) (r_active s)"; cases "find (\<lambda>q. dq_expire q < now) (r_cached s)")
    (simp_all add: dns_cleanup_def scoped_lock_def lock_free cleanup_active cleanup_cached)

definition waiting_query :: dns_query where
  "waiting_query = \<lparr>dq_ctx = 9, dq_name = ''av.it.pt'', dq_qtype = 1, dq_tid = 7, dq_expire = 30,
     dq_message = dns_message_new, dq_callback = 4\<rparr>"

theorem dns_cleanup_outcome_witness:
  "fst (dns_cleanup 31 (resolver_new 0\<lparr>r_active := [waiting_query]\<rparr> :: unit resolver)) = Inl deadlock \<and>
   fst (dns_cleanup 30 (resolver_new 0\<lparr>r_active := [waiting_query]\<rparr> :: unit resolver)) = Inr ()"
  using dns_cleanup_outcome [of "resolver_new 0\<lparr>r_active := [waiting_query]\<rparr> :: unit resolver" 31]
    dns_cleanup_outcome [of "resolver_new 0\<lparr>r_active := [waiting_query]\<rparr> :: unit resolver" 30]
  by (simp add: resolver_new_def waiting_query_def)

lemma find_query_appended:
  "P q \<Longrightarrow> \<exists>q'. find P (qs @ [q]) = Some q' \<and> P q'"
  by (induction qs) auto

text \<open>
  C23: A negative answer becomes a positive one. When the answer to a waiting query says that the name does
  not exist, its application is told so and the query is cached; a later lookup of the same name and type
  sends nothing and reports success, to the callback of the cached query and not to the one passed in.
\<close>

theorem negative_answer_cached:
  assumes "\<not> r_locked s"
    and "dns_message_of_frame n fm = Inr m" "h_nquery m \<noteq> 0" "h_nanswer m = 0"
    and "find (\<lambda>q. h_tid m = dq_tid q) (r_active s) = Some q"
  shows "\<exists>s' q'. dns_receive_handler n fm s = (Inr (), s') \<and>
    r_called s' = r_called s @ [(dq_callback q, query_info (q\<lparr>dq_message := m\<rparr>) DNS_DOES_NOT_EXIST)] \<and>
    dq_name q' = dq_name q \<and> dq_qtype q' = dq_qtype q \<and> q' \<in> set (r_cached s') \<and>
    (\<forall>endpoint now ctx dns_ip app_callback. \<exists>s''.
       dns_queue endpoint now ctx (dq_name q) (dq_qtype q) dns_ip app_callback s' = (Inr (), s'') \<and>
       r_sent s'' = r_sent s' \<and>
       r_called s'' = r_called s' @ [(dq_callback q', query_info (q'\<lparr>dq_ctx := ctx\<rparr>) DNS_OK)])"
proof -
  let ?q = "q\<lparr>dq_message := m\<rparr>"
  let ?s = "s\<lparr>r_called := r_called s @ [(dq_callback q, query_info ?q DNS_DOES_NOT_EXIST)],
        r_cached := r_cached s @ [?q], r_active := remove_query ?q (r_active s)\<rparr>"
  have recv: "dns_receive_handler n fm s = (Inr (), ?s)"
    using assms by (simp add: dns_receive_handler_def find_active_query_def scoped_lock_gets callback_free)
  obtain q' where q': "find (\<lambda>q'. dq_qtype q' = dq_qtype q \<and> dq_name q = dq_name q') (r_cached ?s) = Some q'"
      "dq_qtype q' = dq_qtype q \<and> dq_name q = dq_name q'"
    using find_query_appended [of "\<lambda>q'. dq_qtype q' = dq_qtype q \<and> dq_name q = dq_name q'" ?q "r_cached s"] by auto
  have mem: "q' \<in> set (r_cached ?s)" using q'(1) by (auto simp: find_Some_iff simp del: set_append)
  have "dns_queue endpoint now ctx (dq_name q) (dq_qtype q) dns_ip app_callback ?s
      = dns_callback (q'\<lparr>dq_ctx := ctx\<rparr>) DNS_OK ?s" for endpoint now ctx dns_ip app_callback
    using assms(1) q'(1) by (simp add: dns_queue_def find_cached_query_def scoped_lock_gets)
  then show ?thesis
    using recv q'(2) mem assms(1) by (intro exI [of _ ?s] exI [of _ q']) (simp add: callback_free)
qed

lemma example_frame:
  "dns_message_of_frame 13 (dns_header_bytes (dns_example ''av.it.pt'') @ payload_bytes (dns_example ''av.it.pt'') @ [])
     = Inr (dns_example ''av.it.pt'')"
  by (subst dns_message_of_payload)
    (simp_all add: dns_example_def dns_message_set_query_def dns_message_new_def dns_message_ok_def lengths_ok_def uncounted_def name_ok_def)

theorem negative_answer_cached_witness:
  "\<exists>s'. dns_receive_handler 13 (dns_header_bytes (dns_example ''av.it.pt'') @ payload_bytes (dns_example ''av.it.pt'') @ [])
       (resolver_new 0\<lparr>r_active := [waiting_query]\<rparr> :: unit resolver) = (Inr (), s') \<and>
     (\<exists>s''. dns_queue (\<lambda>_. Inr ()) 0 5 ''av.it.pt'' 1 ''10.0.0.1'' 8 s' = (Inr (), s'') \<and> r_sent s'' = r_sent s')"
  using negative_answer_cached [of "resolver_new 0\<lparr>r_active := [waiting_query]\<rparr> :: unit resolver", OF _ example_frame,
      of waiting_query]
  by (fastforce simp: resolver_new_def waiting_query_def dns_example_def dns_message_set_query_def dns_message_new_def)

end
