(* ===== verification/List_Node.thy ===== *)
theory List_Node
  imports Mih_Prelude
begin

text \<open>
  The intrusive doubly linked list of \<open>inc/odtone/list_node.hpp\<close>. Nodes live on a heap; the list is a
  ring through a head node, and every operation is the sequence of pointer assignments of the source,
  each evaluated on the heap the ones before it left.
\<close>

section \<open>Nodes and operations\<close>

record node =
  node_next :: nat
  node_prev :: nat

type_synonym heap = "nat \<Rightarrow> node"

abbreviation nxt :: "heap \<Rightarrow> nat \<Rightarrow> nat" where
  "nxt h p \<equiv> node_next (h p)"

abbreviation prv :: "heap \<Rightarrow> nat \<Rightarrow> nat" where
  "prv h p \<equiv> node_prev (h p)"

definition set_next :: "nat \<Rightarrow> nat \<Rightarrow> heap \<Rightarrow> heap" where
  "set_next p q h = h(p := (h p)\<lparr>node_next := q\<rparr>)"

definition set_prev :: "nat \<Rightarrow> nat \<Rightarrow> heap \<Rightarrow> heap" where
  "set_prev p q h = h(p := (h p)\<lparr>node_prev := q\<rparr>)"

definition node_init :: "nat \<Rightarrow> heap \<Rightarrow> heap" where
  "node_init this h = set_next this this (set_prev this this h)"

definition push_front :: "nat \<Rightarrow> nat \<Rightarrow> heap \<Rightarrow> heap" where
  "push_front this n h =
     (let h = set_prev (nxt h this) n h;
          h = set_prev n this h;
          h = set_next n (nxt h this) h in
      set_next this n h)"

definition push_back :: "nat \<Rightarrow> nat \<Rightarrow> heap \<Rightarrow> heap" where
  "push_back this n h =
     (let h = set_next (prv h this) n h;
          h = set_next n this h;
          h = set_prev n (prv h this) h in
      set_prev this n h)"

definition node_remove :: "nat \<Rightarrow> heap \<Rightarrow> heap" where
  "node_remove this h =
     (let h = set_next (prv h this) (nxt h this) h in
      set_prev (nxt h this) (prv h this) h)"

definition pop_front :: "nat \<Rightarrow> heap \<Rightarrow> nat \<times> heap" where
  "pop_front this h = (let n = nxt h this in (n, node_remove n h))"

definition pop_back :: "nat \<Rightarrow> heap \<Rightarrow> nat \<times> heap" where
  "pop_back this h = (let n = prv h this in (n, node_remove n h))"

definition node_front :: "nat \<Rightarrow> heap \<Rightarrow> nat" where
  "node_front this h = nxt h this"

definition node_back :: "nat \<Rightarrow> heap \<Rightarrow> nat" where
  "node_back this h = prv h this"

definition node_swap :: "nat \<Rightarrow> nat \<Rightarrow> heap \<Rightarrow> heap" where
  "node_swap this y h =
     (let n = nxt h this;
          p = prv h this;
          h = set_next this (nxt h y) h;
          h = set_prev this (prv h y) h;
          h = set_next y n h in
      set_prev y p h)"

definition node_reverse :: "nat \<Rightarrow> heap \<Rightarrow> heap" where
  "node_reverse this h =
     (let n = nxt h this;
          h = set_next this (prv h this) h in
      set_prev this n h)"

definition node_empty :: "nat \<Rightarrow> heap \<Rightarrow> bool" where
  "node_empty this h \<longleftrightarrow> nxt h this = this"

section \<open>Rings\<close>

fun linked :: "heap \<Rightarrow> nat list \<Rightarrow> bool" where
  "linked h (a # b # xs) \<longleftrightarrow> nxt h a = b \<and> prv h b = a \<and> linked h (b # xs)"
| "linked h _ = True"

definition ring :: "heap \<Rightarrow> nat \<Rightarrow> nat list \<Rightarrow> bool" where
  "ring h x xs \<longleftrightarrow> distinct (x # xs) \<and> linked h (x # xs @ [x])"

lemma set_next_sel [simp]: "nxt (set_next p q h) r = (if r = p then q else nxt h r)" "prv (set_next p q h) r = prv h r"
  by (simp_all add: set_next_def)

lemma set_prev_sel [simp]: "prv (set_prev p q h) r = (if r = p then q else prv h r)" "nxt (set_prev p q h) r = nxt h r"
  by (simp_all add: set_prev_def)

lemma linked_append: "linked h (xs @ a # ys) \<longleftrightarrow> linked h (xs @ [a]) \<and> linked h (a # ys)"
  by (induction h xs rule: linked.induct) (auto simp: neq_Nil_conv)

text \<open>A link is kept when neither the successor of a node but the last nor the predecessor of a node but the first changes.\<close>

lemma linked_cong:
  "(\<And>a. a \<in> set (butlast xs) \<Longrightarrow> nxt h' a = nxt h a) \<Longrightarrow> (\<And>a. a \<in> set (tl xs) \<Longrightarrow> prv h' a = prv h a) \<Longrightarrow>
     linked h' xs = linked h xs"
  by (induction h xs rule: linked.induct) (auto split: if_splits)

lemma linked_prev_last: "linked h (xs @ [a, b]) \<Longrightarrow> prv h b = a"
  by (simp add: linked_append [of h xs a "[b]"])

lemma ring_next: "ring h x xs \<Longrightarrow> nxt h x = hd (xs @ [x])"
  by (cases xs) (simp_all add: ring_def)

lemma ring_prev: "ring h x xs \<Longrightarrow> prv h x = last (x # xs)"
proof -
  assume r: "ring h x xs"
  have "x # xs @ [x] = butlast (x # xs) @ [last (x # xs), x]"
    by (metis append_Cons append_butlast_last_id append_assoc list.distinct(1) append_Nil)
  then show ?thesis using r linked_prev_last by (metis ring_def)
qed

lemma ring_init: "ring (node_init x h) x []"
  by (simp add: ring_def node_init_def)

lemma ring_push_front:
  assumes "ring h x xs" "n \<notin> set (x # xs)"
  shows "ring (push_front x n h) x (n # xs)"
proof -
  obtain b ys where b: "xs @ [x] = b # ys" by (cases xs) auto
  have nb: "nxt h x = b" using ring_next [OF assms(1)] b by simp
  have d: "distinct (b # ys)" "n \<notin> set (b # ys)" "x \<notin> set (butlast (b # ys))"
    using assms by (simp_all add: b [symmetric] ring_def)
  have nbl: "n \<notin> set (butlast (b # ys))" using d(2) in_set_butlastD by metis
  have l: "linked h (b # ys)" using assms(1) by (simp add: ring_def b)
  let ?h = "push_front x n h"
  have sel: "nxt ?h a = (if a = x then n else if a = n then b else nxt h a)"
    "prv ?h a = (if a = n then x else if a = b then n else prv h a)" for a
    using assms(2) nb d(2) by (auto simp: push_front_def Let_def)
  have "linked ?h (b # ys) = linked h (b # ys)"
    using d nbl by (intro linked_cong) (auto simp: sel simp del: butlast.simps)
  with l assms sel d(2) show ?thesis by (auto simp: ring_def b)
qed

lemma ring_push_back:
  assumes "ring h x xs" "n \<notin> set (x # xs)"
  shows "ring (push_back x n h) x (xs @ [n])"
proof -
  obtain zs p where p: "x # xs = zs @ [p]" by (metis append_butlast_last_id list.distinct(1))
  have np: "prv h x = p" using ring_prev [OF assms(1)] p by simp
  have d: "distinct (zs @ [p])" "n \<notin> set (zs @ [p])" "x \<notin> set (tl (zs @ [p]))"
    using assms by (simp_all add: p [symmetric] ring_def)
  have l: "linked h (zs @ [p])"
    using assms(1) linked_append [of h zs p "[x]"] p by (simp add: ring_def) (metis append_Cons append_assoc append_Nil)
  let ?h = "push_back x n h"
  have sel: "nxt ?h a = (if a = n then x else if a = p then n else nxt h a)"
    "prv ?h a = (if a = x then n else if a = n then p else prv h a)" for a
    using assms(2) np d(2) by (auto simp: push_back_def Let_def)
  have "linked ?h (zs @ [p]) = linked h (zs @ [p])"
    using d by (intro linked_cong) (auto simp: sel dest: list.set_sel(2) [rotated])
  then have "linked ?h (zs @ p # [n, x])"
    using l d(2) assms(2) sel by (subst linked_append) auto
  moreover have "x # (xs @ [n]) @ [x] = zs @ p # [n, x]" using p by simp
  moreover have "distinct (x # xs @ [n])" using assms by (auto simp: ring_def)
  ultimately show ?thesis by (simp only: ring_def)
qed

lemma ring_remove:
  assumes "ring h x (as @ y # bs)"
  shows "ring (node_remove y h) x (as @ bs)"
proof -
  obtain zs p where p: "x # as = zs @ [p]" by (metis append_butlast_last_id list.distinct(1))
  obtain c ws where c: "bs @ [x] = c # ws" by (cases bs) auto
  have all: "x # (as @ y # bs) @ [x] = zs @ p # y # c # ws" using p c by simp
  have l: "linked h (zs @ [p])" "nxt h p = y" "prv h y = p" "nxt h y = c" "prv h c = y" "linked h (c # ws)"
    using assms linked_append [of h zs p "y # c # ws"] unfolding ring_def all by auto
  have dx: "distinct (x # as @ y # bs)" using assms by (simp add: ring_def)
  have sets: "set (zs @ [p]) = insert x (set as)" "set (c # ws) = insert x (set bs)"
    by (simp_all only: p [symmetric] c [symmetric]) auto
  have d: "distinct (zs @ [p])" "distinct (c # ws)" "y \<notin> set (zs @ [p])" "y \<notin> set (c # ws)"
    using dx by (simp_all only: p [symmetric] c [symmetric]) auto
  have tls: "set (tl (zs @ [p])) = set as" "set (butlast (c # ws)) = set bs"
    by (simp_all only: p [symmetric] c [symmetric]) simp_all
  let ?h = "node_remove y h"
  have sel: "nxt ?h a = (if a = p then c else nxt h a)" "prv ?h a = (if a = c then p else prv h a)" for a
    using d l by (auto simp: node_remove_def Let_def)
  have "linked ?h (zs @ [p]) = linked h (zs @ [p])"
  proof (rule linked_cong)
    fix a assume "a \<in> set (tl (zs @ [p]))"
    then have "a \<in> set as" by (simp only: tls)
    moreover have "c \<in> insert x (set bs)" using sets by auto
    ultimately show "prv ?h a = prv h a" using dx by (auto simp: sel)
  qed (use d in \<open>auto simp: sel\<close>)
  moreover have "linked ?h (c # ws) = linked h (c # ws)"
  proof (rule linked_cong)
    fix a assume "a \<in> set (butlast (c # ws))"
    then have "a \<in> set bs" by (simp only: tls)
    moreover have "p \<in> insert x (set as)" using sets by auto
    ultimately show "nxt ?h a = nxt h a" using dx by (auto simp: sel)
  qed (use d in \<open>auto simp: sel\<close>)
  ultimately have "linked ?h (zs @ p # c # ws)"
    using l by (subst linked_append) (simp add: sel)
  moreover have "x # (as @ bs) @ [x] = zs @ p # c # ws" using p c by simp
  moreover have "distinct (x # as @ bs)" using dx by auto
  ultimately show ?thesis by (simp only: ring_def)
qed

lemma ring_front: "ring h x (a # xs) \<Longrightarrow> node_front x h = a"
  by (simp add: node_front_def ring_next)

lemma ring_back: "ring h x (xs @ [a]) \<Longrightarrow> node_back x h = a"
  by (simp add: node_back_def ring_prev)

lemma ring_empty: "ring h x xs \<Longrightarrow> node_empty x h \<longleftrightarrow> xs = []"
  using ring_next [of h x xs] by (cases xs) (auto simp: node_empty_def ring_def)

lemma ring_pop_front: "ring h x (a # xs) \<Longrightarrow> fst (pop_front x h) = a \<and> ring (snd (pop_front x h)) x xs"
  using ring_remove [of h x "[]" a xs] by (simp add: pop_front_def Let_def ring_next)

lemma ring_pop_back: "ring h x (xs @ [a]) \<Longrightarrow> fst (pop_back x h) = a \<and> ring (snd (pop_back x h)) x xs"
  using ring_remove [of h x xs a "[]"] by (simp add: pop_back_def Let_def ring_prev)

section \<open>Sequences of operations\<close>

datatype list_op = Push_front nat | Push_back nat | Pop_front | Pop_back | Remove nat

text \<open>Each operation on the heap returns the node it took off, and its counterpart on lists the same.\<close>

fun run_op :: "nat \<Rightarrow> list_op \<Rightarrow> heap \<Rightarrow> nat list \<times> heap" where
  "run_op x (Push_front n) h = ([], push_front x n h)"
| "run_op x (Push_back n) h = ([], push_back x n h)"
| "run_op x Pop_front h = ([fst (pop_front x h)], snd (pop_front x h))"
| "run_op x Pop_back h = ([fst (pop_back x h)], snd (pop_back x h))"
| "run_op x (Remove n) h = ([], node_remove n h)"

fun spec_op :: "list_op \<Rightarrow> nat list \<Rightarrow> nat list \<times> nat list" where
  "spec_op (Push_front n) xs = ([], n # xs)"
| "spec_op (Push_back n) xs = ([], xs @ [n])"
| "spec_op Pop_front xs = ([hd xs], tl xs)"
| "spec_op Pop_back xs = ([last xs], butlast xs)"
| "spec_op (Remove n) xs = ([], remove1 n xs)"

fun op_ok :: "nat \<Rightarrow> list_op \<Rightarrow> nat list \<Rightarrow> bool" where
  "op_ok x (Push_front n) xs \<longleftrightarrow> n \<notin> set (x # xs)"
| "op_ok x (Push_back n) xs \<longleftrightarrow> n \<notin> set (x # xs)"
| "op_ok x (Remove n) xs \<longleftrightarrow> n \<in> set xs"
| "op_ok x _ xs \<longleftrightarrow> xs \<noteq> []"

fun run_ops :: "nat \<Rightarrow> list_op list \<Rightarrow> heap \<Rightarrow> nat list \<times> heap" where
  "run_ops x [] h = ([], h)"
| "run_ops x (c # cs) h = (let (r, h) = run_op x c h; (rs, h) = run_ops x cs h in (r @ rs, h))"

fun spec_ops :: "list_op list \<Rightarrow> nat list \<Rightarrow> nat list \<times> nat list" where
  "spec_ops [] xs = ([], xs)"
| "spec_ops (c # cs) xs = (let (r, xs) = spec_op c xs; (rs, xs) = spec_ops cs xs in (r @ rs, xs))"

fun ops_ok :: "nat \<Rightarrow> list_op list \<Rightarrow> nat list \<Rightarrow> bool" where
  "ops_ok x [] xs \<longleftrightarrow> True"
| "ops_ok x (c # cs) xs \<longleftrightarrow> op_ok x c xs \<and> ops_ok x cs (snd (spec_op c xs))"

lemma run_op_refines:
  assumes "ring h x xs" "op_ok x c xs"
  shows "fst (run_op x c h) = fst (spec_op c xs) \<and> ring (snd (run_op x c h)) x (snd (spec_op c xs))"
proof (cases c)
  case Pop_front
  with assms show ?thesis by (cases xs) (simp_all add: ring_pop_front)
next
  case Pop_back
  with assms show ?thesis by (cases xs rule: rev_cases) (simp_all add: ring_pop_back)
next
  case (Remove n)
  then obtain as bs where "xs = as @ n # bs" "n \<notin> set as"
    using assms(2) split_list_first by fastforce
  with assms(1) Remove show ?thesis by (simp add: remove1_append ring_remove)
qed (use assms in \<open>simp_all add: ring_push_front ring_push_back\<close>)

text \<open>
  C21: The intrusive list refines a list: after any sequence of insertions of nodes that are not in it,
  of removals of nodes that are, and of pops while it is not empty, the heap is a ring through the head in
  the order the list operations give, the nodes taken off are the same, and the queries agree with it.
\<close>

theorem list_node_refines:
  assumes "ring h x xs" "ops_ok x cs xs"
  shows "fst (run_ops x cs h) = fst (spec_ops cs xs) \<and> ring (snd (run_ops x cs h)) x (snd (spec_ops cs xs)) \<and>
    (node_empty x (snd (run_ops x cs h)) \<longleftrightarrow> snd (spec_ops cs xs) = [])"
proof -
  have "fst (run_ops x cs h) = fst (spec_ops cs xs) \<and> ring (snd (run_ops x cs h)) x (snd (spec_ops cs xs))"
    using assms
  proof (induction cs arbitrary: h xs)
    case (Cons c cs)
    with run_op_refines [of h x xs c] Cons.IH [of "snd (run_op x c h)" "snd (spec_op c xs)"] show ?case
      by (simp add: Let_def case_prod_beta)
  qed simp
  then show ?thesis by (simp add: ring_empty)
qed

theorem list_node_refines_witness:
  "fst (run_ops 0 [Push_back 1, Push_front 2, Push_back 3, Remove 1, Pop_front, Pop_front]
     (node_init 0 (\<lambda>_. \<lparr>node_next = 0, node_prev = 0\<rparr>))) = [2, 3]"
  using list_node_refines [OF ring_init, of 0 "[Push_back 1, Push_front 2, Push_back 3, Remove 1, Pop_front, Pop_front]"]
  by simp

section \<open>Swapping and reversing\<close>

text \<open>
  \<open>swap\<close> and \<open>reverse\<close> change the head node only. The neighbours still point to the old head, or in the old
  direction: swapping a list that is not empty, or reversing one with two elements or more, does not give a ring.
\<close>

lemma swap_breaks:
  assumes "ring h x (a # xs)" "x \<noteq> y" "a \<noteq> y"
  shows "\<not> ring (node_swap x y h) y ys"
proof
  assume r: "ring (node_swap x y h) y ys"
  have a: "nxt h x = a" "prv h a = x" "a \<noteq> x" using assms(1) by (auto simp: ring_def)
  then have "hd (ys @ [y]) = a" using ring_next [OF r] assms by (simp add: node_swap_def Let_def)
  then obtain zs where "ys = a # zs" using assms(3) by (cases ys) auto
  then have "prv (node_swap x y h) a = y" using r by (simp add: ring_def)
  with a assms show False by (simp add: node_swap_def Let_def)
qed

lemma reverse_breaks:
  assumes "ring h x (xs @ [b, a])"
  shows "\<not> ring (node_reverse x h) x ys"
proof
  assume r: "ring (node_reverse x h) x ys"
  have a: "prv h x = a" "a \<noteq> x" "b \<noteq> x" using assms ring_prev [OF assms] by (auto simp: ring_def)
  have b: "prv h a = b"
    using assms linked_append [of h "x # xs" b "[a, x]"] by (simp add: ring_def)
  have "hd (ys @ [x]) = a" using ring_next [OF r] a by (simp add: node_reverse_def Let_def)
  then obtain zs where "ys = a # zs" using a(2) by (cases ys) auto
  then have "prv (node_reverse x h) a = x" using r by (simp add: ring_def)
  with a b show False by (simp add: node_reverse_def Let_def)
qed

end
