(* ===== verification/Spec2Isabelle.thy ===== *)
theory Spec2Isabelle
  imports Mihf_Liveness Link_Sap_Delivery Net_Address Dns_Resolver List_Node
begin

text \<open>
  A verification development for ODTONE, an implementation of the IEEE 802.21 Media Independent
  Handover services.

  \<^bold>\<open>The program.\<close> The daemon, the MIHF (\<open>src/src/mihf\<close>), stands between three kinds of partners and
  exchanges messages with them over UDP and TCP: Link SAPs, which drive a network device and report
  its events; MIH users, which subscribe to events and give commands; and the MIHFs of other hosts.
  A message is a frame with a fixed header and a payload of TLVs (type, length, value). A message of
  a local partner is given to the handler registered for its identifier, which answers it or passes
  it on. A message to or from a peer goes through a transaction, a pair of state machines that
  acknowledge, retransmit and give up. The library (\<open>src/lib/odtone\<close>, \<open>src/inc/odtone\<close>) holds the
  serialization, the message type, the client side of both local interfaces, and helpers for
  addresses, lists and DNS. \<open>src/app\<close> holds the Link SAPs and the users.

  \<^bold>\<open>How the code is modelled.\<close> A C++ integer is a word of its width. A class is a record, an
  enumeration or a \<open>boost::variant\<close> a datatype, a \<open>std::map\<close> a list sorted by key. An operation that
  can throw has the type \<open>('s, 'a) eff\<close> of \<open>Mih_Prelude\<close>: it maps a state to a result or an
  exception and a new state. \<open>bnd\<close>, \<open>seq\<close>, \<open>try_catch\<close>, \<open>for_each\<close> and \<open>goto\<close> are sequencing, exception
  handlers, loops and the jumps of the state machines. Undefined behaviour, a failed assertion and a
  mutex that is locked twice by its holder are exceptions too, so a theorem about a normal result
  excludes them. Objects behind shared pointers, the messages and the transactions, are on explicit
  heaps. Sockets, the device and the shell are parameters: \<open>platform\<close> tells which sends are refused,
  and \<open>device\<close> is the record of the functions of the network device.

  \<^bold>\<open>Serialization and messages.\<close>
  \<^item> \<open>Mih_Prelude\<close>: exceptions, the effect type, words as octets, sorted maps with the locale
    \<open>ordered_map\<close>.
  \<^item> \<open>Mih_Archive\<close> (\<open>mih/archive.hpp\<close>, \<open>archive.cpp\<close>): reads stay inside the buffer or throw; list
    lengths are read back up to the size at which the three octet form is garbled.
  \<^item> \<open>Mih_Codec\<close> (\<open>mih/detail/archive.hpp\<close>): a \<open>codec\<close> is the pair of the write and the read of a type.
    The locale \<open>codec_law\<close> is its contract, reading back what was written anywhere in a buffer;
    every constructor of codecs keeps it.
  \<^item> \<open>Mih_Tlv\<close>, \<open>Mih_Tlv_Types\<close> (\<open>mih/tlv.hpp\<close>, \<open>tlv_types.hpp\<close>, \<open>types/ipconfig.hpp\<close>): a read that does
    not succeed leaves the position where it was.
  \<^item> \<open>Mih_Base_Types\<close>, \<open>Mih_Link_Types\<close> (\<open>mih/types/*.hpp\<close>): bitmaps refine finite sets; the round trip
    is carried from the parts to the structures.
  \<^item> \<open>Mih_Message\<close> (\<open>mih/frame.hpp\<close>, \<open>message.hpp\<close>, \<open>message.cpp\<close>): header fields, identifiers, and the
    round trip of a message through its frame.

  \<^bold>\<open>The MIHF.\<close> The state grows with the layers: \<open>net\<close> (messages, address book, what was sent), \<open>tworld\<close>
  (transactions), \<open>pools\<close>, \<open>world\<close> (everything).
  \<^item> \<open>Mihf_Books\<close> (\<open>address_book.cpp\<close>, \<open>link_book.cpp\<close>, \<open>user_book.cpp\<close>) and \<open>Mihf_Pools\<close>
    (\<open>local_transaction_pool.cpp\<close>, \<open>link_response_pool.cpp\<close>): every setter changes its own field of its
    own entry (locale \<open>entry_setter\<close>); answers go back to the user that asked.
  \<^item> \<open>Mihf_Net\<close> (\<open>net_sap.cpp\<close>, \<open>utils.cpp\<close>): the route of a message, the advertised capabilities.
  \<^item> \<open>Mihf_Transaction\<close>, \<open>Mihf_Messages\<close> (\<open>transaction.cpp\<close>, \<open>src_transaction.cpp\<close>,
    \<open>dst_transaction.cpp\<close>, \<open>transaction_pool.cpp\<close>, \<open>message_in.cpp\<close>, \<open>message_out.cpp\<close>): the four state
    machines, the pools with their mutexes and their timer.
  \<^item> \<open>Mihf_System\<close>, \<open>Mihf_Event\<close>, \<open>Mihf_Command\<close>, \<open>Mihf_Information\<close>, \<open>Mihf_Management\<close>: dispatch, the
    reception of a datagram, and every handler and timeout of the services.
  \<^item> \<open>Mihf_Daemon\<close> (\<open>main.cpp\<close>): the table of handlers, the events of the \<open>io_service\<close>, and runs of
    the daemon as the inductive relations \<open>daemon_step\<close> and \<open>daemon_run\<close>. After an event the daemon is
    running, has been terminated by an exception, or hangs on a mutex it holds itself.

  \<^bold>\<open>What is shown of the MIHF.\<close> \<open>Mih_Wp\<close> is the proof layer: weakest preconditions, the exceptions an
  operation throws, the predicates it keeps. \<open>Mih_Ends\<close> shows that no codec reaches a bound of the
  model. \<open>Mihf_Handlers\<close> shows once, in the locale \<open>service_invariant\<close>, that a predicate with a few
  closure properties is kept by every handler. \<open>Mihf_Pool_Inv\<close>, \<open>Mihf_Lifetime\<close> and \<open>Mihf_Tick\<close> show for
  every handler with the contract \<open>pool_handler\<close> that the transaction layer keeps the invariant of its
  pools and that a tick takes one tick off every transaction; \<open>Mihf_Liveness\<close> supplies the handlers of
  the daemon and concludes that after fifteen ticks every transaction has left the pools, that the
  state machines return, and that a tick neither loops nor waits for its own mutex unless an
  exception has left a transaction inside its handler. \<open>Mihf_Frames\<close> gives the invariant of the
  registries along every run. \<open>Mihf_Delivery\<close> shows that an event reaches exactly the subscribed users
  and that a datagram of only a header ends the daemon.

  \<^bold>\<open>Partners and helpers.\<close>
  \<^item> \<open>Sap_Services\<close> (\<open>sap/user.cpp\<close>, \<open>sap/link.cpp\<close>): requests of a user get a free identifier and their
    confirm is delivered once.
  \<^item> \<open>Link_Sap\<close>, \<open>Link_Sap_Inv\<close> (\<open>app/sap_80211\<close>, \<open>app/common/dbus/wpa_supplicant\<close>, \<open>app/common/dhcp\<close>): the
    Link SAP for 802.11; its reachable states, its threshold check and its configuration. The locale
    \<open>sap_predicate\<close> carries an invariant over all its events.
  \<^item> \<open>Link_Sap_Delivery\<close> puts the Link SAP and the MIHF together: the datagram the one sends is the
    event the other delivers.
  \<^item> \<open>Net_Address\<close> (\<open>net/ip\<close>, \<open>net/link\<close>): checksum, prefixes, MAC addresses.
  \<^item> \<open>Dns_Frame\<close>, \<open>Dns_Message\<close>, \<open>Dns_Resolver\<close> (\<open>net/dns\<close>): header, messages and the resolver with its
    cache and mutex.
  \<^item> \<open>List_Node\<close> (\<open>list_node.hpp\<close>): the intrusive list on a heap refines a list.

  \<^bold>\<open>Bounds.\<close> A \<open>goto\<close> has a number of blocks, four for the acknowledgement responder and five for the
  other machines; \<open>more_blocks_same\<close> shows that more change nothing and \<open>machines_return\<close> that they are
  never used up. A handler that sends can reach a
  transaction that calls a handler; \<open>mihf_handler\<close> bounds the depth of such calls by \<open>n\<close>, every theorem
  holds for all \<open>n\<close>, and a \<open>daemon_step\<close> is a run that did not exceed its bound. A tick of the pool
  timer needs no level when no transaction was left inside its handler (\<open>pool_tick_completes\<close>), and
  one level otherwise (\<open>pool_tick_steps\<close>). For a datagram no bound is shown:
  a handler that sends into the transaction it is called for is called again. The search for a
  free identifier of a user takes at most 4095 candidates when one is free. The threshold check of
  the Link SAP takes one round more than it has thresholds. A domain name is parsed with a bound on
  its labels, thirteen being enough for the names of the round trip; a name that points to itself
  exhausts every bound.

  \<^bold>\<open>Not modelled.\<close>
  \<^item> The sockets, netlink (\<open>app/common/libnl\<close>, \<open>if_80211.cpp\<close>), D-Bus and the file system: input and
    output, which the parameters stand for. A received datagram is an event with arbitrary octets.
  \<^item> Threads. The daemon runs one thread, so one event ends before the next one starts; the mutexes
    of the transaction pools and of the resolver are modelled because their holder can take them
    again. The mutex of the subscriptions is not: \<open>link_unsubscribe\<close> holds it while it sends, and
    when the datagram is refused a handler that needs it could be called meanwhile. The mutexes of
    the books are held for one operation only.
  \<^item> The search tree of \<open>std::set\<close>. The pools behave as the library promises; the comparison the code
    gives to the set does not meet the precondition of that promise.
  \<^item> What happens to a frame after it was handed to an asynchronous send: \<open>n_sent\<close> has it at that
    moment, although the source keeps it in a local buffer and closes the socket at once.
  \<^item> Reading the configuration and the command line, and logging: \<open>boost::program_options\<close>,
    \<open>boost::tokenizer\<close> and streams. What \<open>main\<close> reads is an argument of the initial state.
  \<^item> The information elements (\<open>types/information_elements.hpp\<close>, \<open>bin_query.hpp\<close>, \<open>bin_response.hpp\<close>):
    structures built with the codecs of \<open>Mih_Codec\<close> that no modelled handler reads; the MIHF passes
    their octets on.
  \<^item> The wired Link SAP, which repeats the wireless one, the example Link SAPs and users, the ICMP
    helpers, the NetworkManager and D-Bus proxies, which are generated code and glue, and the copies
    of the ISC DHCP client and of libnl.
  \<^item> \<open>src/extensions\<close>: separate programs in C and for sensors that share no code with the MIHF.
\<close>

end
